theory Spec2Isabelle
  imports Complex_Main "HOL-Library.Word"
begin

unbundle bit_operations_syntax

section \<open>Urban Survival: map generation, collision, pathfinding and the game loop\<close>

text \<open>
  A shallow embedding of the server side of the game: \<^verbatim>\<open>GameState.js\<close>,
  \<^verbatim>\<open>CollisionSystem.js\<close>, \<^verbatim>\<open>PathfindingWorker.js\<close>, \<^verbatim>\<open>MapManager.js\<close> and
  \<^verbatim>\<open>SeededRandom.js\<close>. JavaScript numbers are read as real numbers (rounding of
  doubles, \<^verbatim>\<open>NaN\<close> and the infinities are left out); the 32-bit integer
  operations of the random number generator are words. A JavaScript \<^verbatim>\<open>Map\<close> keyed
  by an id is a partial function from ids; \<^verbatim>\<open>null\<close> and \<^verbatim>\<open>undefined\<close> results
  are \<open>None\<close>. What the code reads from outside (\<^verbatim>\<open>uuidv4()\<close>, \<^verbatim>\<open>Date.now()\<close>,
  \<^verbatim>\<open>Math.random()\<close>) is an explicit argument of the function that reads it.
\<close>

subsection \<open>Strings\<close>

text \<open>
  A JavaScript string is a sequence of UTF-16 code units. The identifiers of the game
  (socket ids, uuids, keys of the maps, type names) are ASCII and are kept as Isabelle
  strings; the texts that players type and read are sequences of code units, and
  \<open>ascii\<close> is such a text written with an ASCII literal.
\<close>

type_synonym jstring = "16 word list"

definition ascii :: "string \<Rightarrow> jstring" where
  "ascii s = map (\<lambda>c. of_nat (of_char c)) s"

subsection \<open>Entities of the game state\<close>

record vec3 =
  vx :: real
  vy :: real
  vz :: real

record bounds =
  minX :: real
  maxX :: real
  minZ :: real
  maxZ :: real

text \<open>What the collision grid and the game read of a generated building, interior and barrel fire.\<close>

record building =
  bd_id :: string
  bd_position :: vec3
  bd_width :: real
  bd_height :: real
  bd_depth :: real

record door =
  door_position :: "real \<times> real"
  door_side :: string
  door_width :: real
  door_barricaded :: bool

record interior =
  in_id :: string
  in_buildingId :: string
  in_bounds :: bounds
  in_door :: door

record barrel_fire =
  bf_id :: string
  bf_position :: vec3
  bf_warmthRadius :: real

record pillar =
  pl_position :: vec3
  pl_height :: real

record overpass =
  op_id :: string
  op_direction :: string
  op_pillars :: "pillar list"

record map_prop =
  pr_id :: string
  pr_type :: string
  pr_subtype :: "string option"
  pr_position :: vec3

text \<open>
  The fields of a \<^verbatim>\<open>MapManager\<close> that spawn-point calculation, the collision grid,
  collision, pathfinding and the game read or write: of the area definition the
  bounds, the players' spawn zone and the enemies' minimal distance; the collision grid
  (a \<^verbatim>\<open>Uint8Array\<close>, row by row); the generated entities; the state
  \<^verbatim>\<open>rng.current\<close> of the seeded random number generator; the spawn points.
\<close>

record map_manager =
  area_bounds :: bounds
  collisionGrid :: "nat list"
  gridResolution :: real
  gridWidth :: int
  gridHeight :: int
  buildings :: "building list"
  interiors :: "interior list"
  barrelFires :: "barrel_fire list"
  overpasses :: "overpass list"
  props :: "map_prop list"
  area_playerZone :: bounds
  area_enemyMinDistance :: real
  rng_current :: int
  spawnPlayers :: "vec3 list"
  spawnEnemies :: "(real \<times> real) list"

record player =
  name :: jstring
  position :: vec3
  rotation :: "real \<times> real"
  health :: real
  maxHealth :: real
  hunger :: real
  warmth :: real
  energy :: real
  score :: real
  kills :: nat
  headshots :: nat
  damageDealt :: real
  revives :: nat
  alive :: bool
  isDowned :: bool
  downedTimer :: int
  perks :: "string list"
  color :: nat
  isInsideBuilding :: bool
  currentInterior :: "string option"

text \<open>The generated identity of an enemy, \<^verbatim>\<open>generateEnemyIdentity\<close>.\<close>

record identity =
  fullName :: string
  age :: nat
  netWorth :: real

record enemy =
  e_type :: string
  e_identity :: identity
  e_position :: vec3
  e_rotation :: real
  e_health :: real
  e_maxHealth :: real
  e_speed :: real
  e_damage :: real
  e_headMultiplier :: real
  e_attackCooldown :: real
  e_throwCooldown :: real
  e_ranged :: bool
  e_throwRange :: real
  e_isBoss :: bool
  e_aggroed :: bool
  e_targetPlayerId :: "string option"

text \<open>An entry of the table \<^verbatim>\<open>ENEMY_TYPES\<close>; a field the entry leaves out is 0 or false.\<close>

record enemy_type =
  et_health :: real
  et_speed :: real
  et_damage :: real
  et_spawnWeight :: real
  et_headMultiplier :: real
  et_ranged :: bool
  et_throwCooldown :: real
  et_throwRange :: real
  et_isBoss :: bool

definition ENEMY_TYPES :: "(string \<times> enemy_type) list" where
  "ENEMY_TYPES =
     [(''normal'', \<lparr>et_health = 30, et_speed = 0.04, et_damage = 8, et_spawnWeight = 50,
         et_headMultiplier = 2, et_ranged = False, et_throwCooldown = 0, et_throwRange = 0,
         et_isBoss = False\<rparr>),
      (''runner'', \<lparr>et_health = 15, et_speed = 0.075, et_damage = 6, et_spawnWeight = 25,
         et_headMultiplier = 2.5, et_ranged = False, et_throwCooldown = 0, et_throwRange = 0,
         et_isBoss = False\<rparr>),
      (''brute'', \<lparr>et_health = 90, et_speed = 0.025, et_damage = 16, et_spawnWeight = 15,
         et_headMultiplier = 1.5, et_ranged = False, et_throwCooldown = 0, et_throwRange = 0,
         et_isBoss = False\<rparr>),
      (''thrower'', \<lparr>et_health = 22, et_speed = 0.035, et_damage = 15, et_spawnWeight = 10,
         et_headMultiplier = 2, et_ranged = True, et_throwCooldown = 180, et_throwRange = 20,
         et_isBoss = False\<rparr>),
      (''boss'', \<lparr>et_health = 300, et_speed = 0.03, et_damage = 25, et_spawnWeight = 0,
         et_headMultiplier = 1.2, et_ranged = False, et_throwCooldown = 0, et_throwRange = 0,
         et_isBoss = True\<rparr>)]"

text \<open>
  The enemy that \<^verbatim>\<open>spawnEnemy\<close> stores for a type of the table, at a level, with the
  identity, the position and the \<^verbatim>\<open>Math.random()\<close> draw of its speed given.
\<close>

definition newEnemy :: "nat \<Rightarrow> string \<Rightarrow> identity \<Rightarrow> real \<times> real \<Rightarrow> real \<Rightarrow> enemy option" where
  "newEnemy lvl ty ident spawnPos speedRoll =
     (case map_of ENEMY_TYPES ty of
        None \<Rightarrow> None
      | Some typeData \<Rightarrow>
          (let scaledHealth = et_health typeData * (1 + (real lvl - 1) * 0.15)
           in Some \<lparr>e_type = ty, e_identity = ident,
                     e_position = \<lparr>vx = fst spawnPos, vy = 0, vz = snd spawnPos\<rparr>,
                     e_rotation = 0,
                     e_health = scaledHealth, e_maxHealth = scaledHealth,
                     e_speed = et_speed typeData * (0.9 + speedRoll * 0.2) * (1 + (real lvl - 1) * 0.05),
                     e_damage = et_damage typeData * (1 + (real lvl - 1) * 0.1),
                     e_headMultiplier = et_headMultiplier typeData,
                     e_attackCooldown = 0,
                     e_throwCooldown = et_throwCooldown typeData,
                     e_ranged = et_ranged typeData,
                     e_throwRange = et_throwRange typeData,
                     e_isBoss = et_isBoss typeData,
                     e_aggroed = False, e_targetPlayerId = None\<rparr>))"

record bullet =
  b_ownerId :: string
  b_weapon :: string
  b_damage :: real
  b_position :: vec3
  b_velocity :: vec3
  b_createdAt :: real

record pickup =
  pk_type :: "string option"
  pk_position :: vec3
  pk_rotation :: real

text \<open>
  An entry of \<^verbatim>\<open>chatMessages\<close>. The \<^verbatim>\<open>text\<close> of a kill message is a rendering of
  its victim, killer and headshot flag, which the entry holds.
\<close>

datatype message =
  ChatMessage string real string jstring nat jstring
  | SystemMessage string real jstring
  | KillMessage string real jstring identity string bool

record objective_item =
  collected :: bool
  collectedBy :: "string option"

record loot_state =
  looted :: bool
  loot :: "string option"

text \<open>The entries of \<^verbatim>\<open>mapData.objectives\<close> and \<^verbatim>\<open>mapData.lootContainers\<close> that the game reads.\<close>

record map_objective =
  mo_id :: string
  mo_name :: jstring

record map_container =
  mc_id :: string
  mc_position :: vec3

record game_state =
  level :: nat
  totalKills :: nat
  frameCount :: nat
  players :: "string \<rightharpoonup> player"
  enemies :: "string \<rightharpoonup> enemy"
  pickups :: "string \<rightharpoonup> pickup"
  bullets :: "string \<rightharpoonup> bullet"
  bossSpawned :: bool
  bossKilled :: bool
  chatMessages :: "message list"
  objective_items :: "(string \<times> objective_item) list"
  escapeActive :: bool
  lootContainers :: "string \<rightharpoonup> loot_state"
  map_objectives :: "map_objective list"
  map_lootContainers :: "map_container list"
  entityPaths :: "string set"
  mapManager :: map_manager

subsection \<open>The collision grid and the collision system\<close>

text \<open>An array read: \<^verbatim>\<open>undefined\<close> outside the array.\<close>

definition nth_opt :: "'a list \<Rightarrow> int \<Rightarrow> 'a option" where
  "nth_opt xs i = (if 0 \<le> i \<and> i < int (length xs) then Some (xs ! nat i) else None)"

text \<open>\<^verbatim>\<open>MapManager.isBlocked\<close>: out of bounds is blocked, else the cell of the grid decides.\<close>

definition isBlocked :: "map_manager \<Rightarrow> real \<Rightarrow> real \<Rightarrow> bool" where
  "isBlocked m worldX worldZ =
     (let b = area_bounds m
      in if worldX < minX b \<or> worldX > maxX b \<or> worldZ < minZ b \<or> worldZ > maxZ b then True
         else (let gridX = \<lfloor>(worldX - minX b) / gridResolution m\<rfloor>;
                   gridZ = \<lfloor>(worldZ - minZ b) / gridResolution m\<rfloor>
               in if gridX < 0 \<or> gridX \<ge> gridWidth m \<or> gridZ < 0 \<or> gridZ \<ge> gridHeight m then True
                  else nth_opt (collisionGrid m) (gridZ * gridWidth m + gridX) = Some 1))"

text \<open>\<^verbatim>\<open>MapManager.isInsideBuilding\<close>: inside the footprint of some building, borders included.\<close>

definition inFootprint :: "building \<Rightarrow> real \<Rightarrow> real \<Rightarrow> bool" where
  "inFootprint bd worldX worldZ =
     (let halfW = bd_width bd / 2; halfD = bd_depth bd / 2
      in worldX \<ge> vx (bd_position bd) - halfW \<and> worldX \<le> vx (bd_position bd) + halfW \<and>
         worldZ \<ge> vz (bd_position bd) - halfD \<and> worldZ \<le> vz (bd_position bd) + halfD)"

definition isInsideBuilding_at :: "building list \<Rightarrow> real \<Rightarrow> real \<Rightarrow> bool" where
  "isInsideBuilding_at bds worldX worldZ = list_ex (\<lambda>bd. inFootprint bd worldX worldZ) bds"

subsection \<open>The seeded random number generator\<close>

text \<open>
  \<^verbatim>\<open>SeededRandom.next\<close> (Mulberry32). The state \<^verbatim>\<open>current\<close> is a JavaScript number
  that grows by \<^verbatim>\<open>0x6D2B79F5\<close> with every draw; the bit operations and \<^verbatim>\<open>Math.imul\<close>
  read it modulo \<open>2^32\<close>. The result is the draw, in \<open>[0, 1)\<close>, and the new state.
\<close>

definition scramble :: "32 word \<Rightarrow> 32 word" where
  "scramble t0 =
     (let t1 = (t0 XOR drop_bit 15 t0) * (t0 OR 1);
          t2 = t1 XOR (t1 + (t1 XOR drop_bit 7 t1) * (t1 OR 61))
      in t2 XOR drop_bit 14 t2)"

definition rng_next :: "int \<Rightarrow> real \<times> int" where
  "rng_next current =
     (let current1 = current + 0x6D2B79F5
      in (real (unat (scramble (word_of_int current1))) / 4294967296, current1))"

text \<open>\<^verbatim>\<open>float(min, max)\<close>: \<^verbatim>\<open>min + this.next() * (max - min)\<close>.\<close>

definition rng_float :: "int \<Rightarrow> real \<Rightarrow> real \<Rightarrow> real \<times> int" where
  "rng_float current lo hi = (lo + fst (rng_next current) * (hi - lo), snd (rng_next current))"

subsection \<open>Spawn points and the collision grid of the map generator\<close>

text \<open>
  The loop \<^verbatim>\<open>do { ... attempts++ } while (this.isInsideBuilding(...) && attempts < 20)\<close>
  for one player spawn point: the position kept, the state of the generator after it
  and the number of samples drawn.
\<close>

function drawSpawn :: "building list \<Rightarrow> bounds \<Rightarrow> int \<Rightarrow> nat \<Rightarrow> (real \<times> real) \<times> int \<times> nat" where
  "drawSpawn bds zone current attempts =
     (let (x, current1) = rng_float current (minX zone) (maxX zone);
          (z, current2) = rng_float current1 (minZ zone) (maxZ zone);
          attempts1 = attempts + 1
      in if isInsideBuilding_at bds x z \<and> attempts1 < 20
         then drawSpawn bds zone current2 attempts1
         else ((x, z), current2, attempts1))"
  by pat_completeness auto
termination
  by (relation "measure (\<lambda>(bds, zone, current, attempts). 20 - attempts)") auto

declare drawSpawn.simps [simp del]

text \<open>The loop over the \<^verbatim>\<open>playerSpawnCount\<close> slots: each slot with its number of samples.\<close>

fun playerSpawnSlots :: "building list \<Rightarrow> bounds \<Rightarrow> int \<Rightarrow> nat \<Rightarrow> ((real \<times> real) \<times> nat) list \<times> int" where
  "playerSpawnSlots bds zone current 0 = ([], current)"
| "playerSpawnSlots bds zone current (Suc n) =
     (case drawSpawn bds zone current 0 of
        (pos, current1, attempts) \<Rightarrow>
          (case playerSpawnSlots bds zone current1 n of
             (slots, current2) \<Rightarrow> ((pos, attempts) # slots, current2)))"

























definition playerRadius :: real where
  "playerRadius = 0.4"

definition enemyRadius :: real where
  "enemyRadius = 0.5"

definition slideSmoothing :: real where
  "slideSmoothing = 0.8"

definition isWalkable :: "map_manager \<Rightarrow> real \<Rightarrow> real \<Rightarrow> bool" where
  "isWalkable m x z = (\<not> isBlocked m x z)"

definition circleAngles :: "real list" where
  "circleAngles = [0, pi / 4, pi / 2, 3 * pi / 4, pi, 5 * pi / 4, 3 * pi / 2, 7 * pi / 4]"

definition isCircleWalkable :: "map_manager \<Rightarrow> real \<Rightarrow> real \<Rightarrow> real \<Rightarrow> bool" where
  "isCircleWalkable m x z radius =
     (if \<not> isWalkable m x z then False
      else list_all (\<lambda>angle. isWalkable m (x + cos angle * radius) (z + sin angle * radius))
             circleAngles)"

text \<open>
  The loop \<^verbatim>\<open>for (let i = 1; i <= 4; i++)\<close> of a slide: the first of the four shortened
  steps that passes the test, if any. The step of round \<open>i\<close> is
  \<^verbatim>\<open>slideAmount * (1 - i * 0.2)\<close>.
\<close>

definition slideSteps :: "real \<Rightarrow> real list" where
  "slideSteps slideAmount = map (\<lambda>i. slideAmount * (1 - real i * 0.2)) [1, 2, 3, 4]"

definition slideX :: "map_manager \<Rightarrow> real \<Rightarrow> real \<Rightarrow> real \<Rightarrow> real \<Rightarrow> real" where
  "slideX m currentX currentZ dx radius =
     (let testX = currentX + dx
      in if isCircleWalkable m testX currentZ radius then testX
         else (case find (\<lambda>tryX. isCircleWalkable m tryX currentZ radius)
                      (map (\<lambda>step. currentX + step) (slideSteps (dx * slideSmoothing))) of
                 Some tryX \<Rightarrow> tryX
               | None \<Rightarrow> currentX))"

definition slideZ :: "map_manager \<Rightarrow> real \<Rightarrow> real \<Rightarrow> real \<Rightarrow> real \<Rightarrow> real" where
  "slideZ m newX currentZ dz radius =
     (let testZ = currentZ + dz
      in if isCircleWalkable m newX testZ radius then testZ
         else (case find (\<lambda>tryZ. isCircleWalkable m newX tryZ radius)
                      (map (\<lambda>step. currentZ + step) (slideSteps (dz * slideSmoothing))) of
                 Some tryZ \<Rightarrow> tryZ
               | None \<Rightarrow> currentZ))"

definition directions :: "(real \<times> real) list" where
  "directions = [(1, 0), (-1, 0), (0, 1), (0, -1), (0.7, 0.7), (-0.7, 0.7), (0.7, -0.7), (-0.7, -0.7)]"

text \<open>The positions that the loop over \<^verbatim>\<open>directions\<close> tries, in its order.\<close>

definition dirProbes :: "real \<Rightarrow> real \<Rightarrow> real \<Rightarrow> (real \<times> real) list" where
  "dirProbes currentX currentZ moveLen =
     map (\<lambda>(dirX, dirZ). (currentX + dirX * moveLen, currentZ + dirZ * moveLen)) directions"

definition moveWithCollision ::
  "map_manager \<Rightarrow> real \<Rightarrow> real \<Rightarrow> real \<Rightarrow> real \<Rightarrow> real \<Rightarrow> real \<times> real" where
  "moveWithCollision m currentX currentZ desiredX desiredZ radius =
     (let dx = desiredX - currentX; dz = desiredZ - currentZ
      in if \<bar>dx\<bar> < 0.001 \<and> \<bar>dz\<bar> < 0.001 then (currentX, currentZ)
         else if isCircleWalkable m desiredX desiredZ radius then (desiredX, desiredZ)
         else (let newX = (if \<bar>dx\<bar> > 0.001 then slideX m currentX currentZ dx radius else currentX);
                   newZ = (if \<bar>dz\<bar> > 0.001 then slideZ m newX currentZ dz radius else currentZ)
               in if \<not> isCircleWalkable m newX newZ radius
                  then (let moveLen = sqrt (dx * dx + dz * dz) * 0.5
                        in case find (\<lambda>(tryX, tryZ). isCircleWalkable m tryX tryZ radius)
                                  (dirProbes currentX currentZ moveLen) of
                             Some t \<Rightarrow> t
                           | None \<Rightarrow> (currentX, currentZ))
                  else (newX, newZ)))"

text \<open>
  The probe set of a move, as the specification lists it: the full move, on each axis
  the move of that axis alone from the current position and its four shortened steps,
  and the eight directional probes at half the length of the move.
\<close>

definition probeSet :: "real \<Rightarrow> real \<Rightarrow> real \<Rightarrow> real \<Rightarrow> (real \<times> real) list" where
  "probeSet currentX currentZ desiredX desiredZ =
     (let dx = desiredX - currentX; dz = desiredZ - currentZ;
          moveLen = sqrt (dx * dx + dz * dz) * 0.5
      in [(desiredX, desiredZ)] @
         map (\<lambda>step. (currentX + step, currentZ)) (dx # slideSteps (dx * slideSmoothing)) @
         map (\<lambda>step. (currentX, currentZ + step)) (dz # slideSteps (dz * slideSmoothing)) @
         dirProbes currentX currentZ moveLen)"

definition movePlayer :: "map_manager \<Rightarrow> vec3 \<Rightarrow> vec3 \<Rightarrow> vec3" where
  "movePlayer m currentPos desiredPos =
     (let r = moveWithCollision m (vx currentPos) (vz currentPos) (vx desiredPos) (vz desiredPos)
                playerRadius
      in \<lparr>vx = fst r, vy = vy currentPos, vz = snd r\<rparr>)"

definition clampToMap :: "map_manager \<Rightarrow> real \<Rightarrow> real \<Rightarrow> real \<times> real" where
  "clampToMap m x z =
     (let b = area_bounds m
      in (max (minX b + 1) (min (maxX b - 1) x), max (minZ b + 1) (min (maxZ b - 1) z)))"

definition isInInterior :: "map_manager \<Rightarrow> real \<Rightarrow> real \<Rightarrow> interior option" where
  "isInInterior m x z =
     find (\<lambda>i. x \<ge> minX (in_bounds i) \<and> x \<le> maxX (in_bounds i) \<and>
                z \<ge> minZ (in_bounds i) \<and> z \<le> maxZ (in_bounds i)) (interiors m)"

text \<open>\<^verbatim>\<open>getNearbyBarrelFire\<close>, of whose result the game reads the \<^verbatim>\<open>warmthFactor\<close>.\<close>

definition fireDistance :: "barrel_fire \<Rightarrow> real \<Rightarrow> real \<Rightarrow> real" where
  "fireDistance fire x z =
     (let dx = vx (bf_position fire) - x; dz = vz (bf_position fire) - z
      in sqrt (dx * dx + dz * dz))"

definition getNearbyBarrelFire :: "map_manager \<Rightarrow> real \<Rightarrow> real \<Rightarrow> real option" where
  "getNearbyBarrelFire m x z =
     (case find (\<lambda>fire. fireDistance fire x z \<le> bf_warmthRadius fire) (barrelFires m) of
        None \<Rightarrow> None
      | Some fire \<Rightarrow> Some (1 - fireDistance fire x z / bf_warmthRadius fire))"

subsection \<open>The A* search of the pathfinding worker\<close>

text \<open>
  The class \<^verbatim>\<open>AStar\<close> of \<^verbatim>\<open>PathfindingWorker.js\<close>. A cell is a pair of grid
  coordinates; the keys \<^verbatim>\<open>`${x},${z}`\<close> of the hash maps are the cells themselves.
\<close>

record astar =
  as_grid :: "nat list"
  as_width :: int
  as_height :: int
  as_resolution :: real
  as_bounds :: bounds

type_synonym cell = "int \<times> int"

definition worldToGrid :: "astar \<Rightarrow> real \<times> real \<Rightarrow> cell" where
  "worldToGrid a w =
     (\<lfloor>(fst w - minX (as_bounds a)) / as_resolution a\<rfloor>,
      \<lfloor>(snd w - minZ (as_bounds a)) / as_resolution a\<rfloor>)"

definition gridToWorld :: "astar \<Rightarrow> cell \<Rightarrow> real \<times> real" where
  "gridToWorld a c =
     (minX (as_bounds a) + (real_of_int (fst c) + 0.5) * as_resolution a,
      minZ (as_bounds a) + (real_of_int (snd c) + 0.5) * as_resolution a)"

text \<open>\<^verbatim>\<open>AStar.isWalkable\<close>, on grid coordinates.\<close>

definition cellWalkable :: "astar \<Rightarrow> int \<Rightarrow> int \<Rightarrow> bool" where
  "cellWalkable a gridX gridZ =
     (if gridX < 0 \<or> gridX \<ge> as_width a \<or> gridZ < 0 \<or> gridZ \<ge> as_height a then False
      else nth_opt (as_grid a) (gridZ * as_width a + gridX) = Some 0)"

definition heuristic :: "int \<Rightarrow> int \<Rightarrow> int \<Rightarrow> int \<Rightarrow> real" where
  "heuristic ax az bx bz =
     (let dx = real_of_int (bx - ax); dz = real_of_int (bz - az) in sqrt (dx * dx + dz * dz))"

text \<open>The table \<^verbatim>\<open>directions\<close> of \<^verbatim>\<open>getNeighbors\<close>: the step and its cost.\<close>

definition neighborDirections :: "(int \<times> int \<times> real) list" where
  "neighborDirections =
     [(0, -1, 1), (1, 0, 1), (0, 1, 1), (-1, 0, 1),
      (1, -1, 1.414), (1, 1, 1.414), (-1, 1, 1.414), (-1, -1, 1.414)]"

definition getNeighbors :: "astar \<Rightarrow> int \<Rightarrow> int \<Rightarrow> (int \<times> int \<times> real) list" where
  "getNeighbors a x z =
     map (\<lambda>(dx, dz, cost). (x + dx, z + dz, cost))
       (filter (\<lambda>(dx, dz, cost).
            cellWalkable a (x + dx) (z + dz) \<and>
            \<not> (dx \<noteq> 0 \<and> dz \<noteq> 0 \<and>
                (\<not> cellWalkable a (x + dx) z \<or> \<not> cellWalkable a x (z + dz))))
          neighborDirections)"

text \<open>
  The state of a search: the open set with the \<^verbatim>\<open>f\<close> of each entry, the closed set
  and the three maps.
\<close>

record search =
  openSet :: "(cell \<times> real) list"
  closedSet :: "cell set"
  gScore :: "cell \<rightharpoonup> real"
  fScore :: "cell \<rightharpoonup> real"
  cameFrom :: "cell \<rightharpoonup> cell"

text \<open>\<^verbatim>\<open>tentativeG < (this.gScore.get(neighborKey) || Infinity)\<close>.\<close>

definition improves :: "real \<Rightarrow> real option \<Rightarrow> bool" where
  "improves tentativeG known =
     (case known of None \<Rightarrow> True | Some g \<Rightarrow> if g = 0 then True else tentativeG < g)"

text \<open>
  The body of the loop over the neighbours of the current cell. Every cell of the open
  set has a \<^verbatim>\<open>gScore\<close>, written before the cell is pushed.
\<close>

definition relax :: "cell \<Rightarrow> cell \<Rightarrow> search \<Rightarrow> int \<times> int \<times> real \<Rightarrow> search" where
  "relax goal current st neighbor =
     (case neighbor of (nx, nz, cost) \<Rightarrow>
        if (nx, nz) \<in> closedSet st then st
        else (let tentativeG = the (gScore st current) + cost;
                  inOpenSet = list_ex (\<lambda>(c, f). c = (nx, nz)) (openSet st)
              in if \<not> inOpenSet \<or> improves tentativeG (gScore st (nx, nz))
                 then (let f = tentativeG + heuristic nx nz (fst goal) (snd goal);
                           st1 = st\<lparr>cameFrom := (cameFrom st)((nx, nz) \<mapsto> current),
                                   gScore := (gScore st)((nx, nz) \<mapsto> tentativeG),
                                   fScore := (fScore st)((nx, nz) \<mapsto> f)\<rparr>
                       in if \<not> inOpenSet then st1\<lparr>openSet := openSet st1 @ [((nx, nz), f)]\<rparr>
                          else st1)
                 else st))"

text \<open>
  The loop \<^verbatim>\<open>while (this.openSet.length > 0 && iterations < maxIterations)\<close>. The
  first argument counts the iterations that are left, \<^verbatim>\<open>maxIterations - iterations\<close>;
  the result is the cell at which the goal was reached with the state of the search
  then, or \<open>None\<close> when the loop ends, and the value of \<^verbatim>\<open>iterations\<close> at the end.
  The sort of the open set by \<^verbatim>\<open>f\<close> is stable.
\<close>

fun searchLoop :: "astar \<Rightarrow> cell \<Rightarrow> nat \<Rightarrow> nat \<Rightarrow> search \<Rightarrow> (cell \<times> search) option \<times> nat" where
  "searchLoop a goal 0 iterations st = (None, iterations)"
| "searchLoop a goal (Suc left) iterations st =
     (case sort_key snd (openSet st) of
        [] \<Rightarrow> (None, iterations)
      | (current, f) # rest \<Rightarrow>
          if current = goal then (Some (current, st\<lparr>openSet := rest\<rparr>), Suc iterations)
          else searchLoop a goal left (Suc iterations)
                 (foldl (relax goal current)
                    (st\<lparr>openSet := rest, closedSet := insert current (closedSet st)\<rparr>)
                    (getNeighbors a (fst current) (snd current))))"

text \<open>
  \<^verbatim>\<open>simplifyPath\<close>: a waypoint between the first and the last stays when the
  directions into it and out of it differ enough.
\<close>

definition keepsWaypoint :: "real \<times> real \<Rightarrow> real \<times> real \<Rightarrow> real \<times> real \<Rightarrow> bool" where
  "keepsWaypoint before here after =
     (let d1x = fst here - fst before; d1z = snd here - snd before;
          d2x = fst after - fst here; d2z = snd after - snd here;
          len1 = sqrt (d1x * d1x + d1z * d1z);
          len2 = sqrt (d2x * d2x + d2z * d2z)
      in len1 > 0 \<and> len2 > 0 \<and>
         (d1x / len1) * (d2x / len2) + (d1z / len1) * (d2z / len2) < 0.95)"

definition simplifyPath :: "(real \<times> real) list \<Rightarrow> (real \<times> real) list" where
  "simplifyPath path =
     (if length path \<le> 2 then path
      else foldl (\<lambda>simplified i.
                    if keepsWaypoint (last simplified) (path ! i) (path ! (i + 1))
                    then simplified @ [path ! i] else simplified)
             [path ! 0] [1 ..< length path - 1]
           @ [last path])"

text \<open>
  The loop of \<^verbatim>\<open>reconstructPath\<close> follows \<^verbatim>\<open>cameFrom\<close> until the start or a cell
  with no predecessor; \<open>None\<close> is a loop that does not end.
\<close>

partial_function (option) walkBack ::
  "astar \<Rightarrow> (cell \<rightharpoonup> cell) \<Rightarrow> cell \<Rightarrow> cell \<Rightarrow> (real \<times> real) list \<Rightarrow> (real \<times> real) list option" where
  "walkBack a came start current path =
     (if current \<noteq> start
      then (case came current of
              None \<Rightarrow> Some (gridToWorld a current # path)
            | Some c \<Rightarrow> walkBack a came start c (gridToWorld a current # path))
      else Some path)"

definition reconstructPath :: "astar \<Rightarrow> search \<Rightarrow> cell \<Rightarrow> cell \<Rightarrow> (real \<times> real) list option" where
  "reconstructPath a st goal start = map_option simplifyPath (walkBack a (cameFrom st) start goal [])"

text \<open>\<^verbatim>\<open>findNearbyWalkable\<close>: the rings around a cell, from radius 1 to 10, in the order of the loops.\<close>

definition ringOffsets :: "int \<Rightarrow> (int \<times> int) list" where
  "ringOffsets r =
     concat (map (\<lambda>dx. map (\<lambda>dz. (dx, dz)) (filter (\<lambda>dz. \<bar>dx\<bar> = r \<or> \<bar>dz\<bar> = r) [- r .. r])) [- r .. r])"

definition findNearbyWalkable :: "astar \<Rightarrow> cell \<Rightarrow> cell option" where
  "findNearbyWalkable a c =
     find (\<lambda>n. cellWalkable a (fst n) (snd n))
       (map (\<lambda>(dx, dz). (fst c + dx, snd c + dz)) (concat (map ringOffsets [1 .. 10])))"

definition snapToWalkable :: "astar \<Rightarrow> cell \<Rightarrow> cell option" where
  "snapToWalkable a c = (if cellWalkable a (fst c) (snd c) then Some c else findNearbyWalkable a c)"

text \<open>
  The result of \<^verbatim>\<open>findPath\<close>: \<^verbatim>\<open>null\<close> or a list of waypoints. \<open>None\<close> around it is a
  call that does not return.
\<close>

datatype path_result = NoPath | Path "(real \<times> real) list"

definition initialSearch :: "cell \<Rightarrow> cell \<Rightarrow> search" where
  "initialSearch start goal =
     (let h = heuristic (fst start) (snd start) (fst goal) (snd goal)
      in \<lparr>openSet = [(start, h)], closedSet = {}, gScore = [start \<mapsto> 0],
          fScore = [start \<mapsto> h], cameFrom = Map.empty\<rparr>)"

definition findPath :: "astar \<Rightarrow> real \<times> real \<Rightarrow> real \<times> real \<Rightarrow> nat \<Rightarrow> path_result option" where
  "findPath a startWorld goalWorld maxIterations =
     (case snapToWalkable a (worldToGrid a startWorld) of
        None \<Rightarrow> Some NoPath
      | Some start \<Rightarrow>
          (case snapToWalkable a (worldToGrid a goalWorld) of
             None \<Rightarrow> Some NoPath
           | Some goal \<Rightarrow>
               (case fst (searchLoop a goal maxIterations 0 (initialSearch start goal)) of
                  None \<Rightarrow> Some NoPath
                | Some (current, st) \<Rightarrow> map_option Path (reconstructPath a st current start))))"

text \<open>The default of the parameter, \<^verbatim>\<open>maxIterations = 2000\<close>, which every caller takes.\<close>

definition findPathDefault :: "astar \<Rightarrow> real \<times> real \<Rightarrow> real \<times> real \<Rightarrow> path_result option" where
  "findPathDefault a startWorld goalWorld = findPath a startWorld goalWorld 2000"

text \<open>
  Named for the statements about the search. \<open>openCells\<close> are the cells of the open set
  and \<open>gridCells\<close> the cells of the grid. \<open>expand\<close> is the body of an iteration that does
  not end the search: the current cell, taken from the open set, is closed and its
  neighbours are looked at in the order of \<^verbatim>\<open>getNeighbors\<close>. \<open>neighborCells\<close> are the
  cells that \<^verbatim>\<open>getNeighbors\<close> returns for a cell, and \<open>reachable\<close> relates a cell to
  every cell that a sequence of such steps leads to.
\<close>

definition openCells :: "search \<Rightarrow> cell set" where
  "openCells st = fst ` set (openSet st)"

definition gridCells :: "astar \<Rightarrow> cell set" where
  "gridCells a = {0 ..< as_width a} \<times> {0 ..< as_height a}"

definition expand :: "astar \<Rightarrow> cell \<Rightarrow> cell \<Rightarrow> (cell \<times> real) list \<Rightarrow> search \<Rightarrow> search" where
  "expand a goal current rest st =
     foldl (relax goal current)
       (st\<lparr>openSet := rest, closedSet := insert current (closedSet st)\<rparr>)
       (getNeighbors a (fst current) (snd current))"

definition neighborCells :: "astar \<Rightarrow> cell \<Rightarrow> cell set" where
  "neighborCells a p = (\<lambda>(nx, nz, cost). (nx, nz)) ` set (getNeighbors a (fst p) (snd p))"

definition reachable :: "astar \<Rightarrow> (cell \<times> cell) set" where
  "reachable a = {(p, q). q \<in> neighborCells a p}\<^sup>*"

text \<open>
  A route in the state of a search: a list of cells in which every cell after the first
  has the cell before it as its \<^verbatim>\<open>cameFrom\<close>, is one of the neighbours that
  \<^verbatim>\<open>getNeighbors\<close> returns for that cell, and has as its \<^verbatim>\<open>gScore\<close> the \<^verbatim>\<open>gScore\<close> of
  that cell plus the cost of the step.
\<close>

fun route :: "astar \<Rightarrow> search \<Rightarrow> cell list \<Rightarrow> bool" where
  "route a st [] = False"
| "route a st [p] = True"
| "route a st (p # q # ps) =
     (cameFrom st q = Some p \<and>
      list_ex (\<lambda>(nx, nz, cost). (nx, nz) = q \<and> gScore st q = Some (the (gScore st p) + cost))
        (getNeighbors a (fst p) (snd p)) \<and>
      route a st (q # ps))"

text \<open>
  What every state of a search from \<open>start\<close> to \<open>goal\<close> satisfies. \<open>scoreInv\<close>: the start
  has \<^verbatim>\<open>gScore\<close> 0 and no \<^verbatim>\<open>cameFrom\<close>; the \<^verbatim>\<open>cameFrom\<close> of a cell is a closed cell
  that has the cell among its neighbours, and the \<^verbatim>\<open>gScore\<close> of the cell is that of its
  \<^verbatim>\<open>cameFrom\<close> plus the cost of the step; every cell with a \<^verbatim>\<open>gScore\<close> but the start
  has a \<^verbatim>\<open>cameFrom\<close>; the \<^verbatim>\<open>fScore\<close> of a cell is its \<^verbatim>\<open>gScore\<close> plus the heuristic;
  open and closed cells have a \<^verbatim>\<open>gScore\<close>. \<open>coverInv\<close>: no cell is open and closed, no
  cell is twice in the open set, the neighbours of a closed cell are closed or open, the
  goal is not closed, the start is closed or open, and all of them are cells of the grid.
\<close>

definition scoreInv :: "astar \<Rightarrow> cell \<Rightarrow> cell \<Rightarrow> search \<Rightarrow> bool" where
  "scoreInv a start goal st =
     (gScore st start = Some 0 \<and> cameFrom st start = None \<and>
      (start \<in> closedSet st \<or> openCells st \<subseteq> {start}) \<and>
      (\<forall>q p. cameFrom st q = Some p \<longrightarrow>
         p \<in> closedSet st \<and>
         (\<exists>g cost. gScore st p = Some g \<and>
            (fst q, snd q, cost) \<in> set (getNeighbors a (fst p) (snd p)) \<and>
            gScore st q = Some (g + cost))) \<and>
      (\<forall>q g. gScore st q = Some g \<longrightarrow>
         0 \<le> g \<and> (q = start \<or> cameFrom st q \<noteq> None) \<and>
         fScore st q = Some (g + heuristic (fst q) (snd q) (fst goal) (snd goal))) \<and>
      (\<forall>q \<in> openCells st \<union> closedSet st. gScore st q \<noteq> None))"

definition coverInv :: "astar \<Rightarrow> cell \<Rightarrow> cell \<Rightarrow> search \<Rightarrow> bool" where
  "coverInv a start goal st =
     (closedSet st \<inter> openCells st = {} \<and> distinct (map fst (openSet st)) \<and>
      (\<forall>p \<in> closedSet st. neighborCells a p \<subseteq> closedSet st \<union> openCells st) \<and>
      goal \<notin> closedSet st \<and> start \<in> closedSet st \<union> openCells st \<and>
      closedSet st \<union> openCells st \<subseteq> gridCells a)"

subsection \<open>Damage to a player, revive and the downed countdown\<close>

record damage_result =
  dr_damage :: real
  dr_health :: real
  dr_isDowned :: bool
  dr_sourcePosition :: vec3
  dr_sourceType :: string

text \<open>The body of \<^verbatim>\<open>handlePlayerDamage\<close> after its guard: the damage dealt and the player.\<close>

definition applyDamage :: "real \<Rightarrow> player \<Rightarrow> real \<times> player" where
  "applyDamage damage p =
     (let damage1 = (if ''defense_boost'' \<in> set (perks p) then damage * 0.85 else damage);
          p1 = p\<lparr>health := health p - damage1\<rparr>;
          p2 = (if health p1 \<le> 0
                then p1\<lparr>health := 0, isDowned := True, downedTimer := 900\<rparr>
                else p1)
      in (damage1, p2))"

text \<open>The guard of \<^verbatim>\<open>handlePlayerDamage\<close> and its body, on the player found.\<close>

definition damagePlayer :: "real \<Rightarrow> player \<Rightarrow> (real \<times> player) option" where
  "damagePlayer damage p =
     (if \<not> alive p \<or> isDowned p then None else Some (applyDamage damage p))"

definition handlePlayerDamage ::
  "game_state \<Rightarrow> string \<Rightarrow> real \<Rightarrow> vec3 \<Rightarrow> string \<Rightarrow> damage_result option \<times> game_state" where
  "handlePlayerDamage s playerId damage sourcePosition sourceType =
     (case players s playerId of
        None \<Rightarrow> (None, s)
      | Some p \<Rightarrow>
          (case damagePlayer damage p of
             None \<Rightarrow> (None, s)
           | Some (damage1, p2) \<Rightarrow>
               (Some \<lparr>dr_damage = damage1, dr_health = health p2,
                       dr_isDowned = isDowned p2, dr_sourcePosition = sourcePosition,
                       dr_sourceType = sourceType\<rparr>,
                s\<lparr>players := (players s)(playerId \<mapsto> p2)\<rparr>)))"

text \<open>
  \<^verbatim>\<open>revivePlayer\<close>: the reviver and the target are looked up first; when both ids are
  the same player the two writes land on the same entry, the reviver's last.
\<close>

definition revivePlayer :: "game_state \<Rightarrow> string \<Rightarrow> string \<Rightarrow> bool \<times> game_state" where
  "revivePlayer s reviverId targetId =
     (case (players s reviverId, players s targetId) of
        (Some reviver, Some target) \<Rightarrow>
          if \<not> alive reviver \<or> \<not> isDowned target then (False, s)
          else (let ps1 = (players s)(targetId \<mapsto>
                             target\<lparr>isDowned := False, health := 30, downedTimer := 0\<rparr>);
                    r1 = the (ps1 reviverId);
                    ps2 = ps1(reviverId \<mapsto> r1\<lparr>revives := revives r1 + 1, score := score r1 + 100\<rparr>)
                in (True, s\<lparr>players := ps2\<rparr>))
      | _ \<Rightarrow> (False, s))"

definition tickDowned :: "player \<Rightarrow> player" where
  "tickDowned p =
     (if \<not> isDowned p then p
      else (let p1 = p\<lparr>downedTimer := downedTimer p - 1\<rparr>
            in if downedTimer p1 \<le> 0 then p1\<lparr>alive := False, isDowned := False\<rparr> else p1))"

definition updateDownedPlayers :: "game_state \<Rightarrow> game_state" where
  "updateDownedPlayers s = s\<lparr>players := (\<lambda>k. map_option tickDowned (players s k))\<rparr>"

subsection \<open>Player input and the survival statistics\<close>

text \<open>The message of a \<^verbatim>\<open>playerInput\<close> event; a field that is absent is \<open>None\<close>.\<close>

record input_stats =
  st_energy :: "real option"

record player_input =
  inp_position :: "vec3 option"
  inp_rotation :: "(real \<times> real) option"
  inp_stats :: "input_stats option"

definition handlePlayerInput :: "game_state \<Rightarrow> string \<Rightarrow> player_input \<Rightarrow> game_state" where
  "handlePlayerInput s playerId inp =
     (case players s playerId of
        None \<Rightarrow> s
      | Some p \<Rightarrow>
          if \<not> alive p then s
          else (let p1 = (case inp_position inp of
                            None \<Rightarrow> p
                          | Some ipos \<Rightarrow>
                              (let newPos = movePlayer (mapManager s) (position p) ipos;
                                   clamped = clampToMap (mapManager s) (vx newPos) (vz newPos);
                                   pos1 = \<lparr>vx = fst clamped,
                                           vy = (if vy ipos = 0 then vy (position p) else vy ipos),
                                           vz = snd clamped\<rparr>;
                                   inside = isInInterior (mapManager s) (vx pos1) (vz pos1)
                               in p\<lparr>position := pos1, isInsideBuilding := (inside \<noteq> None),
                                     currentInterior := map_option in_id inside\<rparr>));
                    p2 = (case inp_rotation inp of None \<Rightarrow> p1 | Some r \<Rightarrow> p1\<lparr>rotation := r\<rparr>);
                    p3 = (case inp_stats inp of
                            None \<Rightarrow> p2
                          | Some st \<Rightarrow>
                              (case st_energy st of None \<Rightarrow> p2 | Some e \<Rightarrow> p2\<lparr>energy := e\<rparr>))
                in s\<lparr>players := (players s)(playerId \<mapsto> p3)\<rparr>))"

text \<open>
  A call \<^verbatim>\<open>this.handlePlayerDamage(player.id, d, ...)\<close> made for the player at hand,
  whose result the caller drops.
\<close>

definition damaged :: "real \<Rightarrow> player \<Rightarrow> player" where
  "damaged d p = (case damagePlayer d p of None \<Rightarrow> p | Some (d1, p1) \<Rightarrow> p1)"

text \<open>
  The body of the loop of \<^verbatim>\<open>updatePlayerStats\<close>, for one player, in the three parts
  that the source marks: hunger decay, warmth decay, energy recovery. Inside a building
  the rate of the warmth decay is \<^verbatim>\<open>warmthRate *= 1.5\<close>, that is 150 or 210 frames.
\<close>

definition hungerTick :: "nat \<Rightarrow> player \<Rightarrow> player" where
  "hungerTick frame p =
     (let hungerRate = (if ''hunger_boost'' \<in> set (perks p) then 150 else 120 :: nat)
      in if frame mod hungerRate = 0
         then (let q = p\<lparr>hunger := max 0 (hunger p - 1)\<rparr>
               in if hunger q \<le> 0 \<and> \<not> isDowned q then damaged 2 q else q)
         else p)"

definition warmthTick :: "map_manager \<Rightarrow> nat \<Rightarrow> player \<Rightarrow> player" where
  "warmthTick m frame p =
     (let warmthRate = (if ''warmth_boost'' \<in> set (perks p) then 140 else 100 :: nat)
      in case getNearbyBarrelFire m (vx (position p)) (vz (position p)) of
           Some warmthFactor \<Rightarrow>
             if frame mod 60 = 0
             then p\<lparr>warmth := min 100 (warmth p + 2 * warmthFactor)\<rparr>
             else p
         | None \<Rightarrow>
             if isInsideBuilding p
             then (if frame mod (warmthRate * 3 div 2) = 0
                   then p\<lparr>warmth := max 0 (warmth p - 1)\<rparr>
                   else p)
             else (if frame mod warmthRate = 0
                   then (let q = p\<lparr>warmth := max 0 (warmth p - 1)\<rparr>
                         in if warmth q \<le> 20 \<and> \<not> isDowned q then damaged 1 q else q)
                   else p))"

definition energyTick :: "nat \<Rightarrow> player \<Rightarrow> player" where
  "energyTick frame p =
     (if frame mod 60 = 0 then p\<lparr>energy := min 100 (energy p + 0.5)\<rparr> else p)"

definition statsTick :: "map_manager \<Rightarrow> nat \<Rightarrow> player \<Rightarrow> player" where
  "statsTick m frame p =
     (if \<not> alive p then p else energyTick frame (warmthTick m frame (hungerTick frame p)))"

definition updatePlayerStats :: "game_state \<Rightarrow> game_state" where
  "updatePlayerStats s =
     s\<lparr>players := (\<lambda>k. map_option (statsTick (mapManager s) (frameCount s)) (players s k))\<rparr>"

subsection \<open>The message log\<close>

text \<open>
  \<^verbatim>\<open>String.prototype.trim\<close> removes from both ends the code units that are white space
  or line terminators of ECMAScript: tab, line feed, vertical tab, form feed, carriage
  return, space, no-break space, the Unicode space separators, the line and paragraph
  separators, and the byte order mark.
\<close>

definition is_space :: "16 word \<Rightarrow> bool" where
  "is_space c =
     (c \<in> set [0x0009, 0x000A, 0x000B, 0x000C, 0x000D, 0x0020, 0x00A0, 0x1680,
                0x2000, 0x2001, 0x2002, 0x2003, 0x2004, 0x2005, 0x2006, 0x2007, 0x2008, 0x2009,
                0x200A, 0x2028, 0x2029, 0x202F, 0x205F, 0x3000, 0xFEFF])"

definition trim :: "jstring \<Rightarrow> jstring" where
  "trim t = rev (dropWhile is_space (rev (dropWhile is_space t)))"

text \<open>\<^verbatim>\<open>xs.slice(-n)\<close>: the last \<open>n\<close> elements, all of them when there are fewer.\<close>

definition slice_last :: "nat \<Rightarrow> 'a list \<Rightarrow> 'a list" where
  "slice_last n xs = drop (length xs - n) xs"

text \<open>
  The four lines that every writer of the log repeats:
  \<^verbatim>\<open>this.chatMessages.push(m); if (this.chatMessages.length > 50) this.chatMessages = this.chatMessages.slice(-50);\<close>
\<close>

definition pushMessage :: "message \<Rightarrow> message list \<Rightarrow> message list" where
  "pushMessage m msgs =
     (let msgs1 = msgs @ [m] in if length msgs1 > 50 then slice_last 50 msgs1 else msgs1)"

definition addChatMessage ::
  "game_state \<Rightarrow> string \<Rightarrow> jstring \<Rightarrow> string \<Rightarrow> real \<Rightarrow> message option \<times> game_state" where
  "addChatMessage s playerId txt uuid now =
     (case players s playerId of
        None \<Rightarrow> (None, s)
      | Some p \<Rightarrow>
          if txt = [] \<or> length (trim txt) = 0 then (None, s)
          else (let m = ChatMessage uuid now playerId (name p) (color p) (take 200 (trim txt))
                in (Some m, s\<lparr>chatMessages := pushMessage m (chatMessages s)\<rparr>)))"

definition addSystemMessage ::
  "game_state \<Rightarrow> jstring \<Rightarrow> string \<Rightarrow> real \<Rightarrow> message \<times> game_state" where
  "addSystemMessage s txt uuid now =
     (let m = SystemMessage uuid now txt
      in (m, s\<lparr>chatMessages := pushMessage m (chatMessages s)\<rparr>))"

subsection \<open>Bullets and the death of an enemy\<close>

definition PICKUP_weapons :: "string list" where
  "PICKUP_weapons = [''pistol'', ''shotgun'', ''smg'', ''rifle'', ''bat'', ''pipe'']"

definition PICKUP_consumables :: "string list" where
  "PICKUP_consumables = [''food'', ''medicine'', ''ammo'', ''blanket'', ''water'']"

text \<open>\<^verbatim>\<open>xs[Math.floor(r * xs.length)]\<close>, \<^verbatim>\<open>undefined\<close> outside the array.\<close>

definition pick_at :: "real \<Rightarrow> 'a list \<Rightarrow> 'a option" where
  "pick_at r xs =
     (let i = \<lfloor>r * real (length xs)\<rfloor>
      in if 0 \<le> i \<and> i < int (length xs) then Some (xs ! nat i) else None)"

text \<open>
  What \<^verbatim>\<open>handleEnemyDeath\<close> reads from outside: the id and time of the kill message,
  and for the dropped pickup the three \<^verbatim>\<open>Math.random()\<close> draws and its id.
\<close>

record death_env =
  de_messageId :: string
  de_now :: real
  de_dropRoll :: real
  de_pickupId :: string
  de_kindRoll :: real
  de_indexRoll :: real

definition handleEnemyDeath ::
  "game_state \<Rightarrow> string \<Rightarrow> string \<Rightarrow> string \<Rightarrow> bool \<Rightarrow> death_env \<Rightarrow> game_state" where
  "handleEnemyDeath s enemyId killerId weapon isHeadshot env =
     (case enemies s enemyId of
        None \<Rightarrow> s
      | Some en \<Rightarrow>
          (let killer = players s killerId;
               baseScore = (if e_isBoss en then 500 else 50);
               headshotBonus = (if isHeadshot then 25 else 0);
               ps = (case killer of
                       None \<Rightarrow> players s
                     | Some k \<Rightarrow> (players s)(killerId \<mapsto>
                         k\<lparr>score := score k + (baseScore + headshotBonus), kills := kills k + 1\<rparr>));
               killerName = (case killer of None \<Rightarrow> ascii ''Unknown'' | Some k \<Rightarrow> name k);
               killMessage = KillMessage (de_messageId env) (de_now env) killerName
                               (e_identity en) weapon isHeadshot;
               pks = (if de_dropRoll env < 0.2
                      then (pickups s)(de_pickupId env \<mapsto>
                             \<lparr>pk_type = (if de_kindRoll env < 0.3
                                          then pick_at (de_indexRoll env) PICKUP_weapons
                                          else pick_at (de_indexRoll env) PICKUP_consumables),
                              pk_position = \<lparr>vx = vx (e_position en), vy = 0.5, vz = vz (e_position en)\<rparr>,
                              pk_rotation = 0\<rparr>)
                      else pickups s)
           in s\<lparr>players := ps,
                totalKills := totalKills s + 1,
                chatMessages := pushMessage killMessage (chatMessages s),
                bossKilled := (if e_isBoss en then True else bossKilled s),
                entityPaths := entityPaths s - {enemyId},
                enemies := (enemies s)(enemyId := None),
                pickups := pks\<rparr>))"

record hit_result =
  hr_damage :: real
  hr_isHeadshot :: bool
  hr_killed :: bool
  hr_position :: vec3

text \<open>
  \<^verbatim>\<open>handleBulletHit\<close> in three steps: the damage of the hit, the writes before the
  check for death (the owner's statistics, the enemy's health, the bullet's removal),
  then the death of the enemy. The result reads the health of the enemy object, which
  \<^verbatim>\<open>handleEnemyDeath\<close> removes from the map but does not change.
\<close>

definition bulletDamage :: "bullet \<Rightarrow> enemy \<Rightarrow> player option \<Rightarrow> bool \<Rightarrow> real" where
  "bulletDamage b en owner isHeadshot =
     (if isHeadshot
      then (let damage = b_damage b * (if e_headMultiplier en = 0 then 2 else e_headMultiplier en)
            in case owner of
                 None \<Rightarrow> damage
               | Some p \<Rightarrow> if ''headshot_boost'' \<in> set (perks p) then damage * 1.25 else damage)
      else b_damage b)"

definition applyHit ::
  "game_state \<Rightarrow> string \<Rightarrow> string \<Rightarrow> bullet \<Rightarrow> enemy \<Rightarrow> bool \<Rightarrow> real \<Rightarrow> game_state" where
  "applyHit s bulletId enemyId b en isHeadshot damage =
     s\<lparr>players :=
         (case players s (b_ownerId b) of
            None \<Rightarrow> players s
          | Some p \<Rightarrow> (players s)(b_ownerId b \<mapsto>
              p\<lparr>headshots := (if isHeadshot then headshots p + 1 else headshots p),
                damageDealt := damageDealt p + damage\<rparr>)),
       enemies := (enemies s)(enemyId \<mapsto> en\<lparr>e_health := e_health en - damage\<rparr>),
       bullets := (bullets s)(bulletId := None)\<rparr>"

definition handleBulletHit ::
  "game_state \<Rightarrow> string \<Rightarrow> string \<Rightarrow> bool \<Rightarrow> death_env \<Rightarrow> hit_result option \<times> game_state" where
  "handleBulletHit s bulletId enemyId isHeadshot env =
     (case (bullets s bulletId, enemies s enemyId) of
        (Some b, Some en) \<Rightarrow>
          (let damage = bulletDamage b en (players s (b_ownerId b)) isHeadshot;
               s1 = applyHit s bulletId enemyId b en isHeadshot damage;
               dead = (e_health en - damage \<le> 0);
               s2 = (if dead
                     then handleEnemyDeath s1 enemyId (b_ownerId b) (b_weapon b) isHeadshot env
                     else s1)
           in (Some \<lparr>hr_damage = damage, hr_isHeadshot = isHeadshot,
                      hr_killed = dead, hr_position = e_position en\<rparr>, s2))
      | _ \<Rightarrow> (None, s))"


subsection \<open>Objectives and loot containers\<close>

text \<open>\<^verbatim>\<open>Map.set\<close> on a map kept in insertion order: an existing key keeps its place.\<close>

fun map_set :: "'k \<Rightarrow> 'v \<Rightarrow> ('k \<times> 'v) list \<Rightarrow> ('k \<times> 'v) list" where
  "map_set k v [] = [(k, v)]"
| "map_set k v ((k1, v1) # kvs) = (if k1 = k then (k, v) # kvs else (k1, v1) # map_set k v kvs)"

text \<open>
  The four characters that open the two system messages in \<^verbatim>\<open>GameState.js\<close> as it is
  stored: the literal of \<^verbatim>\<open>collectObjective\<close> starts with the code units \<^verbatim>\<open>00F0 0178 201C 00A6\<close>
  and the literal of \<^verbatim>\<open>updateObjectives\<close> with \<^verbatim>\<open>00F0 0178 0161 2014\<close>.
\<close>

definition emoji_box :: jstring where
  "emoji_box = [0x00F0, 0x0178, 0x201C, 0x00A6]"

definition emoji_car :: jstring where
  "emoji_car = [0x00F0, 0x0178, 0x0161, 0x2014]"

definition collectObjective ::
  "game_state \<Rightarrow> string \<Rightarrow> string \<Rightarrow> string \<Rightarrow> real \<Rightarrow> bool \<times> game_state" where
  "collectObjective s playerId objectiveId uuid now =
     (case map_of (objective_items s) objectiveId of
        None \<Rightarrow> (False, s)
      | Some itemState \<Rightarrow>
          if collected itemState then (False, s)
          else (let s1 = s\<lparr>objective_items := map_set objectiveId
                             (itemState\<lparr>collected := True, collectedBy := Some playerId\<rparr>)
                             (objective_items s)\<rparr>;
                    playerName = (case players s1 playerId of None \<Rightarrow> ascii ''Unknown'' | Some p \<Rightarrow> name p);
                    itemName = (case find (\<lambda>ob. mo_id ob = objectiveId) (map_objectives s1) of
                                  None \<Rightarrow> ascii ''Objective Item''
                                | Some ob \<Rightarrow> mo_name ob)
                in (True, snd (addSystemMessage s1
                      (emoji_box @ ascii '' '' @ playerName @ ascii '' collected '' @ itemName @ ascii ''!'')
                      uuid now))))"

definition updateObjectives :: "game_state \<Rightarrow> string \<Rightarrow> real \<Rightarrow> game_state" where
  "updateObjectives s uuid now =
     (let allCollected = list_all (\<lambda>(itemId, itemState). collected itemState) (objective_items s)
      in if allCollected \<and> \<not> escapeActive s
         then snd (addSystemMessage (s\<lparr>escapeActive := True\<rparr>)
                (emoji_car @ ascii '' Escape vehicle is ready! Get to the extraction point!'') uuid now)
         else s)"

definition lootContainer ::
  "game_state \<Rightarrow> string \<Rightarrow> string \<Rightarrow> string \<Rightarrow> string option \<times> game_state" where
  "lootContainer s playerId containerId uuid =
     (case lootContainers s containerId of
        None \<Rightarrow> (None, s)
      | Some container \<Rightarrow>
          if looted container then (None, s)
          else (let s1 = s\<lparr>lootContainers := (lootContainers s)(containerId \<mapsto>
                             container\<lparr>looted := True\<rparr>)\<rparr>
                in case loot container of
                     None \<Rightarrow> (None, s1)
                   | Some l \<Rightarrow>
                       if l = [] then (None, s1)
                       else (case find (\<lambda>c. mc_id c = containerId) (map_lootContainers s1) of
                               None \<Rightarrow> (None, s1)
                             | Some containerData \<Rightarrow>
                                 (Some l, s1\<lparr>pickups := (pickups s1)(uuid \<mapsto>
                                    \<lparr>pk_type = Some l,
                                     pk_position = \<lparr>vx = vx (mc_position containerData), vy = 0.5,
                                                    vz = vz (mc_position containerData)\<rparr>,
                                     pk_rotation = 0\<rparr>)\<rparr>))))"

subsection \<open>Sequences of operations on the game state\<close>

text \<open>
  The operations above as requests, with what each reads from outside. \<open>PlayerHit\<close> is
  the handler of the \<^verbatim>\<open>playerHit\<close> event, which passes the player's own position as
  the source of the damage.
\<close>

datatype game_op =
  PlayerInput string player_input
  | PlayerHit string real string
  | Revive string string
  | Chat string jstring string real
  | System jstring string real
  | EnemyDeath string string string bool death_env
  | BulletHit string string bool death_env
  | Collect string string string real
  | Loot string string string
  | StatsTick
  | DownedTick
  | ObjectivesTick string real

fun apply_op :: "game_state \<Rightarrow> game_op \<Rightarrow> game_state" where
  "apply_op s (PlayerInput playerId inp) = handlePlayerInput s playerId inp"
| "apply_op s (PlayerHit playerId damage source) =
     (case players s playerId of
        None \<Rightarrow> s
      | Some p \<Rightarrow> snd (handlePlayerDamage s playerId damage (position p) source))"
| "apply_op s (Revive reviverId targetId) = snd (revivePlayer s reviverId targetId)"
| "apply_op s (Chat playerId txt uuid now) = snd (addChatMessage s playerId txt uuid now)"
| "apply_op s (System txt uuid now) = snd (addSystemMessage s txt uuid now)"
| "apply_op s (EnemyDeath enemyId killerId weapon isHeadshot env) =
     handleEnemyDeath s enemyId killerId weapon isHeadshot env"
| "apply_op s (BulletHit bulletId enemyId isHeadshot env) =
     snd (handleBulletHit s bulletId enemyId isHeadshot env)"
| "apply_op s (Collect playerId objectiveId uuid now) =
     snd (collectObjective s playerId objectiveId uuid now)"
| "apply_op s (Loot playerId containerId uuid) = snd (lootContainer s playerId containerId uuid)"
| "apply_op s StatsTick = updatePlayerStats s"
| "apply_op s DownedTick = updateDownedPlayers s"
| "apply_op s (ObjectivesTick uuid now) = updateObjectives s uuid now"

definition run_ops :: "game_state \<Rightarrow> game_op list \<Rightarrow> game_state" where
  "run_ops s ops = foldl apply_op s ops"

subsection \<open>Concrete states used to run the definitions\<close>

definition origin :: vec3 where
  "origin = \<lparr>vx = 0, vy = 0, vz = 0\<rparr>"

text \<open>A map of 4 by 4 cells over the square from -1 to 1, with no cell blocked.\<close>

definition open_map :: map_manager where
  "open_map =
     \<lparr>area_bounds = \<lparr>minX = -1, maxX = 1, minZ = -1, maxZ = 1\<rparr>,
      collisionGrid = replicate 16 0, gridResolution = 0.5, gridWidth = 4, gridHeight = 4,
      buildings = [], interiors = [], barrelFires = [], overpasses = [], props = [],
      area_playerZone = \<lparr>minX = -0.5, maxX = 0.5, minZ = -0.5, maxZ = 0.5\<rparr>,
      area_enemyMinDistance = 25, rng_current = 0, spawnPlayers = [], spawnEnemies = []\<rparr>"

text \<open>The same map with the cell of column 1, row 2 blocked: the square from -0.5 to 0 by 0 to 0.5.\<close>

definition wall_map :: map_manager where
  "wall_map = open_map\<lparr>collisionGrid := [0, 0, 0, 0, 0, 0, 0, 0, 0, 1, 0, 0, 0, 0, 0, 0]\<rparr>"

text \<open>The grid of \<open>open_map\<close> as the pathfinding worker receives it.\<close>

definition open_astar :: astar where
  "open_astar =
     \<lparr>as_grid = replicate 16 0, as_width = 4, as_height = 4, as_resolution = 0.5,
      as_bounds = \<lparr>minX = -1, maxX = 1, minZ = -1, maxZ = 1\<rparr>\<rparr>"



definition fresh_player :: "string \<Rightarrow> player" where
  "fresh_player n =
     \<lparr>name = ascii n, position = \<lparr>vx = 0, vy = 1.6, vz = 0\<rparr>, rotation = (0, 0),
      health = 100, maxHealth = 100, hunger = 100, warmth = 100, energy = 100,
      score = 0, kills = 0, headshots = 0, damageDealt = 0, revives = 0,
      alive = True, isDowned = False, downedTimer = 0, perks = [], color = 0,
      isInsideBuilding = False, currentInterior = None\<rparr>"

definition empty_game :: game_state where
  "empty_game =
     \<lparr>level = 1, totalKills = 0, frameCount = 0, players = Map.empty, enemies = Map.empty,
      pickups = Map.empty, bullets = Map.empty, bossSpawned = False, bossKilled = False,
      chatMessages = [], objective_items = [], escapeActive = False,
      lootContainers = Map.empty, map_objectives = [], map_lootContainers = [],
      entityPaths = {}, mapManager = open_map\<rparr>"

definition downed_player :: player where
  "downed_player = (fresh_player ''ann'')\<lparr>health := 0, isDowned := True, downedTimer := 900\<rparr>"

definition game_with_downed :: game_state where
  "game_with_downed =
     empty_game\<lparr>players := [''a'' \<mapsto> downed_player, ''b'' \<mapsto> fresh_player ''bob'']\<rparr>"

definition two_players :: game_state where
  "two_players =
     empty_game\<lparr>players := [''a'' \<mapsto> fresh_player ''ann'', ''b'' \<mapsto> fresh_player ''bob'']\<rparr>"

definition demo_identity :: identity where
  "demo_identity = \<lparr>fullName = ''Mary Smith'', age = 41, netWorth = 2.5\<rparr>"

definition normal_enemy :: enemy where
  "normal_enemy = the (newEnemy 1 ''normal'' demo_identity (30, 30) 0.5)"

definition pistol_bullet :: bullet where
  "pistol_bullet =
     \<lparr>b_ownerId = ''b'', b_weapon = ''pistol'', b_damage = 25,
      b_position = \<lparr>vx = 30, vy = 1.35, vz = 30\<rparr>,
      b_velocity = \<lparr>vx = 0, vy = 0, vz = 1.5\<rparr>, b_createdAt = 0\<rparr>"

definition demo_env :: death_env where
  "demo_env =
     \<lparr>de_messageId = ''m1'', de_now = 1000, de_dropRoll = 0.5, de_pickupId = ''pk1'',
      de_kindRoll = 0.5, de_indexRoll = 0.5\<rparr>"

definition game_with_bullet :: game_state where
  "game_with_bullet =
     empty_game\<lparr>players := [''b'' \<mapsto> fresh_player ''bob''],
                enemies := [''e1'' \<mapsto> normal_enemy],
                bullets := [''k1'' \<mapsto> pistol_bullet]\<rparr>"

definition game_with_full_log :: game_state where
  "game_with_full_log =
     game_with_bullet\<lparr>chatMessages := replicate 50 (SystemMessage ''m0'' 0 (ascii ''hello''))\<rparr>"

definition game_with_objective :: game_state where
  "game_with_objective =
     empty_game\<lparr>players := [''b'' \<mapsto> fresh_player ''bob''],
                objective_items :=
                  [(''objective_generator_part_0'', \<lparr>collected = False, collectedBy = None\<rparr>),
                   (''objective_generator_part_1'', \<lparr>collected = True, collectedBy = Some ''b''\<rparr>)],
                map_objectives :=
                  [\<lparr>mo_id = ''objective_generator_part_0'', mo_name = ascii ''Generator Part''\<rparr>,
                   \<lparr>mo_id = ''objective_generator_part_1'', mo_name = ascii ''Generator Part''\<rparr>],
                lootContainers := [''loot_0'' \<mapsto> \<lparr>looted = True, loot = Some ''food''\<rparr>,
                                   ''loot_1'' \<mapsto> \<lparr>looted = False, loot = Some ''ammo''\<rparr>],
                map_lootContainers :=
                  [\<lparr>mc_id = ''loot_0'', mc_position = origin\<rparr>,
                   \<lparr>mc_id = ''loot_1'', mc_position = \<lparr>vx = 4, vy = 0, vz = 2\<rparr>\<rparr>]\<rparr>"

definition energy_input :: player_input where
  "energy_input =
     \<lparr>inp_position = None, inp_rotation = None, inp_stats = Some \<lparr>st_energy = Some 150\<rparr>\<rparr>"

section \<open>Lemmas\<close>

subsection \<open>The message log: one operation pushes at most one message\<close>

lemma slice_last_length: "length (slice_last n xs) = min n (length xs)"
  by (simp add: slice_last_def)

lemma pushMessage_slice: "pushMessage m msgs = slice_last 50 (msgs @ [m])"
  by (simp add: pushMessage_def slice_last_def Let_def)

lemma pushMessage_length: "length (pushMessage m msgs) \<le> 50"
  by (simp add: pushMessage_slice slice_last_length)

lemma log_addSystemMessage:
  "chatMessages (snd (addSystemMessage s msg u t)) = pushMessage (SystemMessage u t msg) (chatMessages s)"
  by (simp add: addSystemMessage_def Let_def)

lemma log_addChatMessage:
  "chatMessages (snd (addChatMessage s pid msg u t)) =
     (case fst (addChatMessage s pid msg u t) of
        None \<Rightarrow> chatMessages s
      | Some m \<Rightarrow> pushMessage m (chatMessages s))"
  by (simp add: addChatMessage_def Let_def split: option.splits)

lemma log_handleEnemyDeath:
  "chatMessages (handleEnemyDeath s eid kid w hs env) =
     (case enemies s eid of
        None \<Rightarrow> chatMessages s
      | Some en \<Rightarrow>
          pushMessage (KillMessage (de_messageId env) (de_now env)
              (case players s kid of None \<Rightarrow> ascii ''Unknown'' | Some k \<Rightarrow> name k)
              (e_identity en) w hs) (chatMessages s))"
  by (simp add: handleEnemyDeath_def Let_def split: option.splits)

text \<open>One operation leaves the log alone or pushes one message onto it.\<close>

lemma log_applyHit: "chatMessages (applyHit s bid eid b en hs d) = chatMessages s"
  by (simp add: applyHit_def)

lemma log_handleBulletHit:
  "chatMessages (snd (handleBulletHit s bid eid hs env)) = chatMessages s \<or>
   (\<exists>m. chatMessages (snd (handleBulletHit s bid eid hs env)) = pushMessage m (chatMessages s))"
  by (auto simp: handleBulletHit_def Let_def log_applyHit log_handleEnemyDeath applyHit_def
      split: option.splits)

lemma log_apply_op:
  "chatMessages (apply_op s op) = chatMessages s \<or>
   (\<exists>m. chatMessages (apply_op s op) = pushMessage m (chatMessages s))"
proof (cases op)
  case (PlayerInput pid inp)
  then show ?thesis by (simp add: handlePlayerInput_def Let_def split: option.splits)
next
  case (PlayerHit pid d src)
  then show ?thesis by (simp add: handlePlayerDamage_def split: option.splits prod.splits)
next
  case (Revive r t)
  then show ?thesis by (simp add: revivePlayer_def Let_def split: option.splits)
next
  case (Chat pid msg u t)
  then show ?thesis by (auto simp: log_addChatMessage split: option.splits)
next
  case (System msg u t)
  then show ?thesis by (auto simp: log_addSystemMessage)
next
  case (EnemyDeath e k w h env)
  then show ?thesis by (auto simp: log_handleEnemyDeath split: option.splits)
next
  case (BulletHit b e h env)
  then show ?thesis using log_handleBulletHit by simp
next
  case (Collect pid oid u t)
  then show ?thesis
    by (auto simp: collectObjective_def Let_def log_addSystemMessage split: option.splits)
next
  case (Loot pid c u)
  then show ?thesis by (simp add: lootContainer_def Let_def split: option.splits)
next
  case StatsTick
  then show ?thesis by (simp add: updatePlayerStats_def)
next
  case DownedTick
  then show ?thesis by (simp add: updateDownedPlayers_def)
next
  case (ObjectivesTick u t)
  then show ?thesis by (auto simp: updateObjectives_def Let_def log_addSystemMessage)
qed

lemma log_run_ops:
  "length (chatMessages s) \<le> 50 \<Longrightarrow> length (chatMessages (foldl apply_op s ops)) \<le> 50"
proof (induction ops arbitrary: s)
  case Nil
  then show ?case by simp
next
  case (Cons op ops)
  have "length (chatMessages (apply_op s op)) \<le> 50"
    using log_apply_op [of s op] Cons.prems by (auto simp: pushMessage_length)
  then show ?case using Cons.IH by simp
qed

subsection \<open>The downed countdown and the alive flag\<close>

lemma tickDowned_funpow:
  "isDowned p \<Longrightarrow> alive p \<Longrightarrow> int n < downedTimer p \<Longrightarrow>
   (tickDowned ^^ n) p = p\<lparr>downedTimer := downedTimer p - int n\<rparr>"
proof (induction n)
  case 0
  then show ?case by simp
next
  case (Suc n)
  then show ?case by (simp add: tickDowned_def Let_def)
qed

lemma updateDownedPlayers_funpow:
  "players ((updateDownedPlayers ^^ n) s) k = map_option (tickDowned ^^ n) (players s k)"
proof (induction n)
  case 0
  then show ?case by (simp add: option.map_ident)
next
  case (Suc n)
  then show ?case by (simp add: updateDownedPlayers_def option.map_comp o_def)
qed

lemma handlePlayerDamage_downs:
  assumes "players s pid = Some p" "alive p" "\<not> isDowned p"
    and "health p \<le> fst (applyDamage dmg p)"
  shows "players (snd (handlePlayerDamage s pid dmg src ty)) pid =
           Some (p\<lparr>health := 0, isDowned := True, downedTimer := 900\<rparr>)"
  using assms by (simp add: handlePlayerDamage_def damagePlayer_def applyDamage_def Let_def)

lemma alive_damaged: "alive (damaged d p) = alive p"
  by (simp add: damaged_def damagePlayer_def applyDamage_def Let_def)

lemma alive_hungerTick: "alive (hungerTick f p) = alive p"
  by (simp add: hungerTick_def Let_def alive_damaged)

lemma alive_warmthTick: "alive (warmthTick m f p) = alive p"
  by (simp add: warmthTick_def Let_def alive_damaged split: option.splits)

lemma alive_statsTick: "alive (statsTick m f p) = alive p"
  by (simp add: statsTick_def energyTick_def alive_hungerTick alive_warmthTick)

lemma alive_handlePlayerInput:
  "map_option alive (players (handlePlayerInput s pid inp) k) = map_option alive (players s k)"
  by (simp add: handlePlayerInput_def Let_def split: option.splits)

lemma alive_handlePlayerDamage:
  "map_option alive (players (snd (handlePlayerDamage s pid d src ty)) k) = map_option alive (players s k)"
  by (auto simp: handlePlayerDamage_def damagePlayer_def applyDamage_def Let_def split: option.splits)

lemma alive_revivePlayer:
  "map_option alive (players (snd (revivePlayer s rid tid)) k) = map_option alive (players s k)"
  by (auto simp: revivePlayer_def Let_def split: option.splits)

lemma alive_handleEnemyDeath:
  "map_option alive (players (handleEnemyDeath s eid kid w hs env) k) = map_option alive (players s k)"
  by (simp add: handleEnemyDeath_def Let_def split: option.splits)

lemma alive_applyHit:
  "map_option alive (players (applyHit s bid eid b en hs d) k) = map_option alive (players s k)"
  by (simp add: applyHit_def split: option.splits)

lemma alive_handleBulletHit:
  "map_option alive (players (snd (handleBulletHit s bid eid hs env)) k) = map_option alive (players s k)"
  by (simp add: handleBulletHit_def Let_def alive_handleEnemyDeath alive_applyHit split: option.splits)

lemma players_addSystemMessage: "players (snd (addSystemMessage s msg u t)) = players s"
  by (simp add: addSystemMessage_def Let_def)

lemma players_addChatMessage: "players (snd (addChatMessage s pid msg u t)) = players s"
  by (simp add: addChatMessage_def Let_def split: option.splits)

lemma players_collectObjective: "players (snd (collectObjective s pid oid u t)) = players s"
  by (simp add: collectObjective_def Let_def players_addSystemMessage split: option.splits)

lemma players_updateObjectives: "players (updateObjectives s u t) = players s"
  by (simp add: updateObjectives_def Let_def players_addSystemMessage)

lemma players_lootContainer: "players (snd (lootContainer s pid cid u)) = players s"
  by (simp add: lootContainer_def Let_def split: option.splits)

lemma alive_kept_unless_DownedTick:
  "op \<noteq> DownedTick \<Longrightarrow> map_option alive (players (apply_op s op) k) = map_option alive (players s k)"
proof (cases op)
  case (PlayerHit pid d src)
  then show ?thesis by (simp add: alive_handlePlayerDamage split: option.splits)
next
  case StatsTick
  then show ?thesis by (simp add: updatePlayerStats_def option.map_comp o_def alive_statsTick)
qed (simp_all add: alive_handlePlayerInput alive_revivePlayer players_addChatMessage
      players_addSystemMessage alive_handleEnemyDeath alive_handleBulletHit players_collectObjective
      players_lootContainer players_updateObjectives)

lemma alive_lost_only_by_countdown:
  assumes "players st k = Some q" "alive q" "players (apply_op st op) k = Some q'" "\<not> alive q'"
  shows "op = DownedTick \<and> isDowned q \<and> downedTimer q - 1 \<le> 0"
proof -
  have op: "op = DownedTick"
  proof (rule ccontr)
    assume "op \<noteq> DownedTick"
    from alive_kept_unless_DownedTick [OF this, of st k] assms show False by simp
  qed
  with assms have "q' = tickDowned q" by (simp add: updateDownedPlayers_def)
  with assms(2,4) have "isDowned q \<and> downedTimer q - 1 \<le> 0"
    by (auto simp: tickDowned_def Let_def split: if_splits)
  with op show ?thesis by simp
qed

lemma revive_downed:
  assumes "players s rid = Some r" "alive r" "rid \<noteq> tid" "players s tid = Some q" "isDowned q"
  shows "fst (revivePlayer s rid tid) = True \<and>
         players (snd (revivePlayer s rid tid)) tid =
           Some (q\<lparr>isDowned := False, health := 30, downedTimer := 0\<rparr>)"
  using assms by (simp add: revivePlayer_def Let_def)

lemma tickDowned_expires:
  "isDowned p \<Longrightarrow> alive p \<Longrightarrow> downedTimer p = int (Suc m) \<Longrightarrow>
   \<not> alive ((tickDowned ^^ Suc m) p)"
  using tickDowned_funpow [of p m] by (simp add: tickDowned_def Let_def)

subsection \<open>Movement with collision\<close>

lemma isCircleWalkable_radius_0: "isCircleWalkable m x z 0 = isWalkable m x z"
  by (simp add: isCircleWalkable_def circleAngles_def)

lemma slideX_fails:
  assumes "\<not> isCircleWalkable m (slideX m cx cz dx r) cz r"
  shows "slideX m cx cz dx r = cx \<and>
         (\<forall>step \<in> set (dx # slideSteps (dx * slideSmoothing)). \<not> isCircleWalkable m (cx + step) cz r)"
proof (cases "isCircleWalkable m (cx + dx) cz r")
  case True
  with assms show ?thesis by (simp add: slideX_def)
next
  case False
  show ?thesis
  proof (cases "find (\<lambda>tryX. isCircleWalkable m tryX cz r)
                  (map (\<lambda>step. cx + step) (slideSteps (dx * slideSmoothing)))")
    case None
    then have "\<forall>step \<in> set (slideSteps (dx * slideSmoothing)). \<not> isCircleWalkable m (cx + step) cz r"
      by (auto simp: find_None_iff)
    with False None show ?thesis by (simp add: slideX_def)
  next
    case (Some t)
    then have "isCircleWalkable m t cz r" by (auto simp: find_Some_iff)
    with assms False Some show ?thesis by (simp add: slideX_def)
  qed
qed

lemma slideZ_fails:
  assumes "\<not> isCircleWalkable m nx (slideZ m nx cz dz r) r"
  shows "slideZ m nx cz dz r = cz \<and>
         (\<forall>step \<in> set (dz # slideSteps (dz * slideSmoothing)). \<not> isCircleWalkable m nx (cz + step) r)"
proof (cases "isCircleWalkable m nx (cz + dz) r")
  case True
  with assms show ?thesis by (simp add: slideZ_def)
next
  case False
  show ?thesis
  proof (cases "find (\<lambda>tryZ. isCircleWalkable m nx tryZ r)
                  (map (\<lambda>step. cz + step) (slideSteps (dz * slideSmoothing)))")
    case None
    then have "\<forall>step \<in> set (slideSteps (dz * slideSmoothing)). \<not> isCircleWalkable m nx (cz + step) r"
      by (auto simp: find_None_iff)
    with False None show ?thesis by (simp add: slideZ_def)
  next
    case (Some t)
    then have "isCircleWalkable m nx t r" by (auto simp: find_Some_iff)
    with assms False Some show ?thesis by (simp add: slideZ_def)
  qed
qed

lemma slideZ_keeps_or_walkable:
  "slideZ m nx cz dz r = cz \<or> isCircleWalkable m nx (slideZ m nx cz dz r) r"
  using slideZ_fails by blast

lemma moveWithCollision_unfold:
  "moveWithCollision m cx cz dX dZ r =
     (if \<bar>dX - cx\<bar> < 0.001 \<and> \<bar>dZ - cz\<bar> < 0.001 then (cx, cz)
      else if isCircleWalkable m dX dZ r then (dX, dZ)
      else if isCircleWalkable m
                (if \<bar>dX - cx\<bar> > 0.001 then slideX m cx cz (dX - cx) r else cx)
                (if \<bar>dZ - cz\<bar> > 0.001
                 then slideZ m (if \<bar>dX - cx\<bar> > 0.001 then slideX m cx cz (dX - cx) r else cx) cz (dZ - cz) r
                 else cz) r
      then (if \<bar>dX - cx\<bar> > 0.001 then slideX m cx cz (dX - cx) r else cx,
            if \<bar>dZ - cz\<bar> > 0.001
            then slideZ m (if \<bar>dX - cx\<bar> > 0.001 then slideX m cx cz (dX - cx) r else cx) cz (dZ - cz) r
            else cz)
      else (case find (\<lambda>(tryX, tryZ). isCircleWalkable m tryX tryZ r)
                   (dirProbes cx cz (sqrt ((dX - cx) * (dX - cx) + (dZ - cz) * (dZ - cz)) * 0.5)) of
              Some t \<Rightarrow> t
            | None \<Rightarrow> (cx, cz)))"
  by (simp add: moveWithCollision_def Let_def)

lemma moveWithCollision_walkable_or_start:
  "isCircleWalkable m (fst (moveWithCollision m cx cz dX dZ r)) (snd (moveWithCollision m cx cz dX dZ r)) r \<or>
   moveWithCollision m cx cz dX dZ r = (cx, cz)"
proof -
  let ?probes = "dirProbes cx cz (sqrt ((dX - cx) * (dX - cx) + (dZ - cz) * (dZ - cz)) * 0.5)"
  show ?thesis
  proof (cases "find (\<lambda>(tryX, tryZ). isCircleWalkable m tryX tryZ r) ?probes")
    case None
    then show ?thesis by (simp add: moveWithCollision_unfold)
  next
    case (Some t)
    then have "isCircleWalkable m (fst t) (snd t) r"
      by (auto simp: find_Some_iff)
    with Some show ?thesis by (simp add: moveWithCollision_unfold)
  qed
qed
lemma moveWithCollision_blocked_result:
  assumes blocked: "\<not> isCircleWalkable m (fst (moveWithCollision m cx cz dX dZ r))
                       (snd (moveWithCollision m cx cz dX dZ r)) r"
    and tx: "dX - cx = 0 \<or> \<bar>dX - cx\<bar> > 0.001"
    and tz: "dZ - cz = 0 \<or> \<bar>dZ - cz\<bar> > 0.001"
  shows "\<forall>p \<in> set (probeSet cx cz dX dZ). \<not> isCircleWalkable m (fst p) (snd p) r"
proof -
  let ?dx = "dX - cx" and ?dz = "dZ - cz"
  let ?len = "sqrt (?dx * ?dx + ?dz * ?dz) * 0.5"
  let ?nx = "if \<bar>?dx\<bar> > 0.001 then slideX m cx cz ?dx r else cx"
  let ?nz = "if \<bar>?dz\<bar> > 0.001 then slideZ m ?nx cz ?dz r else cz"
  from blocked moveWithCollision_walkable_or_start [of m cx cz dX dZ r]
  have start: "moveWithCollision m cx cz dX dZ r = (cx, cz)" by blast
  with blocked have cur: "\<not> isCircleWalkable m cx cz r" by simp
  show ?thesis
  proof (cases "\<bar>?dx\<bar> < 0.001 \<and> \<bar>?dz\<bar> < 0.001")
    case True
    with tx tz have "?dx = 0" "?dz = 0" by auto
    then have "dX = cx" "dZ = cz" by simp_all
    with cur show ?thesis
      by (simp add: probeSet_def slideSteps_def dirProbes_def directions_def)
  next
    case False
    from False have mv: "moveWithCollision m cx cz dX dZ r =
        (if isCircleWalkable m dX dZ r then (dX, dZ)
         else if isCircleWalkable m ?nx ?nz r then (?nx, ?nz)
         else (case find (\<lambda>(tryX, tryZ). isCircleWalkable m tryX tryZ r) (dirProbes cx cz ?len) of
                 Some t \<Rightarrow> t
               | None \<Rightarrow> (cx, cz)))"
      unfolding moveWithCollision_unfold by (rule if_not_P)
    have des: "\<not> isCircleWalkable m dX dZ r"
    proof
      assume "isCircleWalkable m dX dZ r"
      with mv blocked show False by simp
    qed
    have fin: "\<not> isCircleWalkable m ?nx ?nz r"
    proof
      assume "isCircleWalkable m ?nx ?nz r"
      with mv des blocked show False by simp
    qed
    have dirs: "\<forall>p \<in> set (dirProbes cx cz ?len). \<not> isCircleWalkable m (fst p) (snd p) r"
    proof (cases "find (\<lambda>(tryX, tryZ). isCircleWalkable m tryX tryZ r) (dirProbes cx cz ?len)")
      case None
      then show ?thesis by (auto simp: find_None_iff)
    next
      case (Some t)
      then have "isCircleWalkable m (fst t) (snd t) r" by (auto simp: find_Some_iff)
      moreover from mv des fin Some have "moveWithCollision m cx cz dX dZ r = t" by simp
      ultimately show ?thesis using blocked by simp
    qed
    have nx_blocked: "\<not> isCircleWalkable m ?nx cz r"
    proof
      assume w: "isCircleWalkable m ?nx cz r"
      show False
      proof (cases "\<bar>?dz\<bar> > 0.001")
        case True
        with slideZ_keeps_or_walkable [of m ?nx cz ?dz r] w fin show False by auto
      next
        case False
        with w fin show False by simp
      qed
    qed
    have nx: "?nx = cx" and xs: "\<forall>step \<in> set (?dx # slideSteps (?dx * slideSmoothing)).
        \<not> isCircleWalkable m (cx + step) cz r"
    proof -
      show "?nx = cx"
        using nx_blocked slideX_fails [of m cx cz ?dx r] by (simp split: if_splits)
      show "\<forall>step \<in> set (?dx # slideSteps (?dx * slideSmoothing)). \<not> isCircleWalkable m (cx + step) cz r"
      proof (cases "\<bar>?dx\<bar> > 0.001")
        case True
        with nx_blocked slideX_fails [of m cx cz ?dx r] show ?thesis by simp
      next
        case False
        with tx have "?dx = 0" by auto
        with cur show ?thesis by (simp add: slideSteps_def)
      qed
    qed
    have zs: "\<forall>step \<in> set (?dz # slideSteps (?dz * slideSmoothing)). \<not> isCircleWalkable m cx (cz + step) r"
    proof (cases "\<bar>?dz\<bar> > 0.001")
      case True
      with fin nx have "\<not> isCircleWalkable m cx (slideZ m cx cz ?dz r) r" by simp
      from slideZ_fails [OF this] show ?thesis by simp
    next
      case False
      with tz have "?dz = 0" by auto
      with cur show ?thesis by (simp add: slideSteps_def)
    qed
    from des xs zs dirs show ?thesis
      by (auto simp: probeSet_def Let_def ball_Un)
  qed
qed

lemma moveWithCollision_all_blocked:
  assumes "\<forall>p \<in> set (probeSet cx cz dX dZ). \<not> isCircleWalkable m (fst p) (snd p) r"
  shows "moveWithCollision m cx cz dX dZ r = (cx, cz)"
proof -
  let ?dx = "dX - cx" and ?dz = "dZ - cz"
  let ?len = "sqrt (?dx * ?dx + ?dz * ?dz) * 0.5"
  from assms have des: "\<not> isCircleWalkable m dX dZ r"
    and xs: "\<forall>step \<in> set (?dx # slideSteps (?dx * slideSmoothing)). \<not> isCircleWalkable m (cx + step) cz r"
    and zs: "\<forall>step \<in> set (?dz # slideSteps (?dz * slideSmoothing)). \<not> isCircleWalkable m cx (cz + step) r"
    and dirs: "\<forall>p \<in> set (dirProbes cx cz ?len). \<not> isCircleWalkable m (fst p) (snd p) r"
    by (auto simp: probeSet_def Let_def ball_Un)
  from xs have sx: "slideX m cx cz ?dx r = cx"
    by (auto simp: slideX_def Let_def find_None_iff split: option.splits dest: find_Some_iff [THEN iffD1])
  from zs have sz: "slideZ m cx cz ?dz r = cz"
    by (auto simp: slideZ_def Let_def find_None_iff split: option.splits dest: find_Some_iff [THEN iffD1])
  from dirs have "find (\<lambda>(tryX, tryZ). isCircleWalkable m tryX tryZ r) (dirProbes cx cz ?len) = None"
    by (auto simp: find_None_iff)
  with des sx sz show ?thesis
    by (simp add: moveWithCollision_unfold)
qed

subsection \<open>The A* search\<close>

lemma getNeighbors_iff:
  "(nx, nz, cost) \<in> set (getNeighbors a x z) \<longleftrightarrow>
   (\<exists>dx dz. (dx, dz, cost) \<in> set neighborDirections \<and> nx = x + dx \<and> nz = z + dz \<and>
      cellWalkable a nx nz \<and> (dx \<noteq> 0 \<and> dz \<noteq> 0 \<longrightarrow> cellWalkable a nx z \<and> cellWalkable a x nz))"
  by (force simp: getNeighbors_def image_iff)

lemma neighborDirections_iff:
  "(dx, dz, cost) \<in> set neighborDirections \<longleftrightarrow>
   \<bar>dx\<bar> \<le> 1 \<and> \<bar>dz\<bar> \<le> 1 \<and> (dx, dz) \<noteq> (0, 0) \<and> cost = (if dx \<noteq> 0 \<and> dz \<noteq> 0 then 1.414 else 1)"
proof
  assume "(dx, dz, cost) \<in> set neighborDirections"
  then show "\<bar>dx\<bar> \<le> 1 \<and> \<bar>dz\<bar> \<le> 1 \<and> (dx, dz) \<noteq> (0, 0) \<and>
      cost = (if dx \<noteq> 0 \<and> dz \<noteq> 0 then 1.414 else 1)"
    by (auto simp: neighborDirections_def)
next
  assume r: "\<bar>dx\<bar> \<le> 1 \<and> \<bar>dz\<bar> \<le> 1 \<and> (dx, dz) \<noteq> (0, 0) \<and>
      cost = (if dx \<noteq> 0 \<and> dz \<noteq> 0 then 1.414 else 1)"
  then have "dx = -1 \<or> dx = 0 \<or> dx = 1" "dz = -1 \<or> dz = 0 \<or> dz = 1" by arith+
  with r show "(dx, dz, cost) \<in> set neighborDirections"
    by (auto simp: neighborDirections_def)
qed

lemma getNeighbors_sound:
  assumes "(nx, nz, cost) \<in> set (getNeighbors a x z)"
  shows "cellWalkable a nx nz \<and> \<bar>nx - x\<bar> \<le> 1 \<and> \<bar>nz - z\<bar> \<le> 1 \<and> (nx, nz) \<noteq> (x, z) \<and>
         (if nx \<noteq> x \<and> nz \<noteq> z
          then cost = 1.414 \<and> cellWalkable a nx z \<and> cellWalkable a x nz
          else cost = 1)"
  using assms by (auto simp: getNeighbors_iff neighborDirections_iff)

lemma getNeighbors_complete:
  assumes "\<bar>dx\<bar> \<le> 1" "\<bar>dz\<bar> \<le> 1" "(dx, dz) \<noteq> (0, 0)" "cellWalkable a (x + dx) (z + dz)"
    and "dx \<noteq> 0 \<and> dz \<noteq> 0 \<longrightarrow> cellWalkable a (x + dx) z \<and> cellWalkable a x (z + dz)"
  shows "(x + dx, z + dz, if dx \<noteq> 0 \<and> dz \<noteq> 0 then 1.414 else 1) \<in> set (getNeighbors a x z)"
  using assms by (simp add: getNeighbors_iff neighborDirections_iff)

lemma heuristic_euclidean:
  "heuristic ax az bx bz = sqrt ((real_of_int bx - real_of_int ax)\<^sup>2 + (real_of_int bz - real_of_int az)\<^sup>2)"
  by (simp add: heuristic_def Let_def power2_eq_square)

lemma searchLoop_iterations: "snd (searchLoop a goal left k st) \<le> k + left"
proof (induction left arbitrary: k st)
  case 0
  then show ?case by simp
next
  case (Suc left)
  show ?case
  proof (cases "sort_key snd (openSet st)")
    case Nil
    then show ?thesis by simp
  next
    case (Cons e rest)
    obtain current f where e: "e = (current, f)" by (cases e)
    show ?thesis
      using Suc.IH [of "Suc k"] by (simp add: Cons e)
  qed
qed

lemma sqrt_2_not_1414: "sqrt 2 \<noteq> (1.414 :: real)"
proof
  assume h: "sqrt 2 = (1.414 :: real)"
  have "(sqrt 2)\<^sup>2 = (2 :: real)" by simp
  then have "(1.414 :: real)\<^sup>2 = 2" unfolding h .
  then show False by (simp add: power2_eq_square)
qed

lemma getNeighbors_open_center:
  "getNeighbors open_astar 1 1 =
     [(1, 0, 1), (2, 1, 1), (1, 2, 1), (0, 1, 1),
      (2, 0, 1.414), (2, 2, 1.414), (0, 2, 1.414), (0, 0, 1.414)]"
  by (simp add: getNeighbors_def neighborDirections_def cellWalkable_def open_astar_def nth_opt_def)

subsection \<open>The search loop: its steps, what it finds and when it finds it\<close>

lemma relax_closedSet: "closedSet (relax goal current st n) = closedSet st"
  by (simp add: relax_def Let_def split: prod.splits)

lemma relax_closed:
  "(nx, nz) \<in> closedSet st \<Longrightarrow> relax goal current st (nx, nz, cost) = st"
  by (simp add: relax_def)

lemma inOpenSet_iff: "list_ex (\<lambda>(c, f). c = q) (openSet st) \<longleftrightarrow> q \<in> openCells st"
  by (force simp: list_ex_iff openCells_def image_iff)

lemma relax_push:
  assumes "(nx, nz) \<notin> closedSet st" "(nx, nz) \<notin> openCells st"
  shows "relax goal current st (nx, nz, cost) =
     st\<lparr>cameFrom := (cameFrom st)((nx, nz) \<mapsto> current),
        gScore := (gScore st)((nx, nz) \<mapsto> the (gScore st current) + cost),
        fScore := (fScore st)((nx, nz) \<mapsto>
           the (gScore st current) + cost + heuristic nx nz (fst goal) (snd goal)),
        openSet := openSet st @
           [((nx, nz), the (gScore st current) + cost + heuristic nx nz (fst goal) (snd goal))]\<rparr>"
  using assms by (simp add: relax_def Let_def inOpenSet_iff)

lemma relax_update:
  assumes "(nx, nz) \<notin> closedSet st" "(nx, nz) \<in> openCells st"
  shows "relax goal current st (nx, nz, cost) =
     (if improves (the (gScore st current) + cost) (gScore st (nx, nz))
      then st\<lparr>cameFrom := (cameFrom st)((nx, nz) \<mapsto> current),
              gScore := (gScore st)((nx, nz) \<mapsto> the (gScore st current) + cost),
              fScore := (fScore st)((nx, nz) \<mapsto>
                 the (gScore st current) + cost + heuristic nx nz (fst goal) (snd goal))\<rparr>
      else st)"
  using assms by (simp add: relax_def Let_def inOpenSet_iff)

lemma relax_openCells:
  "openCells (relax goal current st (nx, nz, cost)) =
     (if (nx, nz) \<in> closedSet st then openCells st else insert (nx, nz) (openCells st))"
proof (cases "(nx, nz) \<in> closedSet st")
  case True
  then show ?thesis by (simp add: relax_closed)
next
  case False
  show ?thesis
  proof (cases "(nx, nz) \<in> openCells st")
    case True
    with False show ?thesis by (auto simp: relax_update openCells_def)
  next
    case n: False
    with False show ?thesis by (simp add: relax_push) (simp add: openCells_def)
  qed
qed

lemma relax_distinct:
  assumes "distinct (map fst (openSet st))"
  shows "distinct (map fst (openSet (relax goal current st (nx, nz, cost))))"
proof (cases "(nx, nz) \<in> closedSet st")
  case True
  then show ?thesis using assms by (simp add: relax_closed)
next
  case False
  show ?thesis
  proof (cases "(nx, nz) \<in> openCells st")
    case True
    with False assms show ?thesis by (simp add: relax_update)
  next
    case n: False
    with False assms show ?thesis by (simp add: relax_push) (simp add: openCells_def)
  qed
qed


lemma foldl_relax_closedSet: "closedSet (foldl (relax goal current) st ns) = closedSet st"
  by (induction ns arbitrary: st) (simp_all add: relax_closedSet)

lemma foldl_relax_openCells:
  "openCells (foldl (relax goal current) st ns) =
     openCells st \<union> ((\<lambda>(nx, nz, cost). (nx, nz)) ` set ns - closedSet st)"
proof (induction ns arbitrary: st)
  case Nil
  then show ?case by simp
next
  case (Cons n ns)
  obtain nx nz cost where n: "n = (nx, nz, cost)" by (cases n) auto
  show ?case
    by (simp add: Cons.IH n relax_openCells relax_closedSet) auto
qed

lemma foldl_relax_distinct:
  "distinct (map fst (openSet st)) \<Longrightarrow> distinct (map fst (openSet (foldl (relax goal current) st ns)))"
proof (induction ns arbitrary: st)
  case Nil
  then show ?case by simp
next
  case (Cons n ns)
  obtain nx nz cost where n: "n = (nx, nz, cost)" by (cases n) auto
  from Cons.prems show ?case
    by (simp add: n Cons.IH relax_distinct)
qed

lemma expand_closedSet: "closedSet (expand a goal current rest st) = insert current (closedSet st)"
  by (simp add: expand_def foldl_relax_closedSet)

lemma expand_openCells:
  "openCells (expand a goal current rest st) =
     fst ` set rest \<union> (neighborCells a current - insert current (closedSet st))"
  by (simp add: expand_def foldl_relax_openCells neighborCells_def) (simp add: openCells_def)

lemma expand_distinct:
  "distinct (map fst rest) \<Longrightarrow> distinct (map fst (openSet (expand a goal current rest st)))"
  by (simp add: expand_def foldl_relax_distinct)

lemma sort_key_head:
  assumes "sort_key snd xs = e # rest"
  shows "e \<in> set xs \<and> (\<forall>x \<in> set xs. snd e \<le> snd x) \<and> set xs = insert e (set rest) \<and>
         length xs = Suc (length rest) \<and> sorted (map snd rest) \<and>
         (distinct (map fst xs) \<longrightarrow> distinct (map fst rest) \<and> fst e \<notin> fst ` set rest)"
proof -
  have s: "set xs = set (e # rest)" using set_sort [of snd xs] assms by simp
  have l: "length xs = length (e # rest)" using length_sort [of snd xs] assms by simp
  have so: "sorted (map snd (e # rest))" using sorted_sort_key [of snd xs] assms by simp
  have d: "distinct (map fst xs) \<longrightarrow> distinct (map fst (e # rest))"
  proof
    assume "distinct (map fst xs)"
    then have "distinct xs \<and> inj_on fst (set xs)" by (simp add: distinct_map)
    then have "distinct (sort_key snd xs) \<and> inj_on fst (set (sort_key snd xs))" by simp
    then show "distinct (map fst (e # rest))" unfolding assms by (simp only: distinct_map)
  qed
  from s l so d show ?thesis by auto
qed

lemma sort_key_Nil: "sort_key snd xs = [] \<longleftrightarrow> xs = []"
  by (metis length_sort length_0_conv)

lemma searchLoop_Suc:
  "searchLoop a goal (Suc left) iterations st =
     (case sort_key snd (openSet st) of
        [] \<Rightarrow> (None, iterations)
      | (current, f) # rest \<Rightarrow>
          if current = goal then (Some (current, st\<lparr>openSet := rest\<rparr>), Suc iterations)
          else searchLoop a goal left (Suc iterations) (expand a goal current rest st))"
  by (simp add: expand_def split: list.splits prod.splits)

lemma searchLoop_empty: "openSet st = [] \<Longrightarrow> searchLoop a goal left iterations st = (None, iterations)"
  by (cases left) simp_all

lemma searchLoop_step:
  assumes "openSet st \<noteq> []"
  shows "\<exists>current f rest.
           (current, f) \<in> set (openSet st) \<and> (\<forall>e \<in> set (openSet st). f \<le> snd e) \<and>
           set (openSet st) = insert (current, f) (set rest) \<and>
           length (openSet st) = Suc (length rest) \<and>
           searchLoop a goal (Suc left) iterations st =
             (if current = goal then (Some (current, st\<lparr>openSet := rest\<rparr>), Suc iterations)
              else searchLoop a goal left (Suc iterations) (expand a goal current rest st))"
proof -
  from assms obtain e rest where s: "sort_key snd (openSet st) = e # rest"
    by (cases "sort_key snd (openSet st)") (simp_all add: sort_key_Nil)
  obtain current f where e: "e = (current, f)" by (cases e)
  from sort_key_head [OF s] have "(current, f) \<in> set (openSet st)"
    "\<forall>x \<in> set (openSet st). f \<le> snd x" "set (openSet st) = insert (current, f) (set rest)"
    "length (openSet st) = Suc (length rest)"
    by (simp_all add: e)
  moreover have "searchLoop a goal (Suc left) iterations st =
             (if current = goal then (Some (current, st\<lparr>openSet := rest\<rparr>), Suc iterations)
              else searchLoop a goal left (Suc iterations) (expand a goal current rest st))"
    by (simp only: searchLoop_Suc s e list.case prod.case)
  ultimately show ?thesis by blast
qed

lemma cellWalkable_gridCells: "cellWalkable a x z \<Longrightarrow> (x, z) \<in> gridCells a"
  by (simp add: cellWalkable_def gridCells_def split: if_splits)

lemma neighborCells_walkable:
  assumes "n \<in> neighborCells a p"
  shows "cellWalkable a (fst n) (snd n) \<and> n \<in> gridCells a"
proof -
  from assms obtain cost where "(fst n, snd n, cost) \<in> set (getNeighbors a (fst p) (snd p))"
    by (auto simp: neighborCells_def)
  from getNeighbors_sound [OF this] have "cellWalkable a (fst n) (snd n)" by simp
  with cellWalkable_gridCells [of a "fst n" "snd n"] show ?thesis by simp
qed

lemma finite_gridCells: "finite (gridCells a)"
  by (simp add: gridCells_def)

lemma card_gridCells: "card (gridCells a) = nat (as_width a) * nat (as_height a)"
  by (simp add: gridCells_def card_cartesian_product)

lemma reachable_gridCells:
  assumes "(start, goal) \<in> reachable a" "start \<in> gridCells a"
  shows "goal \<in> gridCells a"
  using assms unfolding reachable_def
  by (induction rule: rtrancl_induct) (auto dest: neighborCells_walkable)

lemma coverInv_initial:
  assumes "cellWalkable a (fst start) (snd start)"
  shows "coverInv a start goal (initialSearch start goal)"
  using cellWalkable_gridCells [OF assms]
  by (simp add: coverInv_def initialSearch_def openCells_def Let_def)

lemma coverInv_expand:
  assumes inv: "coverInv a start goal st"
    and s: "sort_key snd (openSet st) = (current, f) # rest"
    and ng: "current \<noteq> goal"
  shows "coverInv a start goal (expand a goal current rest st)"
proof -
  from sort_key_head [OF s] inv
  have o: "openCells st = insert current (fst ` set rest)"
    and d: "distinct (map fst rest)" and nr: "current \<notin> fst ` set rest"
    by (auto simp: openCells_def coverInv_def)
  from inv have c1: "closedSet st \<inter> openCells st = {}"
    and c2: "\<forall>p \<in> closedSet st. neighborCells a p \<subseteq> closedSet st \<union> openCells st"
    and c3: "goal \<notin> closedSet st" and c4: "start \<in> closedSet st \<union> openCells st"
    and c5: "closedSet st \<union> openCells st \<subseteq> gridCells a"
    by (simp_all add: coverInv_def)
  have n: "neighborCells a current \<subseteq> gridCells a"
    using neighborCells_walkable by blast
  let ?e = "expand a goal current rest st"
  have cl: "closedSet ?e = insert current (closedSet st)" by (rule expand_closedSet)
  have op: "openCells ?e = fst ` set rest \<union> (neighborCells a current - insert current (closedSet st))"
    by (rule expand_openCells)
  have "closedSet ?e \<inter> openCells ?e = {}"
    unfolding cl op using c1 nr o by auto
  moreover have "distinct (map fst (openSet ?e))" using d by (rule expand_distinct)
  moreover have "\<forall>p \<in> closedSet ?e. neighborCells a p \<subseteq> closedSet ?e \<union> openCells ?e"
    unfolding cl op using c2 o by auto
  moreover have "goal \<notin> closedSet ?e" unfolding cl using c3 ng by simp
  moreover have "start \<in> closedSet ?e \<union> openCells ?e" unfolding cl op using c4 o by auto
  moreover have "closedSet ?e \<union> openCells ?e \<subseteq> gridCells a"
    unfolding cl op using c5 o n by auto
  ultimately show ?thesis by (simp add: coverInv_def)
qed

lemma coverInv_open_nonempty:
  assumes inv: "coverInv a start goal st" and r: "(start, goal) \<in> reachable a"
  shows "openSet st \<noteq> []"
proof
  assume e: "openSet st = []"
  then have o: "openCells st = {}" by (simp add: openCells_def)
  from inv o have s: "start \<in> closedSet st"
    and c: "\<forall>p \<in> closedSet st. neighborCells a p \<subseteq> closedSet st"
    and g: "goal \<notin> closedSet st"
    by (simp_all add: coverInv_def)
  from r s have "goal \<in> closedSet st"
    unfolding reachable_def
  proof (induction rule: rtrancl_induct)
    case base
    then show ?case .
  next
    case (step y z)
    with c show ?case by auto
  qed
  with g show False by simp
qed

lemma searchLoop_complete:
  assumes "coverInv a start goal st" and "(start, goal) \<in> reachable a"
    and "card (gridCells a - closedSet st) \<le> left"
  shows "fst (searchLoop a goal left iterations st) \<noteq> None"
  using assms
proof (induction left arbitrary: st iterations)
  case 0
  then have "gridCells a - closedSet st = {}"
    using finite_gridCells [of a] by simp
  moreover from 0(1) have "start \<in> gridCells a" "goal \<notin> closedSet st"
    by (auto simp: coverInv_def)
  moreover from reachable_gridCells [OF 0(2)] \<open>start \<in> gridCells a\<close> have "goal \<in> gridCells a" by simp
  ultimately show ?case by auto
next
  case (Suc left)
  from coverInv_open_nonempty [OF Suc.prems(1,2)] obtain e rest
    where s0: "sort_key snd (openSet st) = e # rest"
    by (cases "sort_key snd (openSet st)") (simp_all add: sort_key_Nil)
  obtain current f where e: "e = (current, f)" by (cases e)
  note s = s0 [unfolded e]
  show ?case
  proof (cases "current = goal")
    case True
    then show ?thesis by (simp add: searchLoop_Suc s del: searchLoop.simps)
  next
    case False
    from sort_key_head [OF s] have "current \<in> openCells st"
      by (force simp: openCells_def)
    with Suc.prems(1) have cur: "current \<in> gridCells a - closedSet st"
      by (auto simp: coverInv_def)
    have "card (gridCells a - insert current (closedSet st)) < card (gridCells a - closedSet st)"
      using cur finite_gridCells [of a]
      by (intro psubset_card_mono) auto
    with Suc.prems(3)
    have c: "card (gridCells a - closedSet (expand a goal current rest st)) \<le> left"
      by (simp add: expand_closedSet)
    from Suc.IH [OF coverInv_expand [OF Suc.prems(1) s False] Suc.prems(2) c, of "Suc iterations"]
    show ?thesis using False by (simp add: searchLoop_Suc s del: searchLoop.simps)
  qed
qed

lemma getNeighbors_cost:
  assumes "(nx, nz, cost) \<in> set (getNeighbors a x z)"
  shows "1 \<le> cost"
  using getNeighbors_sound [OF assms] by (auto split: if_splits)

lemma scoreInv_initial: "scoreInv a start goal (initialSearch start goal)"
  by (auto simp: scoreInv_def initialSearch_def openCells_def Let_def)

lemma scoreInv_mono:
  assumes inv: "scoreInv a start goal st"
    and eq: "gScore st1 = gScore st" "fScore st1 = fScore st" "cameFrom st1 = cameFrom st"
    and cl: "closedSet st \<subseteq> closedSet st1"
    and un: "openCells st1 \<union> closedSet st1 \<subseteq> openCells st \<union> closedSet st"
    and s3: "start \<in> closedSet st1 \<or> openCells st1 \<subseteq> {start}"
  shows "scoreInv a start goal st1"
proof -
  from inv have s1: "gScore st start = Some 0" and s2: "cameFrom st start = None"
    and s4: "\<And>q p. cameFrom st q = Some p \<Longrightarrow>
         p \<in> closedSet st \<and>
         (\<exists>g cost. gScore st p = Some g \<and>
            (fst q, snd q, cost) \<in> set (getNeighbors a (fst p) (snd p)) \<and>
            gScore st q = Some (g + cost))"
    and s5: "\<And>q g. gScore st q = Some g \<Longrightarrow>
         0 \<le> g \<and> (q = start \<or> cameFrom st q \<noteq> None) \<and>
         fScore st q = Some (g + heuristic (fst q) (snd q) (fst goal) (snd goal))"
    and s6: "\<And>q. q \<in> openCells st \<union> closedSet st \<Longrightarrow> gScore st q \<noteq> None"
    unfolding scoreInv_def by blast+
  have t4: "\<forall>q p. cameFrom st1 q = Some p \<longrightarrow>
         p \<in> closedSet st1 \<and>
         (\<exists>g cost. gScore st1 p = Some g \<and>
            (fst q, snd q, cost) \<in> set (getNeighbors a (fst p) (snd p)) \<and>
            gScore st1 q = Some (g + cost))"
    unfolding eq using s4 cl by blast
  have t5: "\<forall>q g. gScore st1 q = Some g \<longrightarrow>
         0 \<le> g \<and> (q = start \<or> cameFrom st1 q \<noteq> None) \<and>
         fScore st1 q = Some (g + heuristic (fst q) (snd q) (fst goal) (snd goal))"
    unfolding eq using s5 by blast
  have t6: "\<forall>q \<in> openCells st1 \<union> closedSet st1. gScore st1 q \<noteq> None"
    unfolding eq using s6 un by blast
  from s1 s2 s3 t4 t5 t6 show ?thesis unfolding scoreInv_def eq by blast
qed

lemma scoreInv_write:
  assumes inv: "scoreInv a start goal st"
    and cur: "current \<in> closedSet st" and st: "start \<in> closedSet st"
    and n: "(nx, nz) \<notin> closedSet st"
    and e: "(nx, nz, cost) \<in> set (getNeighbors a (fst current) (snd current))"
    and os: "fst ` set os \<subseteq> insert (nx, nz) (openCells st)"
  shows "scoreInv a start goal
     (st\<lparr>cameFrom := (cameFrom st)((nx, nz) \<mapsto> current),
         gScore := (gScore st)((nx, nz) \<mapsto> the (gScore st current) + cost),
         fScore := (fScore st)((nx, nz) \<mapsto>
            the (gScore st current) + cost + heuristic nx nz (fst goal) (snd goal)),
         openSet := os\<rparr>)"
    (is "scoreInv a start goal ?st")
proof -
  from inv have s1: "gScore st start = Some 0" and s2: "cameFrom st start = None"
    and s4: "\<And>q p. cameFrom st q = Some p \<Longrightarrow>
         p \<in> closedSet st \<and>
         (\<exists>g cost. gScore st p = Some g \<and>
            (fst q, snd q, cost) \<in> set (getNeighbors a (fst p) (snd p)) \<and>
            gScore st q = Some (g + cost))"
    and s5: "\<And>q g. gScore st q = Some g \<Longrightarrow>
         0 \<le> g \<and> (q = start \<or> cameFrom st q \<noteq> None) \<and>
         fScore st q = Some (g + heuristic (fst q) (snd q) (fst goal) (snd goal))"
    and s6: "\<And>q. q \<in> openCells st \<union> closedSet st \<Longrightarrow> gScore st q \<noteq> None"
    unfolding scoreInv_def by blast+
  from s6 [of current] cur obtain gc where gc: "gScore st current = Some gc" by auto
  from s5 [OF gc] have gc0: "0 \<le> gc" by simp
  from getNeighbors_cost [OF e] have c1: "1 \<le> cost" .
  from n st cur have ne: "(nx, nz) \<noteq> start" "(nx, nz) \<noteq> current" by auto
  have t1: "gScore ?st start = Some 0" using s1 ne by simp
  have t2: "cameFrom ?st start = None" using s2 ne by simp
  have t3: "start \<in> closedSet ?st \<or> openCells ?st \<subseteq> {start}" using st by simp
  have t4: "\<forall>q p. cameFrom ?st q = Some p \<longrightarrow>
         p \<in> closedSet ?st \<and>
         (\<exists>g cost. gScore ?st p = Some g \<and>
            (fst q, snd q, cost) \<in> set (getNeighbors a (fst p) (snd p)) \<and>
            gScore ?st q = Some (g + cost))"
  proof (intro allI impI)
    fix q p assume cf: "cameFrom ?st q = Some p"
    show "p \<in> closedSet ?st \<and>
         (\<exists>g cost. gScore ?st p = Some g \<and>
            (fst q, snd q, cost) \<in> set (getNeighbors a (fst p) (snd p)) \<and>
            gScore ?st q = Some (g + cost))"
    proof (cases "q = (nx, nz)")
      case True
      with cf have p: "p = current" by simp
      show ?thesis unfolding p using cur gc e ne True by auto
    next
      case False
      with cf have cf0: "cameFrom st q = Some p" by simp
      from s4 [OF cf0] n have "p \<noteq> (nx, nz)" by auto
      with s4 [OF cf0] False show ?thesis by simp
    qed
  qed
  have t5: "\<forall>q g. gScore ?st q = Some g \<longrightarrow>
         0 \<le> g \<and> (q = start \<or> cameFrom ?st q \<noteq> None) \<and>
         fScore ?st q = Some (g + heuristic (fst q) (snd q) (fst goal) (snd goal))"
  proof (intro allI impI)
    fix q g assume g: "gScore ?st q = Some g"
    show "0 \<le> g \<and> (q = start \<or> cameFrom ?st q \<noteq> None) \<and>
         fScore ?st q = Some (g + heuristic (fst q) (snd q) (fst goal) (snd goal))"
    proof (cases "q = (nx, nz)")
      case True
      with g gc have "g = gc + cost" by simp
      with gc0 c1 True gc show ?thesis by simp
    next
      case False
      with g have "gScore st q = Some g" by simp
      from s5 [OF this] False show ?thesis by simp
    qed
  qed
  have t6: "\<forall>q \<in> openCells ?st \<union> closedSet ?st. gScore ?st q \<noteq> None"
  proof
    fix q assume "q \<in> openCells ?st \<union> closedSet ?st"
    with os have "q = (nx, nz) \<or> q \<in> openCells st \<union> closedSet st"
      by (auto simp: openCells_def)
    with s6 [of q] show "gScore ?st q \<noteq> None" by auto
  qed
  from t1 t2 t3 t4 t5 t6 show ?thesis unfolding scoreInv_def by blast
qed

lemma scoreInv_relax:
  assumes inv: "scoreInv a start goal st"
    and cur: "current \<in> closedSet st" and st: "start \<in> closedSet st"
    and e: "(nx, nz, cost) \<in> set (getNeighbors a (fst current) (snd current))"
  shows "scoreInv a start goal (relax goal current st (nx, nz, cost))"
proof (cases "(nx, nz) \<in> closedSet st")
  case True
  then show ?thesis using inv by (simp add: relax_closed)
next
  case False
  show ?thesis
  proof (cases "(nx, nz) \<in> openCells st")
    case True
    have "fst ` set (openSet st) \<subseteq> insert (nx, nz) (openCells st)"
      by (auto simp: openCells_def)
    from scoreInv_write [OF inv cur st False e this] inv
    show ?thesis by (simp add: relax_update [OF False True])
  next
    case n: False
    have "fst ` set (openSet st @
           [((nx, nz), the (gScore st current) + cost + heuristic nx nz (fst goal) (snd goal))])
         \<subseteq> insert (nx, nz) (openCells st)"
      by (auto simp: openCells_def)
    from scoreInv_write [OF inv cur st False e this]
    show ?thesis by (simp add: relax_push [OF False n])
  qed
qed

lemma scoreInv_foldl_relax:
  assumes "scoreInv a start goal st" "current \<in> closedSet st" "start \<in> closedSet st"
    and "set ns \<subseteq> set (getNeighbors a (fst current) (snd current))"
  shows "scoreInv a start goal (foldl (relax goal current) st ns)"
  using assms
proof (induction ns arbitrary: st)
  case Nil
  then show ?case by simp
next
  case (Cons n ns)
  obtain nx nz cost where n: "n = (nx, nz, cost)" by (cases n) auto
  from Cons.prems(4) have e: "(nx, nz, cost) \<in> set (getNeighbors a (fst current) (snd current))"
    and r: "set ns \<subseteq> set (getNeighbors a (fst current) (snd current))"
    by (simp_all add: n)
  from scoreInv_relax [OF Cons.prems(1,2,3) e]
  have i: "scoreInv a start goal (relax goal current st (nx, nz, cost))" .
  from Cons.IH [OF i _ _ r] Cons.prems(2,3) show ?case
    by (simp add: n relax_closedSet)
qed

lemma scoreInv_expand:
  assumes inv: "scoreInv a start goal st"
    and s: "sort_key snd (openSet st) = (current, f) # rest"
  shows "scoreInv a start goal (expand a goal current rest st)"
proof -
  from sort_key_head [OF s]
  have o: "openCells st = insert current (fst ` set rest)"
    by (auto simp: openCells_def)
  let ?st = "st\<lparr>openSet := rest, closedSet := insert current (closedSet st)\<rparr>"
  from inv o have st: "start \<in> closedSet ?st"
    by (auto simp: scoreInv_def)
  have un: "openCells ?st \<union> closedSet ?st \<subseteq> openCells st \<union> closedSet st"
    using o by (auto simp: openCells_def)
  have i: "scoreInv a start goal ?st"
    by (rule scoreInv_mono [OF inv _ _ _ _ un]) (use st in simp_all, auto)
  have cur: "current \<in> closedSet ?st" by simp
  from scoreInv_foldl_relax [OF i cur st subset_refl]
  show ?thesis by (simp add: expand_def)
qed

lemma searchLoop_sound:
  assumes "scoreInv a start goal st"
    and "fst (searchLoop a goal left iterations st) = Some (c, st1)"
  shows "c = goal \<and> scoreInv a start goal st1 \<and> gScore st1 goal \<noteq> None"
  using assms
proof (induction left arbitrary: st iterations)
  case 0
  then show ?case by simp
next
  case (Suc left)
  show ?case
  proof (cases "sort_key snd (openSet st)")
    case Nil
    with Suc.prems(2) show ?thesis by (simp add: searchLoop_Suc del: searchLoop.simps)
  next
    case (Cons e rest)
    obtain current f where e: "e = (current, f)" by (cases e)
    note s = Cons [unfolded e]
    from sort_key_head [OF s]
    have o: "openCells st = insert current (fst ` set rest)"
      by (auto simp: openCells_def)
    show ?thesis
    proof (cases "current = goal")
      case True
      with Suc.prems(2) have r: "c = goal" "st1 = st\<lparr>openSet := rest\<rparr>"
        by (simp_all add: searchLoop_Suc s del: searchLoop.simps)
      have op: "openCells st1 \<subseteq> openCells st" unfolding r using o by (auto simp: openCells_def)
      then have un: "openCells st1 \<union> closedSet st1 \<subseteq> openCells st \<union> closedSet st"
        by (auto simp: r)
      from Suc.prems(1) op have s3: "start \<in> closedSet st1 \<or> openCells st1 \<subseteq> {start}"
        by (auto simp: scoreInv_def r)
      have i: "scoreInv a start goal st1"
        by (rule scoreInv_mono [OF Suc.prems(1) _ _ _ _ un s3]) (simp_all add: r)
      from Suc.prems(1) o True have "gScore st goal \<noteq> None"
        by (auto simp: scoreInv_def)
      then have "gScore st1 goal \<noteq> None" by (simp add: r)
      with r i show ?thesis by simp
    next
      case False
      with Suc.prems(2)
      have "fst (searchLoop a goal left (Suc iterations) (expand a goal current rest st)) = Some (c, st1)"
        by (simp add: searchLoop_Suc s del: searchLoop.simps)
      from Suc.IH [OF scoreInv_expand [OF Suc.prems(1) s] this] show ?thesis .
    qed
  qed
qed

lemma route_snoc:
  assumes "ps \<noteq> []"
  shows "route a st (ps @ [q]) \<longleftrightarrow>
         route a st ps \<and> cameFrom st q = Some (last ps) \<and>
         list_ex (\<lambda>(nx, nz, cost). (nx, nz) = q \<and> gScore st q = Some (the (gScore st (last ps)) + cost))
           (getNeighbors a (fst (last ps)) (snd (last ps)))"
  using assms
proof (induction ps rule: route.induct)
  case (1 a st)
  then show ?case by simp
next
  case (2 a st p)
  then show ?case by simp
next
  case (3 a st p r ps)
  then show ?case by auto
qed

lemma scoreInv_route:
  assumes inv: "scoreInv a start goal st" and g: "gScore st q = Some g"
  shows "\<exists>ps. ps \<noteq> [] \<and> hd ps = start \<and> last ps = q \<and> route a st ps \<and> start \<notin> set (tl ps)"
  using g
proof (induction "nat \<lfloor>g\<rfloor>" arbitrary: q g rule: less_induct)
  case less
  from inv have s4: "\<And>q p. cameFrom st q = Some p \<Longrightarrow>
         p \<in> closedSet st \<and>
         (\<exists>g cost. gScore st p = Some g \<and>
            (fst q, snd q, cost) \<in> set (getNeighbors a (fst p) (snd p)) \<and>
            gScore st q = Some (g + cost))"
    and s5: "\<And>q g. gScore st q = Some g \<Longrightarrow>
         0 \<le> g \<and> (q = start \<or> cameFrom st q \<noteq> None) \<and>
         fScore st q = Some (g + heuristic (fst q) (snd q) (fst goal) (snd goal))"
    unfolding scoreInv_def by blast+
  show ?case
  proof (cases "q = start")
    case True
    have "[start] \<noteq> [] \<and> hd [start] = start \<and> last [start] = q \<and> route a st [start] \<and>
        start \<notin> set (tl [start])"
      using True by simp
    then show ?thesis by blast
  next
    case False
    with s5 [OF less.prems] obtain p where cf: "cameFrom st q = Some p" by auto
    from s4 [OF cf] obtain gp cost where gp: "gScore st p = Some gp"
      and e: "(fst q, snd q, cost) \<in> set (getNeighbors a (fst p) (snd p))"
      and gq: "gScore st q = Some (gp + cost)"
      by blast
    from gq less.prems have geq: "g = gp + cost" by simp
    from getNeighbors_cost [OF e] have c1: "1 \<le> cost" .
    from s5 [OF gp] have gp0: "0 \<le> gp" by simp
    from c1 have fl: "\<lfloor>gp\<rfloor> + 1 \<le> \<lfloor>g\<rfloor>" unfolding geq by (simp add: le_floor_iff) linarith
    from gp0 have "0 \<le> \<lfloor>gp\<rfloor>" by simp
    with fl have "nat \<lfloor>gp\<rfloor> < nat \<lfloor>g\<rfloor>" by linarith
    from less.hyps [OF this gp] obtain ps where ps: "ps \<noteq> []" "hd ps = start" "last ps = p"
      "route a st ps" "start \<notin> set (tl ps)"
      by blast
    have le: "list_ex (\<lambda>(nx, nz, cost). (nx, nz) = q \<and> gScore st q = Some (the (gScore st p) + cost))
           (getNeighbors a (fst p) (snd p))"
      unfolding list_ex_iff using e gq gp by force
    have r: "route a st (ps @ [q])"
      unfolding route_snoc [OF ps(1)] using ps cf le by simp
    have "ps @ [q] \<noteq> [] \<and> hd (ps @ [q]) = start \<and> last (ps @ [q]) = q \<and> route a st (ps @ [q]) \<and>
        start \<notin> set (tl (ps @ [q]))"
      using ps r False by simp
    then show ?thesis by blast
  qed
qed

lemma walkBack_route:
  assumes "route a st ps" "hd ps = start" "start \<notin> set (tl ps)"
  shows "walkBack a (cameFrom st) start (last ps) acc = Some (map (gridToWorld a) (tl ps) @ acc)"
  using assms
proof (induction ps arbitrary: acc rule: rev_induct)
  case Nil
  then show ?case by simp
next
  case (snoc q qs)
  show ?case
  proof (cases "qs = []")
    case True
    with snoc.prems(2) have "q = start" by simp
    then show ?thesis using True by (subst walkBack.simps) simp
  next
    case False
    from snoc.prems(1) [unfolded route_snoc [OF False]]
    have r: "route a st qs" and cf: "cameFrom st q = Some (last qs)" by simp_all
    from snoc.prems(2) False have h: "hd qs = start" by simp
    from snoc.prems(3) False have n: "start \<notin> set (tl qs)" and q: "q \<noteq> start" by auto
    from snoc.IH [OF r h n, of "gridToWorld a q # acc"]
    have "walkBack a (cameFrom st) start (last qs) (gridToWorld a q # acc) =
        Some (map (gridToWorld a) (tl qs) @ gridToWorld a q # acc)" .
    then show ?thesis using False q cf by (subst walkBack.simps) simp
  qed
qed

lemma route_steps:
  assumes "route a st ps" and "Suc i < length ps"
  shows "ps ! Suc i \<in> neighborCells a (ps ! i) \<and> cameFrom st (ps ! Suc i) = Some (ps ! i) \<and>
         (\<exists>cost. (fst (ps ! Suc i), snd (ps ! Suc i), cost) \<in> set (getNeighbors a (fst (ps ! i)) (snd (ps ! i))) \<and>
            gScore st (ps ! Suc i) = Some (the (gScore st (ps ! i)) + cost))"
  using assms
proof (induction ps arbitrary: i rule: route.induct)
  case (1 a st)
  then show ?case by simp
next
  case (2 a st p)
  then show ?case by simp
next
  case (3 a st p q ps)
  show ?case
  proof (cases i)
    case 0
    from 3(2) have cf: "cameFrom st q = Some p"
      and le: "list_ex (\<lambda>(nx, nz, cost). (nx, nz) = q \<and> gScore st q = Some (the (gScore st p) + cost))
        (getNeighbors a (fst p) (snd p))"
      by simp_all
    from le obtain cost where c: "(fst q, snd q, cost) \<in> set (getNeighbors a (fst p) (snd p))"
      "gScore st q = Some (the (gScore st p) + cost)"
      unfolding list_ex_iff by force
    from c(1) have "q \<in> neighborCells a p" by (force simp: neighborCells_def)
    with cf c show ?thesis by (auto simp: 0)
  next
    case (Suc j)
    from 3(2) have r: "route a st (q # ps)" by simp
    from 3(3) Suc have "Suc j < length (q # ps)" by simp
    from 3(1) [OF r this] show ?thesis by (simp add: Suc)
  qed
qed

lemma route_reachable:
  assumes "route a st ps"
  shows "(hd ps, last ps) \<in> reachable a"
  using assms
proof (induction ps rule: route.induct)
  case (1 a st)
  then show ?case by simp
next
  case (2 a st p)
  then show ?case by (simp add: reachable_def)
next
  case (3 a st p q ps)
  from 3(2) have r: "route a st (q # ps)"
    and le: "list_ex (\<lambda>(nx, nz, cost). (nx, nz) = q \<and> gScore st q = Some (the (gScore st p) + cost))
        (getNeighbors a (fst p) (snd p))"
    by simp_all
  from le have "q \<in> neighborCells a p"
    unfolding list_ex_iff neighborCells_def by force
  then have "(p, q) \<in> reachable a" by (auto simp: reachable_def)
  moreover from 3(1) [OF r] have "(q, last (q # ps)) \<in> reachable a" by simp
  ultimately show ?case unfolding reachable_def by simp
qed

lemma search_result:
  assumes "fst (searchLoop a goal n 0 (initialSearch start goal)) = Some (c, st1)"
  shows "c = goal \<and> gScore st1 start = Some 0 \<and>
         (\<forall>q g. gScore st1 q = Some g \<longrightarrow>
            fScore st1 q = Some (g + heuristic (fst q) (snd q) (fst goal) (snd goal))) \<and>
         (\<exists>ps. ps \<noteq> [] \<and> hd ps = start \<and> last ps = goal \<and> route a st1 ps \<and>
            (\<forall>i. Suc i < length ps \<longrightarrow> ps ! Suc i \<in> neighborCells a (ps ! i)) \<and>
            reconstructPath a st1 goal start = Some (simplifyPath (map (gridToWorld a) (tl ps)))) \<and>
         (start, goal) \<in> reachable a"
proof -
  from searchLoop_sound [OF scoreInv_initial assms]
  have c: "c = goal" and inv: "scoreInv a start goal st1" and g: "gScore st1 goal \<noteq> None"
    by simp_all
  from inv have s1: "gScore st1 start = Some 0"
    and s5: "\<forall>q g. gScore st1 q = Some g \<longrightarrow>
            fScore st1 q = Some (g + heuristic (fst q) (snd q) (fst goal) (snd goal))"
    unfolding scoreInv_def by blast+
  from g obtain gg where "gScore st1 goal = Some gg" by auto
  from scoreInv_route [OF inv this] obtain ps where ps: "ps \<noteq> []" "hd ps = start" "last ps = goal"
    "route a st1 ps" "start \<notin> set (tl ps)"
    by blast
  from walkBack_route [OF ps(4,2,5), of "[]"]
  have w: "reconstructPath a st1 goal start = Some (simplifyPath (map (gridToWorld a) (tl ps)))"
    by (simp add: reconstructPath_def ps(3))
  have st: "\<forall>i. Suc i < length ps \<longrightarrow> ps ! Suc i \<in> neighborCells a (ps ! i)"
    using route_steps [OF ps(4)] by blast
  from route_reachable [OF ps(4)] have r: "(start, goal) \<in> reachable a"
    by (simp add: ps)
  from c s1 s5 ps w st r show ?thesis by blast
qed

lemma findPath_returns: "findPath a startWorld goalWorld maxIterations \<noteq> None"
proof (cases "snapToWalkable a (worldToGrid a startWorld)")
  case None
  then show ?thesis by (simp add: findPath_def)
next
  case (Some start)
  note s = Some
  show ?thesis
  proof (cases "snapToWalkable a (worldToGrid a goalWorld)")
    case None
    then show ?thesis by (simp add: findPath_def s)
  next
    case (Some goal)
    note g = Some
    show ?thesis
    proof (cases "fst (searchLoop a goal maxIterations 0 (initialSearch start goal))")
      case None
      then show ?thesis by (simp add: findPath_def s g)
    next
      case (Some r)
      obtain c st1 where r: "r = (c, st1)" by (cases r)
      from search_result [OF Some [unfolded r]] obtain ps
        where "c = goal" "reconstructPath a st1 goal start = Some (simplifyPath (map (gridToWorld a) (tl ps)))"
        by blast
      then show ?thesis by (simp add: findPath_def s g Some r)
    qed
  qed
qed

lemma improves_iff:
  "improves tentativeG known \<longleftrightarrow>
     known = None \<or> known = Some 0 \<or> (\<exists>g. known = Some g \<and> tentativeG < g)"
  by (auto simp: improves_def split: option.splits)

lemma search_complete:
  assumes "cellWalkable a (fst start) (snd start)" and "(start, goal) \<in> reachable a"
    and "nat (as_width a) * nat (as_height a) \<le> maxIterations"
  shows "fst (searchLoop a goal maxIterations 0 (initialSearch start goal)) \<noteq> None"
proof -
  have "card (gridCells a - closedSet (initialSearch start goal)) \<le> maxIterations"
    using assms(3) by (simp add: initialSearch_def Let_def card_gridCells)
  from searchLoop_complete [OF coverInv_initial [OF assms(1)] assms(2) this] show ?thesis .
qed

lemma searchLoop_numeral:
  "searchLoop a goal (numeral k) iterations st =
     (case sort_key snd (openSet st) of
        [] \<Rightarrow> (None, iterations)
      | (current, f) # rest \<Rightarrow>
          if current = goal then (Some (current, st\<lparr>openSet := rest\<rparr>), Suc iterations)
          else searchLoop a goal (pred_numeral k) (Suc iterations) (expand a goal current rest st))"
  by (simp only: numeral_eq_Suc searchLoop_Suc)

lemma open_astar_corner:
  "getNeighbors open_astar 0 0 = [(1, 0, 1), (0, 1, 1), (1, 1, 1.414)]"
  by (simp add: getNeighbors_def neighborDirections_def cellWalkable_def open_astar_def nth_opt_def)

lemma open_astar_first_step:
  "expand open_astar (1, 1) (0, 0) [] (initialSearch (0, 0) (1, 1)) =
     \<lparr>openSet = [((1, 0), 2), ((0, 1), 2), ((1, 1), 1.414)],
      closedSet = {(0, 0)},
      gScore = [(0, 0) \<mapsto> 0, (1, 0) \<mapsto> 1, (0, 1) \<mapsto> 1, (1, 1) \<mapsto> 1.414],
      fScore = [(0, 0) \<mapsto> sqrt 2, (1, 0) \<mapsto> 2, (0, 1) \<mapsto> 2, (1, 1) \<mapsto> 1.414],
      cameFrom = [(1, 0) \<mapsto> (0, 0), (0, 1) \<mapsto> (0, 0), (1, 1) \<mapsto> (0, 0)]\<rparr>"
  by (simp add: expand_def open_astar_corner initialSearch_def relax_def heuristic_def Let_def improves_def)

lemma open_astar_search:
  "searchLoop open_astar (1, 1) 2000 0 (initialSearch (0, 0) (1, 1)) =
     (Some ((1, 1),
        \<lparr>openSet = [((1, 0), 2), ((0, 1), 2)],
         closedSet = {(0, 0)},
         gScore = [(0, 0) \<mapsto> 0, (1, 0) \<mapsto> 1, (0, 1) \<mapsto> 1, (1, 1) \<mapsto> 1.414],
         fScore = [(0, 0) \<mapsto> sqrt 2, (1, 0) \<mapsto> 2, (0, 1) \<mapsto> 2, (1, 1) \<mapsto> 1.414],
         cameFrom = [(1, 0) \<mapsto> (0, 0), (0, 1) \<mapsto> (0, 0), (1, 1) \<mapsto> (0, 0)]\<rparr>), 2)"
proof -
  have s0: "sort_key snd (openSet (initialSearch (0, 0) (1, 1))) = [((0, 0), sqrt 2)]"
    by (simp add: initialSearch_def heuristic_def Let_def)
  have "searchLoop open_astar (1, 1) 2000 0 (initialSearch (0, 0) (1, 1)) =
      searchLoop open_astar (1, 1) 1999 1 (expand open_astar (1, 1) (0, 0) [] (initialSearch (0, 0) (1, 1)))"
    by (simp add: searchLoop_numeral s0 del: searchLoop.simps)
  also have "\<dots> = (Some ((1, 1),
        \<lparr>openSet = [((1, 0), 2), ((0, 1), 2)],
         closedSet = {(0, 0)},
         gScore = [(0, 0) \<mapsto> 0, (1, 0) \<mapsto> 1, (0, 1) \<mapsto> 1, (1, 1) \<mapsto> 1.414],
         fScore = [(0, 0) \<mapsto> sqrt 2, (1, 0) \<mapsto> 2, (0, 1) \<mapsto> 2, (1, 1) \<mapsto> 1.414],
         cameFrom = [(1, 0) \<mapsto> (0, 0), (0, 1) \<mapsto> (0, 0), (1, 1) \<mapsto> (0, 0)]\<rparr>), 2)"
    unfolding open_astar_first_step
    by (simp add: searchLoop_numeral del: searchLoop.simps)
  finally show ?thesis .
qed

subsection \<open>The random number generator and the spawn points\<close>














subsection \<open>Writes to the collision grid\<close>











lemma playerSpawnSlots_head:
  "fst (playerSpawnSlots bds zone c (Suc n)) =
     (fst (drawSpawn bds zone c 0), snd (snd (drawSpawn bds zone c 0))) #
     fst (playerSpawnSlots bds zone (fst (snd (drawSpawn bds zone c 0))) n)"
  by (simp add: split_beta)

















section \<open>Claims\<close>

text \<open>
  C2, as the code has it. For every map, position, desired position and radius, the
  position that \<^verbatim>\<open>moveWithCollision\<close> returns is circle-walkable or is the unchanged
  starting position, and it is the starting position when no position of the probe set
  is circle-walkable. When the displacement on each axis is zero or larger than 0.001
  in absolute value and some position of the probe set is circle-walkable, the
  returned position is circle-walkable. (Below the threshold of 0.001 the function
  probes nothing on that axis, or nothing at all.)
\<close>

theorem moveWithCollision_safety:
  fixes m :: map_manager and cx cz dX dZ r :: real
  defines "res \<equiv> moveWithCollision m cx cz dX dZ r"
  shows "(isCircleWalkable m (fst res) (snd res) r \<or> res = (cx, cz)) \<and>
         ((\<forall>p \<in> set (probeSet cx cz dX dZ). \<not> isCircleWalkable m (fst p) (snd p) r)
            \<longrightarrow> res = (cx, cz)) \<and>
         ((dX - cx = 0 \<or> \<bar>dX - cx\<bar> > 0.001) \<and> (dZ - cz = 0 \<or> \<bar>dZ - cz\<bar> > 0.001) \<and>
          (\<exists>p \<in> set (probeSet cx cz dX dZ). isCircleWalkable m (fst p) (snd p) r)
            \<longrightarrow> isCircleWalkable m (fst res) (snd res) r)"
proof (intro conjI impI)
  show "isCircleWalkable m (fst res) (snd res) r \<or> res = (cx, cz)"
    unfolding res_def by (rule moveWithCollision_walkable_or_start)
next
  assume "\<forall>p \<in> set (probeSet cx cz dX dZ). \<not> isCircleWalkable m (fst p) (snd p) r"
  then show "res = (cx, cz)"
    unfolding res_def by (rule moveWithCollision_all_blocked)
next
  assume a: "(dX - cx = 0 \<or> \<bar>dX - cx\<bar> > 0.001) \<and> (dZ - cz = 0 \<or> \<bar>dZ - cz\<bar> > 0.001) \<and>
          (\<exists>p \<in> set (probeSet cx cz dX dZ). isCircleWalkable m (fst p) (snd p) r)"
  show "isCircleWalkable m (fst res) (snd res) r"
  proof (rule ccontr)
    assume "\<not> isCircleWalkable m (fst res) (snd res) r"
    then have "\<forall>p \<in> set (probeSet cx cz dX dZ). \<not> isCircleWalkable m (fst p) (snd p) r"
      unfolding res_def using a by (intro moveWithCollision_blocked_result) simp_all
    with a show False by blast
  qed
qed

text \<open>
  On the map with one blocked cell, a move from (0.25, 0.25) to (-0.25, 0.25), into the
  blocked cell, slides along the X axis: the third shortened step, to (0.01, 0.25), is
  the first that is walkable.
\<close>

theorem moveWithCollision_safety_witness:
  "(-0.25 - 0.25 = (0::real) \<or> \<bar>-0.25 - 0.25 :: real\<bar> > 0.001) \<and>
   (0.25 - 0.25 = (0::real) \<or> \<bar>0.25 - 0.25 :: real\<bar> > 0.001) \<and>
   (0.01, 0.25) \<in> set (probeSet 0.25 0.25 (-0.25) 0.25) \<and>
   isCircleWalkable wall_map 0.01 0.25 0 \<and>
   \<not> isCircleWalkable wall_map (-0.25) 0.25 0 \<and>
   moveWithCollision wall_map 0.25 0.25 (-0.25) 0.25 0 = (0.01, 0.25) \<and>
   isCircleWalkable wall_map (fst (moveWithCollision wall_map 0.25 0.25 (-0.25) 0.25 0))
     (snd (moveWithCollision wall_map 0.25 0.25 (-0.25) 0.25 0)) 0"
proof -
  have w: "isWalkable wall_map x z = (\<not> isBlocked wall_map x z)" for x z
    by (simp add: isWalkable_def)
  have b1: "isBlocked wall_map (-0.25) 0.25" and b2: "isBlocked wall_map (-0.07) 0.25"
    and b3: "\<not> isBlocked wall_map 0.01 0.25"
    by (simp_all add: isBlocked_def wall_map_def open_map_def nth_opt_def Let_def)
  have mv: "moveWithCollision wall_map 0.25 0.25 (-0.25) 0.25 0 = (0.01, 0.25)"
    using b1 b2 b3
    by (simp add: moveWithCollision_def slideX_def slideSteps_def slideSmoothing_def
        isCircleWalkable_radius_0 w Let_def)
  have tx: "-0.25 - 0.25 = (0::real) \<or> \<bar>-0.25 - 0.25 :: real\<bar> > 0.001"
    and tz: "0.25 - 0.25 = (0::real) \<or> \<bar>0.25 - 0.25 :: real\<bar> > 0.001"
    by simp_all
  have mem: "(0.01, 0.25) \<in> set (probeSet 0.25 0.25 (-0.25) 0.25)"
    by (simp add: probeSet_def slideSteps_def slideSmoothing_def Let_def)
  have wk: "isCircleWalkable wall_map 0.01 0.25 0"
    using b3 by (simp add: isCircleWalkable_radius_0 w)
  have nw: "\<not> isCircleWalkable wall_map (-0.25) 0.25 0"
    using b1 by (simp add: isCircleWalkable_radius_0 w)
  from mem wk have ex: "\<exists>p \<in> set (probeSet 0.25 0.25 (-0.25) 0.25).
      isCircleWalkable wall_map (fst p) (snd p) 0"
    by force
  from moveWithCollision_safety [of wall_map "0.25" "0.25" "-0.25" "0.25" 0] tx tz ex
  have "isCircleWalkable wall_map (fst (moveWithCollision wall_map 0.25 0.25 (-0.25) 0.25 0))
     (snd (moveWithCollision wall_map 0.25 0.25 (-0.25) 0.25 0)) 0"
    by blast
  with tx tz mem wk nw mv show ?thesis by blast
qed

text \<open>
  The claim as written fails below the threshold. From (-0.0004, 0.1), inside the blocked
  cell, towards (0.0004, 0.1), which is walkable and is the full move of the probe
  set, the function returns the starting position, which is not walkable.
\<close>

theorem moveWithCollision_small_step_counterexample:
  "\<bar>0.0004 - (-0.0004) :: real\<bar> < 0.001 \<and>
   isCircleWalkable wall_map 0.0004 0.1 0 \<and>
   (0.0004, 0.1) \<in> set (probeSet (-0.0004) 0.1 0.0004 0.1) \<and>
   moveWithCollision wall_map (-0.0004) 0.1 0.0004 0.1 0 = (-0.0004, 0.1) \<and>
   \<not> isCircleWalkable wall_map (fst (moveWithCollision wall_map (-0.0004) 0.1 0.0004 0.1 0))
        (snd (moveWithCollision wall_map (-0.0004) 0.1 0.0004 0.1 0)) 0"
proof -
  have w: "isWalkable wall_map x z = (\<not> isBlocked wall_map x z)" for x z
    by (simp add: isWalkable_def)
  have b1: "isBlocked wall_map (-0.0004) 0.1" and b2: "\<not> isBlocked wall_map 0.0004 0.1"
    by (simp_all add: isBlocked_def wall_map_def open_map_def nth_opt_def Let_def)
  have mv: "moveWithCollision wall_map (-0.0004) 0.1 0.0004 0.1 0 = (-0.0004, 0.1)"
    by (simp add: moveWithCollision_def Let_def)
  have mem: "(0.0004, 0.1) \<in> set (probeSet (-0.0004) 0.1 0.0004 0.1)"
    by (simp add: probeSet_def Let_def)
  show ?thesis
    using b1 b2 mem mv by (simp add: isCircleWalkable_radius_0 w)
qed

text \<open>
  C3, with the diagonal cost that the code has. \<^verbatim>\<open>getNeighbors\<close> returns exactly the
  walkable cells one king's move away: a cardinal step costs 1, a diagonal step costs the
  constant 1.414 (less than the square root of 2, by under 0.001) and is returned only
  when both adjacent cardinal cells are walkable. The heuristic is the Euclidean distance
  between the cells.

  The search uses them as follows. An iteration takes from the open set an entry whose
  \<open>f\<close> is least; when its cell is the goal the search ends there, and otherwise the cell
  is closed and the loop over its neighbours from \<^verbatim>\<open>getNeighbors\<close> runs. That loop
  leaves a closed neighbour alone; it gives a neighbour that is not open the \<open>g\<close> of the
  current cell plus the cost of the step, \<open>f\<close> equal to that \<open>g\<close> plus the heuristic to
  the goal, the current cell as its \<^verbatim>\<open>cameFrom\<close>, and pushes it with this \<open>f\<close>; and
  it rewrites the three maps of an open neighbour when the new \<open>g\<close> is smaller than the
  recorded one (or none, or 0, is recorded), leaving its entry in the open set as it is. When the search ends at a cell, that cell is the
  goal; there is a route from the start to the goal in which every cell was reached from
  the one before by a step of \<^verbatim>\<open>getNeighbors\<close> and has the \<open>g\<close> of that cell plus the
  cost of the step; every \<open>f\<close> in the map is \<open>g\<close> plus the heuristic; and
  \<^verbatim>\<open>reconstructPath\<close> returns the waypoints of that route, simplified. A goal that can be
  reached by steps of \<^verbatim>\<open>getNeighbors\<close> is found when \<^verbatim>\<open>maxIterations\<close> is at least the
  number of cells of the grid.

  The loop never runs more iterations than \<^verbatim>\<open>maxIterations\<close> (2000 by default); with
  none left, or with the open set empty, it stops with no result, and \<^verbatim>\<open>findPath\<close> then
  returns null. \<^verbatim>\<open>findPath\<close> always returns.
\<close>

theorem astar_search_rules:
  "(\<forall>n \<in> set (getNeighbors a x z). case n of (nx, nz, cost) \<Rightarrow>
      cellWalkable a nx nz \<and> \<bar>nx - x\<bar> \<le> 1 \<and> \<bar>nz - z\<bar> \<le> 1 \<and> (nx, nz) \<noteq> (x, z) \<and>
      (if nx \<noteq> x \<and> nz \<noteq> z
       then cost = 1.414 \<and> cellWalkable a nx z \<and> cellWalkable a x nz
       else cost = 1)) \<and>
   (\<forall>dx dz. \<bar>dx\<bar> \<le> 1 \<and> \<bar>dz\<bar> \<le> 1 \<and> (dx, dz) \<noteq> (0, 0) \<and> cellWalkable a (x + dx) (z + dz) \<and>
      (dx \<noteq> 0 \<and> dz \<noteq> 0 \<longrightarrow> cellWalkable a (x + dx) z \<and> cellWalkable a x (z + dz))
      \<longrightarrow> (x + dx, z + dz, if dx \<noteq> 0 \<and> dz \<noteq> 0 then 1.414 else 1) \<in> set (getNeighbors a x z)) \<and>
   \<bar>1.414 - sqrt 2\<bar> < (0.001 :: real) \<and>
   heuristic ax az bx bz =
     sqrt ((real_of_int bx - real_of_int ax)\<^sup>2 + (real_of_int bz - real_of_int az)\<^sup>2) \<and>
   snd (searchLoop a goal maxIterations 0 st) \<le> maxIterations \<and>
   searchLoop a goal 0 iterations st = (None, iterations) \<and>
   (\<forall>start goal1. snapToWalkable a (worldToGrid a startWorld) = Some start \<longrightarrow>
      snapToWalkable a (worldToGrid a goalWorld) = Some goal1 \<longrightarrow>
      fst (searchLoop a goal1 maxIterations 0 (initialSearch start goal1)) = None \<longrightarrow>
      findPath a startWorld goalWorld maxIterations = Some NoPath) \<and>
   findPathDefault a startWorld goalWorld = findPath a startWorld goalWorld 2000 \<and>
   (openSet st = [] \<longrightarrow> searchLoop a goal maxIterations iterations st = (None, iterations)) \<and>
   (openSet st \<noteq> [] \<longrightarrow>
      (\<exists>current f rest.
         (current, f) \<in> set (openSet st) \<and> (\<forall>e \<in> set (openSet st). f \<le> snd e) \<and>
         set (openSet st) = insert (current, f) (set rest) \<and>
         length (openSet st) = Suc (length rest) \<and>
         searchLoop a goal (Suc left) iterations st =
           (if current = goal then (Some (current, st\<lparr>openSet := rest\<rparr>), Suc iterations)
            else searchLoop a goal left (Suc iterations)
                   (foldl (relax goal current)
                      (st\<lparr>openSet := rest, closedSet := insert current (closedSet st)\<rparr>)
                      (getNeighbors a (fst current) (snd current)))))) \<and>
   ((nx, nz) \<in> closedSet st \<longrightarrow> relax goal current st (nx, nz, cost) = st) \<and>
   ((nx, nz) \<notin> closedSet st \<and> (nx, nz) \<notin> fst ` set (openSet st) \<longrightarrow>
      relax goal current st (nx, nz, cost) =
        st\<lparr>cameFrom := (cameFrom st)((nx, nz) \<mapsto> current),
           gScore := (gScore st)((nx, nz) \<mapsto> the (gScore st current) + cost),
           fScore := (fScore st)((nx, nz) \<mapsto>
              the (gScore st current) + cost + heuristic nx nz (fst goal) (snd goal)),
           openSet := openSet st @
              [((nx, nz), the (gScore st current) + cost + heuristic nx nz (fst goal) (snd goal))]\<rparr>) \<and>
   ((nx, nz) \<notin> closedSet st \<and> (nx, nz) \<in> fst ` set (openSet st) \<longrightarrow>
      relax goal current st (nx, nz, cost) =
        (if gScore st (nx, nz) = None \<or> gScore st (nx, nz) = Some 0 \<or>
            (\<exists>g. gScore st (nx, nz) = Some g \<and> the (gScore st current) + cost < g)
         then st\<lparr>cameFrom := (cameFrom st)((nx, nz) \<mapsto> current),
                 gScore := (gScore st)((nx, nz) \<mapsto> the (gScore st current) + cost),
                 fScore := (fScore st)((nx, nz) \<mapsto>
                    the (gScore st current) + cost + heuristic nx nz (fst goal) (snd goal))\<rparr>
         else st)) \<and>
   (\<forall>start c st1.
      fst (searchLoop a goal maxIterations 0 (initialSearch start goal)) = Some (c, st1) \<longrightarrow>
      c = goal \<and> gScore st1 start = Some 0 \<and>
      (\<forall>q g. gScore st1 q = Some g \<longrightarrow>
         fScore st1 q = Some (g + heuristic (fst q) (snd q) (fst goal) (snd goal))) \<and>
      (\<exists>ps. ps \<noteq> [] \<and> hd ps = start \<and> last ps = goal \<and> route a st1 ps \<and>
         (\<forall>i. Suc i < length ps \<longrightarrow> ps ! Suc i \<in> neighborCells a (ps ! i)) \<and>
         reconstructPath a st1 goal start = Some (simplifyPath (map (gridToWorld a) (tl ps)))) \<and>
      (start, goal) \<in> reachable a) \<and>
   (\<forall>start. cellWalkable a (fst start) (snd start) \<and> (start, goal) \<in> reachable a \<and>
      nat (as_width a) * nat (as_height a) \<le> maxIterations \<longrightarrow>
      fst (searchLoop a goal maxIterations 0 (initialSearch start goal)) \<noteq> None) \<and>
   (\<forall>start goal1 c st1. snapToWalkable a (worldToGrid a startWorld) = Some start \<longrightarrow>
      snapToWalkable a (worldToGrid a goalWorld) = Some goal1 \<longrightarrow>
      fst (searchLoop a goal1 maxIterations 0 (initialSearch start goal1)) = Some (c, st1) \<longrightarrow>
      findPath a startWorld goalWorld maxIterations = map_option Path (reconstructPath a st1 c start)) \<and>
   findPath a startWorld goalWorld maxIterations \<noteq> None"
proof -
  have n1: "\<forall>n \<in> set (getNeighbors a x z). case n of (nx, nz, cost) \<Rightarrow>
      cellWalkable a nx nz \<and> \<bar>nx - x\<bar> \<le> 1 \<and> \<bar>nz - z\<bar> \<le> 1 \<and> (nx, nz) \<noteq> (x, z) \<and>
      (if nx \<noteq> x \<and> nz \<noteq> z
       then cost = 1.414 \<and> cellWalkable a nx z \<and> cellWalkable a x nz
       else cost = 1)"
  proof
    fix n assume mem: "n \<in> set (getNeighbors a x z)"
    obtain nx nz cost where n: "n = (nx, nz, cost)" by (cases n) auto
    from getNeighbors_sound [OF mem [unfolded n]]
    show "case n of (nx, nz, cost) \<Rightarrow>
      cellWalkable a nx nz \<and> \<bar>nx - x\<bar> \<le> 1 \<and> \<bar>nz - z\<bar> \<le> 1 \<and> (nx, nz) \<noteq> (x, z) \<and>
      (if nx \<noteq> x \<and> nz \<noteq> z
       then cost = 1.414 \<and> cellWalkable a nx z \<and> cellWalkable a x nz
       else cost = 1)"
      unfolding n prod.case .
  qed
  have n2: "\<forall>dx dz. \<bar>dx\<bar> \<le> 1 \<and> \<bar>dz\<bar> \<le> 1 \<and> (dx, dz) \<noteq> (0, 0) \<and> cellWalkable a (x + dx) (z + dz) \<and>
      (dx \<noteq> 0 \<and> dz \<noteq> 0 \<longrightarrow> cellWalkable a (x + dx) z \<and> cellWalkable a x (z + dz))
      \<longrightarrow> (x + dx, z + dz, if dx \<noteq> 0 \<and> dz \<noteq> 0 then 1.414 else 1) \<in> set (getNeighbors a x z)"
    using getNeighbors_complete [of _ _ a x z] by blast
  have lo: "(1.414 :: real) < sqrt 2"
    by (rule real_less_rsqrt) (simp add: power2_eq_square)
  have hi: "sqrt 2 < (1.415 :: real)"
    by (rule real_less_lsqrt) (simp_all add: power2_eq_square)
  from lo hi have n3: "\<bar>1.414 - sqrt 2\<bar> < (0.001 :: real)" by simp
  have n4: "heuristic ax az bx bz =
     sqrt ((real_of_int bx - real_of_int ax)\<^sup>2 + (real_of_int bz - real_of_int az)\<^sup>2)"
    by (rule heuristic_euclidean)
  have n5: "snd (searchLoop a goal maxIterations 0 st) \<le> maxIterations"
    using searchLoop_iterations [of a goal maxIterations 0 st] by simp
  have n6: "searchLoop a goal 0 iterations st = (None, iterations)" by simp
  have n7: "\<forall>start goal1. snapToWalkable a (worldToGrid a startWorld) = Some start \<longrightarrow>
      snapToWalkable a (worldToGrid a goalWorld) = Some goal1 \<longrightarrow>
      fst (searchLoop a goal1 maxIterations 0 (initialSearch start goal1)) = None \<longrightarrow>
      findPath a startWorld goalWorld maxIterations = Some NoPath"
    by (simp add: findPath_def)
  have n8: "findPathDefault a startWorld goalWorld = findPath a startWorld goalWorld 2000"
    by (rule findPathDefault_def)
  have m1: "openSet st = [] \<longrightarrow> searchLoop a goal maxIterations iterations st = (None, iterations)"
    using searchLoop_empty by blast
  have m2: "openSet st \<noteq> [] \<longrightarrow>
      (\<exists>current f rest.
         (current, f) \<in> set (openSet st) \<and> (\<forall>e \<in> set (openSet st). f \<le> snd e) \<and>
         set (openSet st) = insert (current, f) (set rest) \<and>
         length (openSet st) = Suc (length rest) \<and>
         searchLoop a goal (Suc left) iterations st =
           (if current = goal then (Some (current, st\<lparr>openSet := rest\<rparr>), Suc iterations)
            else searchLoop a goal left (Suc iterations)
                   (foldl (relax goal current)
                      (st\<lparr>openSet := rest, closedSet := insert current (closedSet st)\<rparr>)
                      (getNeighbors a (fst current) (snd current)))))"
    using searchLoop_step [of st a goal left iterations] unfolding expand_def by blast
  have m3: "(nx, nz) \<in> closedSet st \<longrightarrow> relax goal current st (nx, nz, cost) = st"
    using relax_closed by blast
  have m4: "(nx, nz) \<notin> closedSet st \<and> (nx, nz) \<notin> fst ` set (openSet st) \<longrightarrow>
      relax goal current st (nx, nz, cost) =
        st\<lparr>cameFrom := (cameFrom st)((nx, nz) \<mapsto> current),
           gScore := (gScore st)((nx, nz) \<mapsto> the (gScore st current) + cost),
           fScore := (fScore st)((nx, nz) \<mapsto>
              the (gScore st current) + cost + heuristic nx nz (fst goal) (snd goal)),
           openSet := openSet st @
              [((nx, nz), the (gScore st current) + cost + heuristic nx nz (fst goal) (snd goal))]\<rparr>"
    using relax_push [of nx nz st goal current cost] unfolding openCells_def by blast
  have m5: "(nx, nz) \<notin> closedSet st \<and> (nx, nz) \<in> fst ` set (openSet st) \<longrightarrow>
      relax goal current st (nx, nz, cost) =
        (if gScore st (nx, nz) = None \<or> gScore st (nx, nz) = Some 0 \<or>
            (\<exists>g. gScore st (nx, nz) = Some g \<and> the (gScore st current) + cost < g)
         then st\<lparr>cameFrom := (cameFrom st)((nx, nz) \<mapsto> current),
                 gScore := (gScore st)((nx, nz) \<mapsto> the (gScore st current) + cost),
                 fScore := (fScore st)((nx, nz) \<mapsto>
                    the (gScore st current) + cost + heuristic nx nz (fst goal) (snd goal))\<rparr>
         else st)"
    using relax_update [of nx nz st goal current cost] unfolding openCells_def improves_iff by blast
  have m6: "\<forall>start c st1.
      fst (searchLoop a goal maxIterations 0 (initialSearch start goal)) = Some (c, st1) \<longrightarrow>
      c = goal \<and> gScore st1 start = Some 0 \<and>
      (\<forall>q g. gScore st1 q = Some g \<longrightarrow>
         fScore st1 q = Some (g + heuristic (fst q) (snd q) (fst goal) (snd goal))) \<and>
      (\<exists>ps. ps \<noteq> [] \<and> hd ps = start \<and> last ps = goal \<and> route a st1 ps \<and>
         (\<forall>i. Suc i < length ps \<longrightarrow> ps ! Suc i \<in> neighborCells a (ps ! i)) \<and>
         reconstructPath a st1 goal start = Some (simplifyPath (map (gridToWorld a) (tl ps)))) \<and>
      (start, goal) \<in> reachable a"
    by (intro allI impI) (rule search_result)
  have m7: "\<forall>start. cellWalkable a (fst start) (snd start) \<and> (start, goal) \<in> reachable a \<and>
      nat (as_width a) * nat (as_height a) \<le> maxIterations \<longrightarrow>
      fst (searchLoop a goal maxIterations 0 (initialSearch start goal)) \<noteq> None"
    using search_complete by blast
  have m8: "findPath a startWorld goalWorld maxIterations \<noteq> None"
    by (rule findPath_returns)
  have m9: "\<forall>start goal1 c st1. snapToWalkable a (worldToGrid a startWorld) = Some start \<longrightarrow>
      snapToWalkable a (worldToGrid a goalWorld) = Some goal1 \<longrightarrow>
      fst (searchLoop a goal1 maxIterations 0 (initialSearch start goal1)) = Some (c, st1) \<longrightarrow>
      findPath a startWorld goalWorld maxIterations = map_option Path (reconstructPath a st1 c start)"
    by (simp add: findPath_def)
  show ?thesis
    by (intro conjI) (fact n1 n2 n3 n4 n5 n6 n7 n8 m1 m2 m3 m4 m5 m6 m7 m8 m9)+
qed

text \<open>
  On the open grid of 4 by 4 cells. From the cell (1, 1): the diagonal neighbours and
  the cells beside them. A search from the cell (0, 0) to the cell (3, 3) that is allowed
  one iteration ends with no path. A search from (0, 0) to (1, 1) with the default cap:
  the goal can be reached and the grid has 16 cells, so the search finds it; it does
  so in 2 iterations, the first of which opens (1, 0) and (0, 1) with \<open>f\<close> = 2 and then
  the goal with \<open>g\<close> = \<open>f\<close> = 1.414, which the second takes first; the path is the one
  waypoint at the centre of the cell (1, 1).
\<close>

theorem astar_search_rules_witness:
  "(2, 0, 1.414) \<in> set (getNeighbors open_astar 1 1) \<and>
   cellWalkable open_astar 2 0 \<and> cellWalkable open_astar 2 1 \<and> cellWalkable open_astar 1 0 \<and>
   (\<bar>1\<bar> \<le> (1::int) \<and> \<bar>1\<bar> \<le> (1::int) \<and> ((1::int), (1::int)) \<noteq> (0, 0) \<and>
    cellWalkable open_astar (1 + 1) (1 + 1) \<and> cellWalkable open_astar (1 + 1) 1 \<and>
    cellWalkable open_astar 1 (1 + 1)) \<and>
   (2, 2, 1.414) \<in> set (getNeighbors open_astar 1 1) \<and>
   snapToWalkable open_astar (worldToGrid open_astar (-0.75, -0.75)) = Some (0, 0) \<and>
   snapToWalkable open_astar (worldToGrid open_astar (0.75, 0.75)) = Some (3, 3) \<and>
   fst (searchLoop open_astar (3, 3) 1 0 (initialSearch (0, 0) (3, 3))) = None \<and>
   findPath open_astar (-0.75, -0.75) (0.75, 0.75) 1 = Some NoPath \<and>
   cellWalkable open_astar 0 0 \<and> ((0, 0), (1, 1)) \<in> reachable open_astar \<and>
   nat (as_width open_astar) * nat (as_height open_astar) \<le> 2000 \<and>
   fst (searchLoop open_astar (1, 1) 2000 0 (initialSearch (0, 0) (1, 1))) \<noteq> None \<and>
   searchLoop open_astar (1, 1) 2000 0 (initialSearch (0, 0) (1, 1)) =
     (Some ((1, 1),
        \<lparr>openSet = [((1, 0), 2), ((0, 1), 2)],
         closedSet = {(0, 0)},
         gScore = [(0, 0) \<mapsto> 0, (1, 0) \<mapsto> 1, (0, 1) \<mapsto> 1, (1, 1) \<mapsto> 1.414],
         fScore = [(0, 0) \<mapsto> sqrt 2, (1, 0) \<mapsto> 2, (0, 1) \<mapsto> 2, (1, 1) \<mapsto> 1.414],
         cameFrom = [(1, 0) \<mapsto> (0, 0), (0, 1) \<mapsto> (0, 0), (1, 1) \<mapsto> (0, 0)]\<rparr>), 2) \<and>
   (\<exists>ps. ps \<noteq> [] \<and> hd ps = (0, 0) \<and> last ps = (1, 1) \<and>
      route open_astar
        \<lparr>openSet = [((1, 0), 2), ((0, 1), 2)],
         closedSet = {(0, 0)},
         gScore = [(0, 0) \<mapsto> 0, (1, 0) \<mapsto> 1, (0, 1) \<mapsto> 1, (1, 1) \<mapsto> 1.414],
         fScore = [(0, 0) \<mapsto> sqrt 2, (1, 0) \<mapsto> 2, (0, 1) \<mapsto> 2, (1, 1) \<mapsto> 1.414],
         cameFrom = [(1, 0) \<mapsto> (0, 0), (0, 1) \<mapsto> (0, 0), (1, 1) \<mapsto> (0, 0)]\<rparr> ps) \<and>
   snapToWalkable open_astar (worldToGrid open_astar (-0.25, -0.25)) = Some (1, 1) \<and>
   findPath open_astar (-0.75, -0.75) (-0.25, -0.25) 2000 = Some (Path [(-0.25, -0.25)]) \<and>
   relax (1, 1) (0, 0)
     (initialSearch (0, 0) (1, 1)\<lparr>openSet := [], closedSet := {(0, 0)}\<rparr>) (1, 1, 1.414) =
     initialSearch (0, 0) (1, 1)
       \<lparr>openSet := [((1, 1), 1.414)], closedSet := {(0, 0)},
        cameFrom := [(1, 1) \<mapsto> (0, 0)],
        gScore := [(0, 0) \<mapsto> 0, (1, 1) \<mapsto> 1.414],
        fScore := [(0, 0) \<mapsto> sqrt 2, (1, 1) \<mapsto> 1.414]\<rparr>"
proof -
  note inst = astar_search_rules [where a = open_astar and x = 1 and z = 1
      and startWorld = "(-0.75, -0.75)" and goalWorld = "(0.75, 0.75)" and maxIterations = 1]
  have m: "(2, 0, 1.414) \<in> set (getNeighbors open_astar 1 1)"
    by (simp add: getNeighbors_open_center)
  from inst [THEN conjunct1, rule_format, OF m]
  have w: "cellWalkable open_astar 2 0 \<and> cellWalkable open_astar 2 1 \<and> cellWalkable open_astar 1 0"
    by simp
  have h: "\<bar>1\<bar> \<le> (1::int) \<and> \<bar>1\<bar> \<le> (1::int) \<and> ((1::int), (1::int)) \<noteq> (0, 0) \<and>
    cellWalkable open_astar (1 + 1) (1 + 1) \<and> cellWalkable open_astar (1 + 1) 1 \<and>
    cellWalkable open_astar 1 (1 + 1)"
    by (simp add: cellWalkable_def open_astar_def nth_opt_def)
  from inst [THEN conjunct2, THEN conjunct1, rule_format, of 1 1] h
  have m2: "(2, 2, 1.414) \<in> set (getNeighbors open_astar 1 1)"
    by simp
  have s1: "snapToWalkable open_astar (worldToGrid open_astar (-0.75, -0.75)) = Some (0, 0)"
    and s2: "snapToWalkable open_astar (worldToGrid open_astar (0.75, 0.75)) = Some (3, 3)"
    and s4: "snapToWalkable open_astar (worldToGrid open_astar (-0.25, -0.25)) = Some (1, 1)"
    by (simp_all add: snapToWalkable_def worldToGrid_def cellWalkable_def open_astar_def nth_opt_def)
  have s3: "fst (searchLoop open_astar (3, 3) 1 0 (initialSearch (0, 0) (3, 3))) = None"
    by (simp add: initialSearch_def Let_def)
  from inst [THEN conjunct2, THEN conjunct2, THEN conjunct2, THEN conjunct2, THEN conjunct2, THEN conjunct2, THEN conjunct1] s1 s2 s3 have f: "findPath open_astar (-0.75, -0.75) (0.75, 0.75) 1 = Some NoPath"
    by blast
  let ?st = "\<lparr>openSet = [((1, 0), 2), ((0, 1), 2)],
         closedSet = {(0, 0)},
         gScore = [(0, 0) \<mapsto> 0, (1, 0) \<mapsto> 1, (0, 1) \<mapsto> 1, (1, 1) \<mapsto> (1.414 :: real)],
         fScore = [(0, 0) \<mapsto> sqrt 2, (1, 0) \<mapsto> 2, (0, 1) \<mapsto> 2, (1, 1) \<mapsto> (1.414 :: real)],
         cameFrom = [(1, 0) \<mapsto> (0, 0), (0, 1) \<mapsto> (0, 0), (1, 1) \<mapsto> ((0, 0) :: cell)]\<rparr>"
  note far = astar_search_rules [where a = open_astar and goal = "(1, 1)" and maxIterations = 2000
      and startWorld = "(-0.75, -0.75)" and goalWorld = "(-0.25, -0.25)"
      and st = "initialSearch (0, 0) (1, 1)\<lparr>openSet := [], closedSet := {(0, 0)}\<rparr>"
      and current = "(0, 0)" and nx = 1 and nz = 1 and cost = "1.414"]
  have cw: "cellWalkable open_astar 0 0"
    by (simp add: cellWalkable_def open_astar_def nth_opt_def)
  have "(1, 1) \<in> neighborCells open_astar (0, 0)"
    by (simp add: neighborCells_def open_astar_corner)
  then have re: "((0, 0), (1, 1)) \<in> reachable open_astar"
    by (auto simp: reachable_def)
  have sz: "nat (as_width open_astar) * nat (as_height open_astar) \<le> 2000"
    by (simp add: open_astar_def)
  from far [THEN conjunct2, THEN conjunct2, THEN conjunct2, THEN conjunct2, THEN conjunct2, THEN conjunct2, THEN conjunct2, THEN conjunct2, THEN conjunct2, THEN conjunct2, THEN conjunct2, THEN conjunct2, THEN conjunct2, THEN conjunct2, THEN conjunct1]
  have nn: "fst (searchLoop open_astar (1, 1) 2000 0 (initialSearch (0, 0) (1, 1))) \<noteq> None"
    using cw re sz by auto
  note ev = open_astar_search
  then have fs: "fst (searchLoop open_astar (1, 1) 2000 0 (initialSearch (0, 0) (1, 1))) = Some ((1, 1), ?st)"
    by simp
  have sound: "\<forall>start c st1.
      fst (searchLoop open_astar (1, 1) 2000 0 (initialSearch start (1, 1))) = Some (c, st1) \<longrightarrow>
      c = (1, 1) \<and> gScore st1 start = Some 0 \<and>
      (\<forall>q g. gScore st1 q = Some g \<longrightarrow>
         fScore st1 q = Some (g + heuristic (fst q) (snd q) (fst ((1, 1) :: cell)) (snd ((1, 1) :: cell)))) \<and>
      (\<exists>ps. ps \<noteq> [] \<and> hd ps = start \<and> last ps = (1, 1) \<and> route open_astar st1 ps \<and>
         (\<forall>i. Suc i < length ps \<longrightarrow> ps ! Suc i \<in> neighborCells open_astar (ps ! i)) \<and>
         reconstructPath open_astar st1 (1, 1) start =
           Some (simplifyPath (map (gridToWorld open_astar) (tl ps)))) \<and>
      (start, (1, 1)) \<in> reachable open_astar"
    by (rule far [THEN conjunct2, THEN conjunct2, THEN conjunct2, THEN conjunct2, THEN conjunct2, THEN conjunct2, THEN conjunct2, THEN conjunct2, THEN conjunct2, THEN conjunct2, THEN conjunct2, THEN conjunct2, THEN conjunct2, THEN conjunct1])
  from sound [rule_format, OF fs]
  have rt: "\<exists>ps. ps \<noteq> [] \<and> hd ps = (0, 0) \<and> last ps = (1, 1) \<and> route open_astar ?st ps"
    by blast
  have "findPath open_astar (-0.75, -0.75) (-0.25, -0.25) 2000 =
      map_option Path (reconstructPath open_astar ?st (1, 1) (0, 0))"
    using far [THEN conjunct2, THEN conjunct2, THEN conjunct2, THEN conjunct2, THEN conjunct2, THEN conjunct2, THEN conjunct2, THEN conjunct2, THEN conjunct2, THEN conjunct2, THEN conjunct2, THEN conjunct2, THEN conjunct2, THEN conjunct2, THEN conjunct2, THEN conjunct1] s1 s4 fs by blast
  also have "\<dots> = Some (Path [(-0.25, -0.25)])"
    by (simp add: reconstructPath_def walkBack.simps simplifyPath_def gridToWorld_def open_astar_def)
  finally have fp: "findPath open_astar (-0.75, -0.75) (-0.25, -0.25) 2000 = Some (Path [(-0.25, -0.25)])" .
  have pre: "(1, 1) \<notin> closedSet (initialSearch (0, 0) (1, 1)\<lparr>openSet := [], closedSet := {(0, 0)}\<rparr>) \<and>
      (1, 1) \<notin> fst ` set (openSet (initialSearch (0, 0) (1, 1)\<lparr>openSet := [], closedSet := {(0, 0)}\<rparr>))"
    by simp
  have "relax (1, 1) (0, 0)
     (initialSearch (0, 0) (1, 1)\<lparr>openSet := [], closedSet := {(0, 0)}\<rparr>) (1, 1, 1.414) =
     initialSearch (0, 0) (1, 1)\<lparr>openSet := [], closedSet := {(0, 0)}\<rparr>
       \<lparr>cameFrom := (cameFrom (initialSearch (0, 0) (1, 1)\<lparr>openSet := [], closedSet := {(0, 0)}\<rparr>))((1, 1) \<mapsto> (0, 0)),
        gScore := (gScore (initialSearch (0, 0) (1, 1)\<lparr>openSet := [], closedSet := {(0, 0)}\<rparr>))
           ((1, 1) \<mapsto> the (gScore (initialSearch (0, 0) (1, 1)\<lparr>openSet := [], closedSet := {(0, 0)}\<rparr>) (0, 0)) + 1.414),
        fScore := (fScore (initialSearch (0, 0) (1, 1)\<lparr>openSet := [], closedSet := {(0, 0)}\<rparr>))
           ((1, 1) \<mapsto> the (gScore (initialSearch (0, 0) (1, 1)\<lparr>openSet := [], closedSet := {(0, 0)}\<rparr>) (0, 0)) + 1.414 +
              heuristic 1 1 (fst ((1, 1) :: cell)) (snd ((1, 1) :: cell))),
        openSet := openSet (initialSearch (0, 0) (1, 1)\<lparr>openSet := [], closedSet := {(0, 0)}\<rparr>) @
           [((1, 1), the (gScore (initialSearch (0, 0) (1, 1)\<lparr>openSet := [], closedSet := {(0, 0)}\<rparr>) (0, 0)) + 1.414 +
              heuristic 1 1 (fst ((1, 1) :: cell)) (snd ((1, 1) :: cell)))]\<rparr>"
    using far [THEN conjunct2, THEN conjunct2, THEN conjunct2, THEN conjunct2, THEN conjunct2, THEN conjunct2, THEN conjunct2, THEN conjunct2, THEN conjunct2, THEN conjunct2, THEN conjunct2, THEN conjunct1] pre by blast
  then have rx: "relax (1, 1) (0, 0)
     (initialSearch (0, 0) (1, 1)\<lparr>openSet := [], closedSet := {(0, 0)}\<rparr>) (1, 1, 1.414) =
     initialSearch (0, 0) (1, 1)
       \<lparr>openSet := [((1, 1), 1.414)], closedSet := {(0, 0)},
        cameFrom := [(1, 1) \<mapsto> (0, 0)],
        gScore := [(0, 0) \<mapsto> 0, (1, 1) \<mapsto> 1.414],
        fScore := [(0, 0) \<mapsto> sqrt 2, (1, 1) \<mapsto> 1.414]\<rparr>"
    by (simp add: initialSearch_def heuristic_def Let_def)
  from m w h m2 s1 s2 s3 f cw re sz nn ev rt s4 fp rx show ?thesis by blast
qed

text \<open>
  The claim as written gives a diagonal step the cost \<open>sqrt 2\<close>; the neighbour to the
  north-east of (1, 1) is returned with cost 1.414, which is less, and not with cost
  \<open>sqrt 2\<close>.
\<close>

theorem diagonal_cost_counterexample:
  "(2, 0, 1.414) \<in> set (getNeighbors open_astar 1 1) \<and>
   (2, 0, sqrt 2) \<notin> set (getNeighbors open_astar 1 1) \<and>
   (1.414 :: real) < sqrt 2"
proof -
  have lo: "(1.414 :: real) < sqrt 2"
    by (rule real_less_rsqrt) (simp add: power2_eq_square)
  then have "sqrt 2 \<noteq> (1.414 :: real)" by simp
  then show ?thesis using lo by (simp add: getNeighbors_open_center)
qed

text \<open>
  C4 at the input that breaks it: a \<^verbatim>\<open>playerInput\<close> message whose \<^verbatim>\<open>stats.energy\<close> is
  150, for a live player. \<^verbatim>\<open>handlePlayerInput\<close> stores the value as it is, so the
  energy of the player is 150, above 100; the other paths that write energy take the
  minimum with 100. A \<^verbatim>\<open>playerHit\<close> of negative damage likewise leaves health above
  \<^verbatim>\<open>maxHealth\<close>.
\<close>

theorem handlePlayerInput_energy_not_clamped:
  "players two_players ''b'' = Some (fresh_player ''bob'') \<and>
   energy (fresh_player ''bob'') = 100 \<and>
   map_option energy (players (handlePlayerInput two_players ''b'' energy_input) ''b'') = Some 150 \<and>
   map_option energy (players (apply_op (handlePlayerInput two_players ''b'' energy_input) DownedTick) ''b'') = Some 150 \<and>
   map_option health (players (apply_op two_players (PlayerHit ''b'' (-50) ''fall'')) ''b'') = Some 150 \<and>
   map_option maxHealth (players (apply_op two_players (PlayerHit ''b'' (-50) ''fall'')) ''b'') = Some 100"
  by (simp add: handlePlayerInput_def two_players_def empty_game_def fresh_player_def energy_input_def
      updateDownedPlayers_def tickDowned_def handlePlayerDamage_def damagePlayer_def applyDamage_def Let_def)






text \<open>
  C7. The downed and revive cycle. Damage that takes the health of a live, standing
  player to 0 or below leaves the player downed with health 0 and a countdown of 900
  ticks. While the countdown runs (fewer than 900 ticks of \<^verbatim>\<open>updateDownedPlayers\<close>)
  the player stays alive and downed, and a revive by another player who is alive
  succeeds and leaves the target standing with health 30; at the 900th tick without a
  revive the alive flag is false. No operation on the game state turns the alive flag of
  a player false except the tick of the countdown at which the timer of a downed player
  reaches 0.
\<close>

theorem downed_revive_cycle:
  fixes s :: game_state and pid :: string and dmg :: real and src :: vec3 and ty :: string
  defines "s1 \<equiv> snd (handlePlayerDamage s pid dmg src ty)"
  assumes "players s pid = Some p" and "alive p" and "\<not> isDowned p"
    and "health p \<le> fst (applyDamage dmg p)"
  shows "(\<exists>p1. players s1 pid = Some p1 \<and> isDowned p1 \<and> alive p1 \<and> health p1 = 0 \<and>
            downedTimer p1 = 900) \<and>
         (\<forall>n<900. \<exists>q. players ((updateDownedPlayers ^^ n) s1) pid = Some q \<and> alive q \<and> isDowned q \<and>
            downedTimer q = 900 - int n) \<and>
         (\<exists>q. players ((updateDownedPlayers ^^ 900) s1) pid = Some q \<and> \<not> alive q) \<and>
         (\<forall>n<900. \<forall>rid r. rid \<noteq> pid \<longrightarrow> players ((updateDownedPlayers ^^ n) s1) rid = Some r \<longrightarrow> alive r \<longrightarrow>
            fst (revivePlayer ((updateDownedPlayers ^^ n) s1) rid pid) \<and>
            (\<exists>q. players (snd (revivePlayer ((updateDownedPlayers ^^ n) s1) rid pid)) pid = Some q \<and>
                 \<not> isDowned q \<and> health q = 30 \<and> alive q)) \<and>
         (\<forall>st op k q q'. players st k = Some q \<longrightarrow> alive q \<longrightarrow> players (apply_op st op) k = Some q' \<longrightarrow>
            \<not> alive q' \<longrightarrow> op = DownedTick \<and> isDowned q \<and> downedTimer q - 1 \<le> 0)"
proof -
  let ?p1 = "p\<lparr>health := 0, isDowned := True, downedTimer := 900\<rparr>"
  have p1: "players s1 pid = Some ?p1"
    unfolding s1_def using assms(2-5) by (rule handlePlayerDamage_downs)
  have ticks: "players ((updateDownedPlayers ^^ n) s1) pid = Some (?p1\<lparr>downedTimer := 900 - int n\<rparr>)"
    if "n < 900" for n
    using that assms(3) by (simp add: updateDownedPlayers_funpow p1 tickDowned_funpow)
  have c1: "\<exists>p1. players s1 pid = Some p1 \<and> isDowned p1 \<and> alive p1 \<and> health p1 = 0 \<and> downedTimer p1 = 900"
    using p1 assms(3) by simp
  have c2: "\<forall>n<900. \<exists>q. players ((updateDownedPlayers ^^ n) s1) pid = Some q \<and> alive q \<and> isDowned q \<and>
            downedTimer q = 900 - int n"
    using ticks assms(3) by simp
  have "\<not> alive ((tickDowned ^^ Suc 899) ?p1)"
    using assms(3) by (intro tickDowned_expires) simp_all
  then have c3: "\<exists>q. players ((updateDownedPlayers ^^ 900) s1) pid = Some q \<and> \<not> alive q"
    by (simp add: updateDownedPlayers_funpow p1)
  have c4: "\<forall>n<900. \<forall>rid r. rid \<noteq> pid \<longrightarrow> players ((updateDownedPlayers ^^ n) s1) rid = Some r \<longrightarrow> alive r \<longrightarrow>
            fst (revivePlayer ((updateDownedPlayers ^^ n) s1) rid pid) \<and>
            (\<exists>q. players (snd (revivePlayer ((updateDownedPlayers ^^ n) s1) rid pid)) pid = Some q \<and>
                 \<not> isDowned q \<and> health q = 30 \<and> alive q)"
  proof (intro allI impI)
    fix n rid r
    assume n: "n < (900::nat)" and r: "rid \<noteq> pid" "players ((updateDownedPlayers ^^ n) s1) rid = Some r" "alive r"
    from revive_downed [OF r(2) r(3) r(1) ticks [OF n]] assms(3)
    show "fst (revivePlayer ((updateDownedPlayers ^^ n) s1) rid pid) \<and>
            (\<exists>q. players (snd (revivePlayer ((updateDownedPlayers ^^ n) s1) rid pid)) pid = Some q \<and>
                 \<not> isDowned q \<and> health q = 30 \<and> alive q)"
      by simp
  qed
  have c5: "\<forall>st op k q q'. players st k = Some q \<longrightarrow> alive q \<longrightarrow> players (apply_op st op) k = Some q' \<longrightarrow>
            \<not> alive q' \<longrightarrow> op = DownedTick \<and> isDowned q \<and> downedTimer q - 1 \<le> 0"
    using alive_lost_only_by_countdown by blast
  from c1 c2 c3 c4 c5 show ?thesis by blast
qed

text \<open>
  Two players; the first takes 120 damage. After 899 ticks she is still alive with one
  tick left, after 900 she is not; after 10 ticks the second player can revive her.
\<close>

theorem downed_revive_cycle_witness:
  "players two_players ''a'' = Some (fresh_player ''ann'') \<and>
   alive (fresh_player ''ann'') \<and> \<not> isDowned (fresh_player ''ann'') \<and>
   health (fresh_player ''ann'') \<le> fst (applyDamage 120 (fresh_player ''ann'')) \<and>
   (\<exists>q. players ((updateDownedPlayers ^^ 899) (snd (handlePlayerDamage two_players ''a'' 120 origin ''enemy''))) ''a'' = Some q \<and>
        alive q \<and> isDowned q \<and> downedTimer q = 1) \<and>
   (\<exists>q. players ((updateDownedPlayers ^^ 900) (snd (handlePlayerDamage two_players ''a'' 120 origin ''enemy''))) ''a'' = Some q \<and>
        \<not> alive q) \<and>
   players ((updateDownedPlayers ^^ 10) (snd (handlePlayerDamage two_players ''a'' 120 origin ''enemy''))) ''b'' =
     Some (fresh_player ''bob'') \<and>
   fst (revivePlayer ((updateDownedPlayers ^^ 10) (snd (handlePlayerDamage two_players ''a'' 120 origin ''enemy''))) ''b'' ''a'')"
proof -
  let ?s1 = "snd (handlePlayerDamage two_players ''a'' 120 origin ''enemy'')"
  have h1: "players two_players ''a'' = Some (fresh_player ''ann'')"
    by (simp add: two_players_def)
  have h2: "alive (fresh_player ''ann'')" and h3: "\<not> isDowned (fresh_player ''ann'')"
    by (simp_all add: fresh_player_def)
  have h4: "health (fresh_player ''ann'') \<le> fst (applyDamage 120 (fresh_player ''ann''))"
    by (simp add: fresh_player_def applyDamage_def)
  note inst = downed_revive_cycle [OF h1 h2 h3 h4, of origin "''enemy''"]
  have idle: "(tickDowned ^^ n) (fresh_player ''bob'') = fresh_player ''bob''" for n
    by (induction n) (simp_all add: tickDowned_def fresh_player_def)
  have b0: "players ?s1 ''b'' = Some (fresh_player ''bob'')"
    by (simp add: handlePlayerDamage_def damagePlayer_def applyDamage_def two_players_def fresh_player_def)
  have b: "players ((updateDownedPlayers ^^ 10) ?s1) ''b'' = Some (fresh_player ''bob'')"
    by (simp only: updateDownedPlayers_funpow b0 option.map idle)
  have rb: "alive (fresh_player ''bob'')" by (simp add: fresh_player_def)
  have ne: "''b'' \<noteq> ''a''" by simp
  have n899: "(899::nat) < 900" and n10: "(10::nat) < 900" by simp_all
  from inst [THEN conjunct2, THEN conjunct1, rule_format, OF n899]
  have "\<exists>q. players ((updateDownedPlayers ^^ 899) ?s1) ''a'' = Some q \<and> alive q \<and> isDowned q \<and>
      downedTimer q = 1"
    by simp
  moreover from inst [THEN conjunct2, THEN conjunct2, THEN conjunct1]
  have "\<exists>q. players ((updateDownedPlayers ^^ 900) ?s1) ''a'' = Some q \<and> \<not> alive q" .
  moreover from inst [THEN conjunct2, THEN conjunct2, THEN conjunct2, THEN conjunct1, rule_format,
      OF n10 ne b rb]
  have "fst (revivePlayer ((updateDownedPlayers ^^ 10) ?s1) ''b'' ''a'')"
    by simp
  ultimately show ?thesis using h1 h2 h3 h4 b by simp
qed

text \<open>
  C8, the requests that the code refuses. A revive whose reviver or target does not
  exist, whose reviver is not alive or whose target is not downed, a loot request for a
  container that does not exist or is already looted, and a collect request for an
  objective that does not exist or is already collected are no-ops: they return false
  or null and leave the whole game state unchanged. The remaining case of C8, a loot or
  collect request of a player that does not exist, is not refused, as the last theorem of this
  part shows.
\<close>

theorem invalid_requests_are_noops:
  "((players s reviverId = None \<or> players s targetId = None \<or>
     (\<exists>r. players s reviverId = Some r \<and> \<not> alive r) \<or>
     (\<exists>q. players s targetId = Some q \<and> \<not> isDowned q))
      \<longrightarrow> revivePlayer s reviverId targetId = (False, s)) \<and>
   ((lootContainers s containerId = None \<or>
     (\<exists>c. lootContainers s containerId = Some c \<and> looted c))
      \<longrightarrow> lootContainer s playerId containerId uuid = (None, s)) \<and>
   ((map_of (objective_items s) objectiveId = None \<or>
     (\<exists>it. map_of (objective_items s) objectiveId = Some it \<and> collected it))
      \<longrightarrow> collectObjective s playerId objectiveId uuid now = (False, s))"
  by (auto simp: revivePlayer_def lootContainer_def collectObjective_def split: option.splits)

text \<open>
  A game with one standing player, one open and one collected objective and one looted
  container: each kind of invalid request, with an id that exists and with one that
  does not.
\<close>

theorem invalid_requests_are_noops_witness:
  "players game_with_objective ''b'' = Some (fresh_player ''bob'') \<and>
   \<not> isDowned (fresh_player ''bob'') \<and>
   revivePlayer game_with_objective ''b'' ''b'' = (False, game_with_objective) \<and>
   players game_with_objective ''ghost'' = None \<and>
   revivePlayer game_with_objective ''ghost'' ''b'' = (False, game_with_objective) \<and>
   lootContainers game_with_objective ''loot_0'' = Some \<lparr>looted = True, loot = Some ''food''\<rparr> \<and>
   lootContainer game_with_objective ''b'' ''loot_0'' ''u9'' = (None, game_with_objective) \<and>
   lootContainers game_with_objective ''loot_7'' = None \<and>
   lootContainer game_with_objective ''b'' ''loot_7'' ''u9'' = (None, game_with_objective) \<and>
   map_of (objective_items game_with_objective) ''objective_generator_part_1'' =
     Some \<lparr>collected = True, collectedBy = Some ''b''\<rparr> \<and>
   collectObjective game_with_objective ''b'' ''objective_generator_part_1'' ''u9'' 5 =
     (False, game_with_objective) \<and>
   map_of (objective_items game_with_objective) ''objective_x'' = None \<and>
   collectObjective game_with_objective ''b'' ''objective_x'' ''u9'' 5 = (False, game_with_objective)"
proof -
  have p: "players game_with_objective ''b'' = Some (fresh_player ''bob'')"
    and g: "players game_with_objective ''ghost'' = None"
    and l0: "lootContainers game_with_objective ''loot_0'' = Some \<lparr>looted = True, loot = Some ''food''\<rparr>"
    and l7: "lootContainers game_with_objective ''loot_7'' = None"
    and o1: "map_of (objective_items game_with_objective) ''objective_generator_part_1'' =
               Some \<lparr>collected = True, collectedBy = Some ''b''\<rparr>"
    and ox: "map_of (objective_items game_with_objective) ''objective_x'' = None"
    by (simp_all add: game_with_objective_def)
  have nd: "\<not> isDowned (fresh_player ''bob'')"
    by (simp add: fresh_player_def)
  from invalid_requests_are_noops [where s = game_with_objective and reviverId = "''b''"
      and targetId = "''b''" and containerId = "''loot_0''" and playerId = "''b''" and uuid = "''u9''"
      and objectiveId = "''objective_generator_part_1''" and now = 5] p nd l0 o1
  have a: "revivePlayer game_with_objective ''b'' ''b'' = (False, game_with_objective)"
    and b: "lootContainer game_with_objective ''b'' ''loot_0'' ''u9'' = (None, game_with_objective)"
    and c: "collectObjective game_with_objective ''b'' ''objective_generator_part_1'' ''u9'' 5 =
              (False, game_with_objective)"
    by simp_all
  from invalid_requests_are_noops [where s = game_with_objective and reviverId = "''ghost''"
      and targetId = "''b''" and containerId = "''loot_7''" and playerId = "''b''" and uuid = "''u9''"
      and objectiveId = "''objective_x''" and now = 5] g l7 ox
  have d: "revivePlayer game_with_objective ''ghost'' ''b'' = (False, game_with_objective)"
    and e: "lootContainer game_with_objective ''b'' ''loot_7'' ''u9'' = (None, game_with_objective)"
    and f: "collectObjective game_with_objective ''b'' ''objective_x'' ''u9'' 5 =
              (False, game_with_objective)"
    by simp_all
  show ?thesis using p g l0 l7 o1 ox nd a b c d e f by simp
qed

text \<open>
  C8 fails for a player id that does not exist. \<^verbatim>\<open>collectObjective\<close> and
  \<^verbatim>\<open>lootContainer\<close> never look the player up, where \<^verbatim>\<open>revivePlayer\<close>,
  \<^verbatim>\<open>handlePlayerInput\<close>, \<^verbatim>\<open>handlePlayerDamage\<close> and \<^verbatim>\<open>addChatMessage\<close> return early
  on a missing player. In the game with the single player \<open>b\<close>, the collect request of
  the unknown id \<open>ghost\<close> for the open objective returns true, records \<open>ghost\<close> as the
  collector and writes a system message about the player \<open>Unknown\<close>; every objective is
  then collected, so the next \<^verbatim>\<open>updateObjectives\<close> opens the escape. The loot request of
  \<open>ghost\<close> for the unopened container returns its loot, marks the container looted and
  drops the pickup.
\<close>

theorem requests_of_unknown_player_succeed:
  "players game_with_objective ''ghost'' = None \<and>
   fst (collectObjective game_with_objective ''ghost'' ''objective_generator_part_0'' ''m7'' 5) = True \<and>
   map_of (objective_items (snd (collectObjective game_with_objective ''ghost''
       ''objective_generator_part_0'' ''m7'' 5))) ''objective_generator_part_0'' =
     Some \<lparr>collected = True, collectedBy = Some ''ghost''\<rparr> \<and>
   chatMessages (snd (collectObjective game_with_objective ''ghost''
       ''objective_generator_part_0'' ''m7'' 5)) =
     [SystemMessage ''m7'' 5 (emoji_box @ ascii '' Unknown collected Generator Part!'')] \<and>
   snd (collectObjective game_with_objective ''ghost'' ''objective_generator_part_0'' ''m7'' 5) \<noteq>
     game_with_objective \<and>
   \<not> escapeActive game_with_objective \<and>
   updateObjectives game_with_objective ''m8'' 6 = game_with_objective \<and>
   escapeActive (updateObjectives (snd (collectObjective game_with_objective ''ghost''
       ''objective_generator_part_0'' ''m7'' 5)) ''m8'' 6) \<and>
   fst (lootContainer game_with_objective ''ghost'' ''loot_1'' ''u9'') = Some ''ammo'' \<and>
   lootContainers (snd (lootContainer game_with_objective ''ghost'' ''loot_1'' ''u9'')) ''loot_1'' =
     Some \<lparr>looted = True, loot = Some ''ammo''\<rparr> \<and>
   pickups (snd (lootContainer game_with_objective ''ghost'' ''loot_1'' ''u9'')) ''u9'' =
     Some \<lparr>pk_type = Some ''ammo'', pk_position = \<lparr>vx = 4, vy = 0.5, vz = 2\<rparr>, pk_rotation = 0\<rparr> \<and>
   snd (lootContainer game_with_objective ''ghost'' ''loot_1'' ''u9'') \<noteq> game_with_objective"
proof -
  let ?c = "collectObjective game_with_objective ''ghost'' ''objective_generator_part_0'' ''m7'' 5"
  let ?l = "lootContainer game_with_objective ''ghost'' ''loot_1'' ''u9''"
  have a: "players game_with_objective ''ghost'' = None"
    by (simp add: game_with_objective_def)
  have b: "fst ?c = True"
    by (simp add: collectObjective_def game_with_objective_def Let_def)
  have c: "map_of (objective_items (snd ?c)) ''objective_generator_part_0'' =
     Some \<lparr>collected = True, collectedBy = Some ''ghost''\<rparr>"
    by (simp add: collectObjective_def game_with_objective_def Let_def addSystemMessage_def)
  have m: "chatMessages (snd ?c) =
     [SystemMessage ''m7'' 5 (emoji_box @ ascii '' Unknown collected Generator Part!'')]"
    by (simp add: collectObjective_def game_with_objective_def Let_def addSystemMessage_def
        pushMessage_def empty_game_def ascii_def)
  have d: "map_of (objective_items game_with_objective) ''objective_generator_part_0'' =
     Some \<lparr>collected = False, collectedBy = None\<rparr>"
    by (simp add: game_with_objective_def)
  from c d have e: "snd ?c \<noteq> game_with_objective"
    by auto
  have f: "\<not> escapeActive game_with_objective"
    by (simp add: game_with_objective_def empty_game_def)
  have g: "updateObjectives game_with_objective ''m8'' 6 = game_with_objective"
    by (simp add: updateObjectives_def game_with_objective_def Let_def)
  have h: "escapeActive (updateObjectives (snd ?c) ''m8'' 6)"
    by (simp add: updateObjectives_def collectObjective_def game_with_objective_def Let_def
        addSystemMessage_def empty_game_def)
  have i: "fst ?l = Some ''ammo''"
    by (simp add: lootContainer_def game_with_objective_def Let_def)
  have j: "lootContainers (snd ?l) ''loot_1'' = Some \<lparr>looted = True, loot = Some ''ammo''\<rparr>"
    by (simp add: lootContainer_def game_with_objective_def Let_def)
  have k: "pickups (snd ?l) ''u9'' =
     Some \<lparr>pk_type = Some ''ammo'', pk_position = \<lparr>vx = 4, vy = 0.5, vz = 2\<rparr>, pk_rotation = 0\<rparr>"
    by (simp add: lootContainer_def game_with_objective_def Let_def)
  have l0: "lootContainers game_with_objective ''loot_1'' = Some \<lparr>looted = False, loot = Some ''ammo''\<rparr>"
    by (simp add: game_with_objective_def)
  from j l0 have n: "snd ?l \<noteq> game_with_objective"
    by auto
  show ?thesis using a b c m e f g h i j k n by simp
qed

text \<open>
  C9. A player that is already downed or not alive cannot be damaged through
  \<^verbatim>\<open>handlePlayerDamage\<close>: the call returns null (\<open>None\<close>) and the whole game state,
  so in particular the player's health, downed flag and countdown, is unchanged.
\<close>

theorem handlePlayerDamage_downed_or_dead:
  assumes "players s playerId = Some p" and "isDowned p \<or> \<not> alive p"
  shows "handlePlayerDamage s playerId damage src ty = (None, s)"
  using assms by (auto simp: handlePlayerDamage_def damagePlayer_def)

text \<open>A downed player takes 25 damage from an enemy: nothing changes.\<close>

theorem handlePlayerDamage_downed_or_dead_witness:
  "players game_with_downed ''a'' = Some downed_player \<and> isDowned downed_player \<and>
   handlePlayerDamage game_with_downed ''a'' 25 origin ''enemy'' = (None, game_with_downed)"
proof -
  have h1: "players game_with_downed ''a'' = Some downed_player"
    by (simp add: game_with_downed_def)
  have h2: "isDowned downed_player \<or> \<not> alive downed_player"
    by (simp add: downed_player_def)
  have h3: "isDowned downed_player"
    by (simp add: downed_player_def)
  from handlePlayerDamage_downed_or_dead [OF h1 h2, of 25 origin "''enemy''"] h1 h3
  show ?thesis by simp
qed

text \<open>
  C10. The message log never holds more than 50 entries. Each of the three writers
  (system message, player chat, kill message of a dying enemy) leaves the last 50
  entries of the old log with the new message appended, and from a log of at most 50
  entries every sequence of operations on the game state ends with at most 50.
\<close>

theorem chat_log_at_most_50:
  "chatMessages (snd (addSystemMessage s msg u t)) =
     slice_last 50 (chatMessages s @ [fst (addSystemMessage s msg u t)]) \<and>
   (\<forall>m. fst (addChatMessage s pid msg u t) = Some m \<longrightarrow>
      chatMessages (snd (addChatMessage s pid msg u t)) = slice_last 50 (chatMessages s @ [m])) \<and>
   (\<forall>en. enemies s eid = Some en \<longrightarrow>
      (\<exists>m. chatMessages (handleEnemyDeath s eid kid w hs env) = slice_last 50 (chatMessages s @ [m]))) \<and>
   length (slice_last 50 (chatMessages s @ [m0])) \<le> 50 \<and>
   (length (chatMessages s) \<le> 50 \<longrightarrow> length (chatMessages (run_ops s ops)) \<le> 50)"
proof (intro conjI allI impI)
  show "chatMessages (snd (addSystemMessage s msg u t)) =
     slice_last 50 (chatMessages s @ [fst (addSystemMessage s msg u t)])"
    by (simp add: addSystemMessage_def Let_def pushMessage_slice)
next
  fix m assume "fst (addChatMessage s pid msg u t) = Some m"
  then show "chatMessages (snd (addChatMessage s pid msg u t)) = slice_last 50 (chatMessages s @ [m])"
    by (simp add: log_addChatMessage pushMessage_slice)
next
  fix en assume "enemies s eid = Some en"
  then show "\<exists>m. chatMessages (handleEnemyDeath s eid kid w hs env) = slice_last 50 (chatMessages s @ [m])"
    by (auto simp: log_handleEnemyDeath pushMessage_slice)
next
  show "length (slice_last 50 (chatMessages s @ [m0])) \<le> 50"
    by (simp add: slice_last_length)
next
  assume "length (chatMessages s) \<le> 50"
  then show "length (chatMessages (run_ops s ops)) \<le> 50"
    unfolding run_ops_def by (rule log_run_ops)
qed

text \<open>
  A log of 50 entries: a chat message, typed with spaces before it and a space and a
  no-break space after it, and a kill message each leave 50 entries, the new one last,
  and so does a sequence of four operations.
\<close>

theorem chat_log_at_most_50_witness:
  "length (chatMessages game_with_full_log) = 50 \<and>
   fst (addChatMessage game_with_full_log ''b'' (ascii ''  hi '' @ [0x00A0]) ''m2'' 7) =
     Some (ChatMessage ''m2'' 7 ''b'' (ascii ''bob'') 0 (ascii ''hi'')) \<and>
   length (chatMessages (snd (addChatMessage game_with_full_log ''b'' (ascii ''  hi '' @ [0x00A0]) ''m2'' 7))) = 50 \<and>
   last (chatMessages (snd (addChatMessage game_with_full_log ''b'' (ascii ''  hi '' @ [0x00A0]) ''m2'' 7))) =
     ChatMessage ''m2'' 7 ''b'' (ascii ''bob'') 0 (ascii ''hi'') \<and>
   enemies game_with_full_log ''e1'' = Some normal_enemy \<and>
   length (chatMessages (handleEnemyDeath game_with_full_log ''e1'' ''b'' ''pistol'' True demo_env)) = 50 \<and>
   length (chatMessages (run_ops game_with_full_log
      [System (ascii ''one'') ''m3'' 8, Chat ''b'' (ascii ''two'') ''m4'' 9,
       BulletHit ''k1'' ''e1'' True demo_env, ObjectivesTick ''m5'' 10])) \<le> 50"
proof -
  note inst = chat_log_at_most_50 [where s = game_with_full_log and msg = "ascii ''  hi '' @ [0x00A0]"
      and u = "''m2''" and t = 7 and pid = "''b''" and eid = "''e1''" and kid = "''b''"
      and w = "''pistol''" and hs = True and env = demo_env
      and ops = "[System (ascii ''one'') ''m3'' 8, Chat ''b'' (ascii ''two'') ''m4'' 9,
        BulletHit ''k1'' ''e1'' True demo_env, ObjectivesTick ''m5'' 10]"]
  have len: "length (chatMessages game_with_full_log) = 50"
    by (simp add: game_with_full_log_def)
  have en: "enemies game_with_full_log ''e1'' = Some normal_enemy"
    by (simp add: game_with_full_log_def game_with_bullet_def)
  have chat: "fst (addChatMessage game_with_full_log ''b'' (ascii ''  hi '' @ [0x00A0]) ''m2'' 7) =
     Some (ChatMessage ''m2'' 7 ''b'' (ascii ''bob'') 0 (ascii ''hi''))"
    by (simp add: addChatMessage_def game_with_full_log_def game_with_bullet_def fresh_player_def
        empty_game_def trim_def is_space_def ascii_def Let_def)
  from inst chat have c1: "chatMessages (snd (addChatMessage game_with_full_log ''b'' (ascii ''  hi '' @ [0x00A0]) ''m2'' 7)) =
      slice_last 50 (chatMessages game_with_full_log @ [ChatMessage ''m2'' 7 ''b'' (ascii ''bob'') 0 (ascii ''hi'')])"
    by blast
  from inst en obtain m where c2: "chatMessages (handleEnemyDeath game_with_full_log ''e1'' ''b'' ''pistol'' True demo_env) =
      slice_last 50 (chatMessages game_with_full_log @ [m])"
    by blast
  from inst len have c3: "length (chatMessages (run_ops game_with_full_log
      [System (ascii ''one'') ''m3'' 8, Chat ''b'' (ascii ''two'') ''m4'' 9,
       BulletHit ''k1'' ''e1'' True demo_env, ObjectivesTick ''m5'' 10])) \<le> 50"
    by simp
  have l1: "length (slice_last 50 (chatMessages game_with_full_log @ [x])) = 50" for x
    by (simp add: slice_last_def len)
  have l2: "last (slice_last 50 (chatMessages game_with_full_log @ [x])) = x" for x
    by (simp add: slice_last_def len)
  show ?thesis
    using len chat en c3 by (simp add: c1 c2 l1 l2)
qed

end
